(* ===== verification/Prelude.thy ===== *)
theory Prelude
  imports Complex_Main "HOL-Library.Word"
begin

text \<open>
  Shared ground of the development: Go error values and \<open>errors.Is\<close>, 64-bit
  two's-complement arithmetic for \<open>time.Duration\<close> and \<open>int\<close>, association lists
  standing for Go maps, and the collections of facts the component theories extend.
\<close>

named_theorems go_simps "equations that evaluate the Go standard-library functions"
named_theorems hist_simps "how each operation extends the history of external calls"

section \<open>Errors\<close>

text \<open>
  The sentinel error variables of the program and of the packages it tests against
  with \<open>errors.Is\<close>. Two sentinels are the same error only if they are the same variable.
\<close>

datatype sentinel =
    ContextCanceled
  | DeadlineExceeded
  | KafkaErrNonRetryable
  | KafkaErrInvalidTraceparent
  | SqsErrNonRetryable
  | SqsErrTooManyAttributes
  | ErrUserNotFound
  | ErrUserAlreadyExists
  | ErrRoleNotFound
  | ErrRoleAlreadyExists
  | ErrInvalidRoleID
  | ErrBlockedAddress
  | ErrNoDocuments
  | ECONNREFUSED

text \<open>
  An error is a sentinel, a fresh \<open>errors.New\<close>, a wrapped error (\<open>fmt.Errorf\<close> with
  \<open>%w\<close>, its text before and after) or an \<open>errors.Join\<close>.
\<close>

datatype go_error =
    Sentinel sentinel
  | NewError string
  | WrapError string go_error string
  | JoinError "go_error list"

fun sentinel_text :: "sentinel \<Rightarrow> string" where
  "sentinel_text ContextCanceled = ''context canceled''"
| "sentinel_text DeadlineExceeded = ''context deadline exceeded''"
| "sentinel_text KafkaErrNonRetryable = ''kafka: non-retryable handler error''"
| "sentinel_text KafkaErrInvalidTraceparent = ''kafka: invalid traceparent header''"
| "sentinel_text SqsErrNonRetryable = ''sqs: non-retryable handler error''"
| "sentinel_text SqsErrTooManyAttributes = ''sqs: too many message attributes''"
| "sentinel_text ErrUserNotFound = ''user not found''"
| "sentinel_text ErrUserAlreadyExists = ''user already exists''"
| "sentinel_text ErrRoleNotFound = ''role not found''"
| "sentinel_text ErrRoleAlreadyExists = ''role already exists''"
| "sentinel_text ErrInvalidRoleID = ''invalid role id''"
| "sentinel_text ErrBlockedAddress = ''httpclient: address blocked by external client policy''"
| "sentinel_text ErrNoDocuments = ''mongo: no documents in result''"
| "sentinel_text ECONNREFUSED = ''connection refused''"

fun join_lines :: "string list \<Rightarrow> string" where
  "join_lines [] = []"
| "join_lines [s] = s"
| "join_lines (s # t # ts) = s @ CHR 0x0A # join_lines (t # ts)"

fun error_text :: "go_error \<Rightarrow> string" where
  "error_text (Sentinel s) = sentinel_text s"
| "error_text (NewError m) = m"
| "error_text (WrapError m e m') = m @ error_text e @ m'"
| "error_text (JoinError es) = join_lines (map error_text es)"

text \<open>\<open>errors.Is(e, target)\<close> searches the tree of wrapped and joined errors.\<close>

fun errors_is :: "go_error \<Rightarrow> sentinel \<Rightarrow> bool" where
  "errors_is (Sentinel s) t = (s = t)"
| "errors_is (NewError m) t = False"
| "errors_is (WrapError m e m') t = errors_is e t"
| "errors_is (JoinError es) t = list_ex (\<lambda>e. errors_is e t) es"

section \<open>64-bit integers\<close>

text \<open>
  Go's \<open>int\<close>, \<open>int64\<close> and \<open>time.Duration\<close> (nanoseconds) are 64-bit two's complement.
  The model keeps them as \<open>int\<close> and writes the wrap-around out where the code computes.
\<close>

type_synonym duration = int

definition wrap64 :: "int \<Rightarrow> int" where
  "wrap64 x = (x + 2 ^ 63) mod 2 ^ 64 - 2 ^ 63"

definition int64_range :: "int \<Rightarrow> bool" where
  "int64_range x \<longleftrightarrow> - (2 ^ 63) \<le> x \<and> x < 2 ^ 63"

lemma wrap64_word: "wrap64 x = sint (word_of_int x :: 64 word)"
  by (simp add: wrap64_def signed_take_bit_eq_take_bit_shift take_bit_eq_mod sint_sbintrunc')

lemma wrap64_range: "int64_range (wrap64 x)"
  by (simp add: wrap64_def int64_range_def)

lemma wrap64_id [simp]: "int64_range x \<Longrightarrow> wrap64 x = x"
  by (simp add: wrap64_def int64_range_def)

definition nanosecond :: duration where "nanosecond = 1"
definition millisecond :: duration where "millisecond = 1000000"
definition second :: duration where "second = 1000000000"
definition minute :: duration where "minute = 60000000000"

lemmas time_units = nanosecond_def millisecond_def second_def minute_def

section \<open>Go maps as association lists\<close>

text \<open>
  A Go map is an association list with distinct keys, in the order one \<open>range\<close> visits
  it. The runtime picks that order; a statement about every list covers every order.
\<close>

fun alist_set :: "'k \<Rightarrow> 'v \<Rightarrow> ('k \<times> 'v) list \<Rightarrow> ('k \<times> 'v) list" where
  "alist_set k v [] = [(k, v)]"
| "alist_set k v ((k', v') # m) = (if k' = k then (k, v) # m else (k', v') # alist_set k v m)"

lemma map_of_alist_set [simp]: "map_of (alist_set k v m) = (map_of m)(k \<mapsto> v)"
  by (induction m) (auto simp: fun_eq_iff)

lemma keys_alist_set: "set (map fst (alist_set k v m)) = insert k (set (map fst m))"
  by (induction k v m rule: alist_set.induct) auto

lemma distinct_alist_set [intro]: "distinct (map fst m) \<Longrightarrow> distinct (map fst (alist_set k v m))"
proof (induction m)
  case (Cons a m)
  then show ?case using keys_alist_set [of k v m] by (cases a) auto
qed simp

lemma length_alist_set:
  "length (alist_set k v m) = (if k \<in> set (map fst m) then length m else Suc (length m))"
  by (induction k v m rule: alist_set.induct) auto

lemma alist_set_fresh: "k \<notin> set (map fst m) \<Longrightarrow> alist_set k v m = m @ [(k, v)]"
  by (induction m) auto

section \<open>Histories\<close>

text \<open>
  Everything a component does to the outside (a broker call, a sleep, a commit) is an
  event appended to a history, and everything the outside answers is a function of the
  history so far. Operations only ever append.
\<close>

definition extends :: "'e list \<Rightarrow> 'e list \<Rightarrow> bool" where
  "extends h h' \<longleftrightarrow> take (length h) h' = h"

lemma extends_refl [simp, intro]: "extends h h"
  by (simp add: extends_def)

lemma extends_append [simp, intro]: "extends h (h @ t)"
  by (simp add: extends_def)

lemma extendsE: "extends h h' \<Longrightarrow> (\<And>t. h' = h @ t \<Longrightarrow> P) \<Longrightarrow> P"
  by (metis append_take_drop_id extends_def)

lemma extends_trans [trans]: "extends a b \<Longrightarrow> extends b c \<Longrightarrow> extends a c"
  by (metis extendsE extends_append append_assoc)

lemma extends_set: "extends h h' \<Longrightarrow> set h \<subseteq> set h'"
  by (elim extendsE) auto

end
