(* ===== verification/GoStd.thy ===== *)
theory GoStd
  imports Prelude
begin

text \<open>
  What the program uses of Go's \<open>strings\<close>, \<open>strconv\<close>, \<open>unicode/utf8\<close> and \<open>regexp\<close>
  packages. A Go string is a list of bytes, here a list of 8-bit \<open>char\<close>s.
\<close>

section \<open>strings\<close>

definition has_prefix :: "string \<Rightarrow> string \<Rightarrow> bool" where
  "has_prefix s p \<longleftrightarrow> take (length p) s = p"

definition has_suffix :: "string \<Rightarrow> string \<Rightarrow> bool" where
  "has_suffix s p \<longleftrightarrow> length p \<le> length s \<and> drop (length s - length p) s = p"

definition trim_prefix :: "string \<Rightarrow> string \<Rightarrow> string" where
  "trim_prefix s p = (if has_prefix s p then drop (length p) s else s)"

definition trim_suffix :: "string \<Rightarrow> string \<Rightarrow> string" where
  "trim_suffix s p = (if has_suffix s p then take (length s - length p) s else s)"

lemma has_prefix_append [simp]: "has_prefix (p @ s) p"
  by (simp add: has_prefix_def)

lemma has_suffix_append [simp]: "has_suffix (s @ p) p"
  by (simp add: has_suffix_def)

lemma trim_suffix_append [simp]: "trim_suffix (s @ p) p = s"
  by (simp add: trim_suffix_def)

lemma trim_prefix_append [simp]: "trim_prefix (p @ s) p = s"
  by (simp add: trim_prefix_def)

lemma trim_suffix_Nil [simp]: "trim_suffix s [] = s"
  by (simp add: trim_suffix_def)

lemma has_suffixE: "has_suffix s p \<Longrightarrow> (\<And>b. s = b @ p \<Longrightarrow> P) \<Longrightarrow> P"
  by (metis append_take_drop_id has_suffix_def)

lemma has_prefixE: "has_prefix s p \<Longrightarrow> (\<And>t. s = p @ t \<Longrightarrow> P) \<Longrightarrow> P"
  by (metis append_take_drop_id has_prefix_def)

lemma has_prefix_iff: "has_prefix s p \<longleftrightarrow> (\<exists>t. s = p @ t)"
  by (auto elim: has_prefixE)

lemma trim_suffix_cases:
  "(s = trim_suffix s p @ p) \<or> (\<not> has_suffix s p \<and> trim_suffix s p = s)"
  by (auto simp: trim_suffix_def elim: has_suffixE)

text \<open>\<open>strings.Contains\<close> and the single-byte searches.\<close>

fun contains :: "string \<Rightarrow> string \<Rightarrow> bool" where
  "contains [] t = (t = [])"
| "contains (c # s) t = (has_prefix (c # s) t \<or> contains s t)"

lemma contains_iff: "contains s t \<longleftrightarrow> (\<exists>a b. s = a @ t @ b)"
proof (induction s)
  case Nil
  then show ?case by simp
next
  case (Cons c s)
  show ?case
  proof
    assume "contains (c # s) t"
    then consider "has_prefix (c # s) t" | "contains s t" by auto
    then show "\<exists>a b. c # s = a @ t @ b"
    proof cases
      case 1
      then show ?thesis by (metis append_Nil has_prefixE)
    next
      case 2
      with Cons.IH show ?thesis by (metis append_Cons)
    qed
  next
    assume "\<exists>a b. c # s = a @ t @ b"
    then obtain a b where ab: "c # s = a @ t @ b" by blast
    show "contains (c # s) t"
    proof (cases a)
      case Nil
      with ab have "has_prefix (c # s) t" by (simp add: has_prefix_def)
      then show ?thesis by simp
    next
      case (Cons x xs)
      with ab Cons.IH show ?thesis by auto
    qed
  qed
qed

text \<open>\<open>strings.LastIndex\<close> of a single byte: None stands for \<open>-1\<close>.\<close>

fun last_index :: "string \<Rightarrow> char \<Rightarrow> nat option" where
  "last_index [] c = None"
| "last_index (x # s) c =
     (case last_index s c of
        Some i \<Rightarrow> Some (Suc i)
      | None \<Rightarrow> if x = c then Some 0 else None)"

lemma last_index_None: "last_index s c = None \<longleftrightarrow> c \<notin> set s"
  by (induction s) (auto split: option.splits)

lemma last_index_app: "c \<notin> set t \<Longrightarrow> last_index (s @ c # t) c = Some (length s)"
  by (induction s) (auto simp: last_index_None split: option.splits)

lemma last_indexE:
  assumes "last_index s c = Some i"
  obtains a b where "s = a @ c # b" "i = length a" "c \<notin> set b"
proof -
  have "c \<in> set s" using assms last_index_None [of s c] by auto
  then obtain a b where ab: "s = a @ c # b" "c \<notin> set b"
    by (metis split_list_last)
  with assms last_index_app [OF ab(2), of a] have "i = length a" by simp
  with ab that show ?thesis by blast
qed

text \<open>\<open>strings.Split(s, "\n")\<close>; \<open>strings.Join\<close>.\<close>

fun split_on :: "char \<Rightarrow> string \<Rightarrow> string list" where
  "split_on c [] = [[]]"
| "split_on c (x # s) =
     (if x = c then [] # split_on c s
      else case split_on c s of l # ls \<Rightarrow> (x # l) # ls | [] \<Rightarrow> [[x]])"

fun strings_join :: "string list \<Rightarrow> string \<Rightarrow> string" where
  "strings_join [] sep = []"
| "strings_join [s] sep = s"
| "strings_join (s # t # ts) sep = s @ sep @ strings_join (t # ts) sep"

lemma split_on_not_Nil [simp]: "split_on c s \<noteq> []"
  by (induction s) (auto split: list.splits)

lemma join_split: "strings_join (split_on c s) [c] = s"
proof (induction s)
  case (Cons x s)
  obtain l ls where l: "split_on c s = l # ls" by (cases "split_on c s") auto
  with Cons show ?case by (cases ls) auto
qed simp

text \<open>
  \<open>strings.TrimSpace\<close>: the UTF-8 forms of the characters \<open>unicode.IsSpace\<close> accepts, removed from
  both ends. No form is a prefix of another, and bytes that are not valid UTF-8 are no space.
\<close>

definition space_codes :: "string list" where
  "space_codes =
     [[CHR 0x20], [CHR 0x09], [CHR 0x0A], [CHR 0x0B], [CHR 0x0C], [CHR 0x0D],
      [CHR 0xC2, CHR 0x85], [CHR 0xC2, CHR 0xA0], [CHR 0xE1, CHR 0x9A, CHR 0x80]]
     @ map (\<lambda>n. [CHR 0xE2, CHR 0x80, char_of n]) ([128..<139] @ [168, 169, 175 :: nat])
     @ [[CHR 0xE2, CHR 0x81, CHR 0x9F], [CHR 0xE3, CHR 0x80, CHR 0x80]]"

function trim_codes :: "string list \<Rightarrow> string \<Rightarrow> string" where
  "trim_codes ws s =
     (case find (\<lambda>w. w \<noteq> [] \<and> has_prefix s w) ws of
        None \<Rightarrow> s
      | Some w \<Rightarrow> trim_codes ws (drop (length w) s))"
  by pat_completeness auto
termination
proof (relation "measure (\<lambda>(ws, s). length s)")
  fix ws s w assume "find (\<lambda>w. w \<noteq> [] \<and> has_prefix s w) ws = Some w"
  then have "w \<noteq> []" "has_prefix s w" by (auto simp: find_Some_iff)
  then have "0 < length w" "s \<noteq> []" by (auto simp: has_prefix_def)
  then show "((ws, drop (length w) s), ws, s) \<in> measure (\<lambda>(ws, s). length s)" by simp
qed simp

declare trim_codes.simps [simp del]

definition trim_space :: "string \<Rightarrow> string" where
  "trim_space s = rev (trim_codes (map rev space_codes) (rev (trim_codes space_codes s)))"

lemma trim_codes_Nil [simp]: "trim_codes ws [] = []"
proof -
  have "find (\<lambda>w. w \<noteq> [] \<and> has_prefix [] w) ws = None" by (auto simp: find_None_iff has_prefix_def)
  then show ?thesis by (simp add: trim_codes.simps)
qed

lemma trim_space_Nil [simp]: "trim_space [] = []"
  by (simp add: trim_space_def)

text \<open>\<open>strings.ReplaceAll(s, old, new)\<close> for a non-empty \<open>old\<close>, left to right without overlap.\<close>

function replace_all :: "string \<Rightarrow> string \<Rightarrow> string \<Rightarrow> string" where
  "replace_all s old new =
     (if old = [] \<or> s = [] then s
      else if has_prefix s old then new @ replace_all (drop (length old) s) old new
      else hd s # replace_all (tl s) old new)"
  by pat_completeness auto
termination
  by (relation "measure (\<lambda>(s, old, new). length s)") (auto simp: has_prefix_def)

declare replace_all.simps [simp del]

lemma replace_all_Nil [simp]: "replace_all [] old new = []"
  by (simp add: replace_all.simps)

lemma replace_all_absent: "\<not> contains s old \<Longrightarrow> replace_all s old new = s"
proof (induction s)
  case (Cons c s)
  then show ?case by (auto simp: replace_all.simps [of "c # s"])
qed simp

section \<open>Letter case\<close>

definition ascii_lower :: "char \<Rightarrow> char" where
  "ascii_lower c = (let n = (of_char c :: nat) in if 65 \<le> n \<and> n \<le> 90 then char_of (n + 32) else c)"

text \<open>
  \<open>strings.EqualFold(s, t)\<close> compares under Unicode simple case folding. The program
  only calls it with an ASCII \<open>t\<close> (a header name). Beside the ASCII letters, two code
  points fold to an ASCII letter: U+017F (bytes C5 BF) to \<open>s\<close> and U+212A (bytes E2 84
  AA) to \<open>k\<close>. \<open>fold_key\<close> maps a string to its folded form; every other non-ASCII byte
  stays and so differs from any ASCII name.
\<close>

fun fold_key :: "string \<Rightarrow> string" where
  "fold_key [] = []"
| "fold_key (c # s) =
     (if c = CHR 0xC5 \<and> take 1 s = [CHR 0xBF] then CHR ''s'' # fold_key (drop 1 s)
      else if c = CHR 0xE2 \<and> take 2 s = [CHR 0x84, CHR 0xAA] then CHR ''k'' # fold_key (drop 2 s)
      else ascii_lower c # fold_key s)"

definition equal_fold :: "string \<Rightarrow> string \<Rightarrow> bool" where
  "equal_fold s t \<longleftrightarrow> fold_key s = fold_key t"

text \<open>
  \<open>strings.ToLower(s)\<close>, as far as a comparison of the result with an ASCII string can
  tell: beside the ASCII letters, U+212A (E2 84 AA) lowers to \<open>k\<close> and U+0130 (C4 B0)
  lowers to \<open>i\<close>; every other non-ASCII code point lowers to a non-ASCII one.
\<close>

fun to_lower :: "string \<Rightarrow> string" where
  "to_lower [] = []"
| "to_lower (c # s) =
     (if c = CHR 0xC4 \<and> take 1 s = [CHR 0xB0] then CHR ''i'' # to_lower (drop 1 s)
      else if c = CHR 0xE2 \<and> take 2 s = [CHR 0x84, CHR 0xAA] then CHR ''k'' # to_lower (drop 2 s)
      else ascii_lower c # to_lower s)"

lemma equal_fold_refl [simp]: "equal_fold s s"
  by (simp add: equal_fold_def)

lemma equal_fold_sym: "equal_fold s t \<longleftrightarrow> equal_fold t s"
  by (auto simp: equal_fold_def)

section \<open>strconv\<close>

definition digit_char :: "nat \<Rightarrow> char" where
  "digit_char d = char_of (48 + d)"

fun nat_digits :: "nat \<Rightarrow> string" where
  "nat_digits n = (if n < 10 then [digit_char n] else nat_digits (n div 10) @ [digit_char (n mod 10)])"

declare nat_digits.simps [simp del]

definition itoa :: "int \<Rightarrow> string" where
  "itoa n = (if n < 0 then CHR ''-'' # nat_digits (nat (- n)) else nat_digits (nat n))"

definition digit_value :: "char \<Rightarrow> nat option" where
  "digit_value c = (let n = (of_char c :: nat) in if 48 \<le> n \<and> n \<le> 57 then Some (n - 48) else None)"

fun digits_value :: "string \<Rightarrow> nat \<Rightarrow> nat option" where
  "digits_value [] acc = Some acc"
| "digits_value (c # s) acc =
     (case digit_value c of None \<Rightarrow> None | Some d \<Rightarrow> digits_value s (10 * acc + d))"

text \<open>
  \<open>strconv.Atoi\<close>: an optional sign and at least one decimal digit, within 64 bits;
  None is any of its errors.
\<close>

definition atoi :: "string \<Rightarrow> int option" where
  "atoi s =
     (let neg = (take 1 s = ''-'');
          ds = (if neg \<or> take 1 s = ''+'' then drop 1 s else s)
      in if ds = [] then None
         else case digits_value ds 0 of
                None \<Rightarrow> None
              | Some n \<Rightarrow>
                  (let v = (if neg then - int n else int n)
                   in if int64_range v then Some v else None))"

lemma digit_value_digit_char: "d < 10 \<Longrightarrow> digit_value (digit_char d) = Some d"
  by (simp add: digit_value_def digit_char_def)

lemma digits_value_append:
  "digits_value (s @ t) acc = (case digits_value s acc of None \<Rightarrow> None | Some a \<Rightarrow> digits_value t a)"
  by (induction s arbitrary: acc) (auto split: option.splits)

lemma digits_value_nat_digits:
  "\<exists>k. \<forall>acc. digits_value (nat_digits n) acc = Some (acc * 10 ^ k + n)"
proof (induction n rule: nat_digits.induct)
  case (1 n)
  show ?case
  proof (cases "n < 10")
    case True
    then show ?thesis
      by (intro exI [of _ 1]) (simp add: nat_digits.simps [of n] digit_value_digit_char)
  next
    case False
    with 1 obtain k where "\<forall>acc. digits_value (nat_digits (n div 10)) acc = Some (acc * 10 ^ k + n div 10)"
      by blast
    with False show ?thesis
      by (intro exI [of _ "Suc k"])
        (simp add: nat_digits.simps [of n] digits_value_append digit_value_digit_char algebra_simps)
  qed
qed

lemma nat_digits_not_Nil [simp]: "nat_digits n \<noteq> []"
  by (simp add: nat_digits.simps)

lemma digit_char_inj: "d < 10 \<Longrightarrow> digit_char d \<noteq> CHR ''-'' \<and> digit_char d \<noteq> CHR ''+''"
  by (auto simp: digit_value_def dest!: digit_value_digit_char)

lemma hd_nat_digits: "\<exists>d < 10. \<exists>ds. nat_digits n = digit_char d # ds"
proof (induction n rule: nat_digits.induct)
  case (1 n)
  then show ?case
    by (cases "n < 10") (auto simp: nat_digits.simps [of n])
qed

lemma atoi_itoa:
  assumes "int64_range n"
  shows "atoi (itoa n) = Some n"
proof -
  obtain k where k: "\<And>acc m. digits_value (nat_digits m) 0 = Some m"
    using digits_value_nat_digits by (metis add_0 mult_0)
  show ?thesis
  proof (cases "n < 0")
    case True
    with assms show ?thesis
      by (simp add: atoi_def itoa_def k)
  next
    case False
    obtain d ds where d: "d < 10" "nat_digits (nat n) = digit_char d # ds"
      using hd_nat_digits by blast
    with digit_char_inj [OF d(1)] False assms k [of "nat n"] show ?thesis
      by (simp add: atoi_def itoa_def)
  qed
qed

lemma itoa_not_Nil [simp]: "itoa n \<noteq> []"
  by (simp add: itoa_def)

section \<open>unicode/utf8\<close>

text \<open>
  Decoding the first rune of a non-empty byte string, with its width. Malformed input
  is \<open>U+FFFD\<close> of width one, as \<open>range\<close> over a Go string yields it. The bounds on the
  second byte exclude overlong forms, surrogates and code points beyond U+10FFFF.
\<close>

definition is_cont :: "char \<Rightarrow> bool" where
  "is_cont c \<longleftrightarrow> 128 \<le> (of_char c :: nat) \<and> (of_char c :: nat) \<le> 191"

definition second_byte_ok :: "nat \<Rightarrow> nat \<Rightarrow> bool" where
  "second_byte_ok b0 b1 \<longleftrightarrow>
     (if b0 = 224 then 160 \<le> b1 \<and> b1 \<le> 191
      else if b0 = 237 then 128 \<le> b1 \<and> b1 \<le> 159
      else if b0 = 240 then 144 \<le> b1 \<and> b1 \<le> 191
      else if b0 = 244 then 128 \<le> b1 \<and> b1 \<le> 143
      else 128 \<le> b1 \<and> b1 \<le> 191)"

definition decode_rune :: "char \<Rightarrow> string \<Rightarrow> nat \<times> nat" where
  "decode_rune c s =
     (let b0 = (of_char c :: nat);
          b = (\<lambda>i. (of_char (s ! i) :: nat));
          second = (s \<noteq> [] \<and> second_byte_ok b0 (b 0))
      in if b0 < 128 then (b0, 1)
         else if 194 \<le> b0 \<and> b0 \<le> 223 \<and> second
           then ((b0 - 192) * 64 + (b 0 - 128), 2)
         else if 224 \<le> b0 \<and> b0 \<le> 239 \<and> second \<and> 2 \<le> length s \<and> is_cont (s ! 1)
           then (((b0 - 224) * 64 + (b 0 - 128)) * 64 + (b 1 - 128), 3)
         else if 240 \<le> b0 \<and> b0 \<le> 244 \<and> second \<and> 3 \<le> length s \<and> is_cont (s ! 1) \<and> is_cont (s ! 2)
           then ((((b0 - 240) * 64 + (b 0 - 128)) * 64 + (b 1 - 128)) * 64 + (b 2 - 128), 4)
         else (65533, 1))"

text \<open>The runes \<open>for _, r := range s\<close> visits.\<close>

function runes :: "string \<Rightarrow> nat list" where
  "runes [] = []"
| "runes (c # s) = fst (decode_rune c s) # runes (drop (snd (decode_rune c s) - 1) s)"
  by pat_completeness auto
termination
  by (relation "measure length") auto

lemma decode_rune_width: "snd (decode_rune c s) \<in> {1, 2, 3, 4}"
  by (auto simp: decode_rune_def Let_def)

lemma runes_length: "length (runes s) \<le> length s"
proof (induction s rule: runes.induct)
  case (2 c s)
  then show ?case by simp
qed simp

lemma runes_ascii: "list_all (\<lambda>c. (of_char c :: nat) < 128) s \<Longrightarrow> runes s = map of_char s"
  by (induction s) (auto simp: decode_rune_def)

section \<open>regexp: the W3C traceparent grammar\<close>

definition is_lower_hex :: "char \<Rightarrow> bool" where
  "is_lower_hex c \<longleftrightarrow> (let n = (of_char c :: nat) in (48 \<le> n \<and> n \<le> 57) \<or> (97 \<le> n \<and> n \<le> 102))"

text \<open>\<open>[0-9a-f]\{n\}\<close> followed by the rest of the pattern.\<close>

definition hex_run :: "nat \<Rightarrow> string \<Rightarrow> bool" where
  "hex_run n s \<longleftrightarrow> n \<le> length s \<and> list_all is_lower_hex (take n s)"

end
