(* ===== verification/MessageHeaders.thy ===== *)
theory MessageHeaders
  imports GoStd
begin

text \<open>
  What the message headers of both brokers share: the reserved names, the W3C
  traceparent check, the retry counter's text form, the sanitised error reason, and the
  interface of a header carrier (OpenTelemetry's \<open>TextMapCarrier\<close>), which the Kafka
  record headers and the SQS message attributes both implement.
\<close>

definition HeaderTraceParent :: string where "HeaderTraceParent = ''traceparent''"
definition HeaderTraceState :: string where "HeaderTraceState = ''tracestate''"
definition HeaderIdempotencyKey :: string where "HeaderIdempotencyKey = ''x-idempotency-key''"
definition HeaderRetryCount :: string where "HeaderRetryCount = ''x-retry-count''"
definition HeaderErrorReason :: string where "HeaderErrorReason = ''x-error-reason''"

definition maxErrorReasonLen :: nat where "maxErrorReasonLen = 256"

lemmas header_names = HeaderTraceParent_def HeaderTraceState_def HeaderIdempotencyKey_def
  HeaderRetryCount_def HeaderErrorReason_def

lemma fold_key_names [simp]:
  "fold_key HeaderTraceParent = HeaderTraceParent"
  "fold_key HeaderTraceState = HeaderTraceState"
  "fold_key HeaderIdempotencyKey = HeaderIdempotencyKey"
  "fold_key HeaderRetryCount = HeaderRetryCount"
  "fold_key HeaderErrorReason = HeaderErrorReason"
  by (simp_all add: header_names ascii_lower_def)

lemma header_names_distinct [simp]:
  "HeaderRetryCount \<noteq> HeaderIdempotencyKey" "HeaderIdempotencyKey \<noteq> HeaderRetryCount"
  "HeaderRetryCount \<noteq> HeaderErrorReason" "HeaderErrorReason \<noteq> HeaderRetryCount"
  "HeaderErrorReason \<noteq> HeaderIdempotencyKey" "HeaderIdempotencyKey \<noteq> HeaderErrorReason"
  "HeaderTraceParent \<noteq> HeaderRetryCount" "HeaderRetryCount \<noteq> HeaderTraceParent"
  "HeaderTraceParent \<noteq> HeaderErrorReason" "HeaderErrorReason \<noteq> HeaderTraceParent"
  "HeaderTraceParent \<noteq> HeaderIdempotencyKey" "HeaderIdempotencyKey \<noteq> HeaderTraceParent"
  "HeaderTraceState \<noteq> HeaderRetryCount" "HeaderRetryCount \<noteq> HeaderTraceState"
  "HeaderTraceState \<noteq> HeaderErrorReason" "HeaderErrorReason \<noteq> HeaderTraceState"
  "HeaderTraceState \<noteq> HeaderIdempotencyKey" "HeaderIdempotencyKey \<noteq> HeaderTraceState"
  "HeaderTraceState \<noteq> HeaderTraceParent" "HeaderTraceParent \<noteq> HeaderTraceState"
  by (simp_all add: header_names)

text \<open>
  A name of plain ASCII letters other than \<open>s\<close> and \<open>k\<close> is matched by \<open>EqualFold\<close> only in
  spellings that \<open>ToLower\<close> maps to it.
\<close>

lemma fold_key_to_lower:
  assumes "fold_key s = t" "CHR ''s'' \<notin> set t" "CHR ''k'' \<notin> set t" "\<forall>c \<in> set t. (of_char c :: nat) < 128"
  shows "to_lower s = t"
  using assms
proof (induction s arbitrary: t rule: fold_key.induct)
  case (2 c s)
  have "c \<noteq> CHR 0xC5 \<or> take 1 s \<noteq> [CHR 0xBF]" "c \<noteq> CHR 0xE2 \<or> take 2 s \<noteq> [CHR 0x84, CHR 0xAA]"
    using 2 by auto
  with 2 have t: "t = ascii_lower c # fold_key s" by (auto split: if_splits)
  then have "c \<noteq> CHR 0xC4" using "2.prems"(4) by (auto simp: ascii_lower_def)
  moreover have "to_lower s = fold_key s"
    using "2.IH"(3) "2.prems" t \<open>c \<noteq> CHR 0xC5 \<or> _\<close> \<open>c \<noteq> CHR 0xE2 \<or> _\<close> by auto
  ultimately show ?case using t \<open>c \<noteq> CHR 0xE2 \<or> _\<close> by auto
qed simp

lemma equal_fold_retry_count: "equal_fold k HeaderRetryCount \<Longrightarrow> to_lower k = HeaderRetryCount"
  unfolding equal_fold_def by (rule fold_key_to_lower) (auto simp: HeaderRetryCount_def ascii_lower_def)

lemma equal_fold_traceparent: "equal_fold k HeaderTraceParent \<Longrightarrow> to_lower k = HeaderTraceParent"
  unfolding equal_fold_def by (rule fold_key_to_lower) (auto simp: HeaderTraceParent_def ascii_lower_def)

text \<open>
  \<open>x-error-reason\<close> has an \<open>s\<close>: spelt with U+017F it is matched by \<open>EqualFold\<close> but not
  recognised after \<open>ToLower\<close>.
\<close>

definition long_s_error_reason :: string where
  "long_s_error_reason = ''x-error-rea'' @ [CHR 0xC5, CHR 0xBF] @ ''on''"

lemma long_s_error_reason:
  "equal_fold long_s_error_reason HeaderErrorReason" "to_lower long_s_error_reason \<noteq> HeaderErrorReason"
  by (simp_all add: long_s_error_reason_def equal_fold_def HeaderErrorReason_def ascii_lower_def)

text \<open>
  \<open>traceparentRe\<close>: two, thirty-two, sixteen and two lower-case hexadecimal digits,
  separated by hyphens, and nothing else.
\<close>

definition traceparentRe_match :: "string \<Rightarrow> bool" where
  "traceparentRe_match v \<longleftrightarrow>
     length v = 55 \<and> hex_run 2 v \<and> v ! 2 = CHR ''-''
     \<and> hex_run 32 (drop 3 v) \<and> v ! 35 = CHR ''-''
     \<and> hex_run 16 (drop 36 v) \<and> v ! 52 = CHR ''-'' \<and> hex_run 2 (drop 53 v)"

lemma traceparentRe_match_iff:
  "traceparentRe_match v \<longleftrightarrow>
     (\<exists>a b c d. v = a @ ''-'' @ b @ ''-'' @ c @ ''-'' @ d
        \<and> length a = 2 \<and> length b = 32 \<and> length c = 16 \<and> length d = 2
        \<and> list_all is_lower_hex (a @ b @ c @ d))" (is "?l \<longleftrightarrow> ?r")
proof
  assume l: ?l
  let ?a = "take 2 v" and ?b = "take 32 (drop 3 v)" and ?c = "take 16 (drop 36 v)" and ?d = "drop 53 v"
  have len: "length v = 55" using l by (simp add: traceparentRe_match_def)
  have "v = ?a @ drop 2 v" by simp
  also have "drop 2 v = v ! 2 # drop 3 v" using len by (simp add: Cons_nth_drop_Suc [symmetric])
  also have "drop 3 v = ?b @ drop 35 v" using append_take_drop_id [of 32 "drop 3 v"] by simp
  also have "drop 35 v = v ! 35 # drop 36 v" using len by (simp add: Cons_nth_drop_Suc [symmetric])
  also have "drop 36 v = ?c @ drop 52 v" using append_take_drop_id [of 16 "drop 36 v"] by simp
  also have "drop 52 v = v ! 52 # ?d" using len by (simp add: Cons_nth_drop_Suc [symmetric])
  finally have "v = ?a @ ''-'' @ ?b @ ''-'' @ ?c @ ''-'' @ ?d"
    using l by (simp add: traceparentRe_match_def)
  moreover have "list_all is_lower_hex (?a @ ?b @ ?c @ ?d)"
  proof -
    have "take 2 (drop 53 v) = drop 53 v" using len by simp
    then show ?thesis using l by (simp add: traceparentRe_match_def hex_run_def)
  qed
  ultimately show ?r using len by (intro exI conjI) (assumption | simp)+
next
  assume ?r
  then obtain a b c d where "v = a @ ''-'' @ b @ ''-'' @ c @ ''-'' @ d"
    "length a = 2" "length b = 32" "length c = 16" "length d = 2"
    "list_all is_lower_hex (a @ b @ c @ d)" by blast
  then show ?l by (simp add: traceparentRe_match_def hex_run_def nth_append)
qed

text \<open>The count a retry header's text stands for: 0 when empty, malformed or negative.\<close>

definition retry_count_of :: "string \<Rightarrow> int" where
  "retry_count_of v =
     (if v = [] then 0
      else case atoi v of None \<Rightarrow> 0 | Some n \<Rightarrow> if n < 0 then 0 else n)"

lemma atoi_range: "atoi v = Some n \<Longrightarrow> int64_range n"
  by (auto simp: atoi_def Let_def split: if_splits option.splits)

lemma retry_count_of_range: "0 \<le> retry_count_of v" "retry_count_of v < 9223372036854775808"
  using atoi_range [of v] by (auto simp: retry_count_of_def int64_range_def split: option.splits)

lemma retry_count_of_itoa: "int64_range n \<Longrightarrow> 0 \<le> n \<Longrightarrow> retry_count_of (itoa n) = n"
  by (simp add: retry_count_of_def atoi_itoa)

lemma retry_count_of_Nil [simp]: "retry_count_of [] = 0"
  by (simp add: retry_count_of_def)

section \<open>Sanitised error text\<close>

definition sanitize_rune :: "nat \<Rightarrow> char" where
  "sanitize_rune r = (if r > 127 \<or> r < 0x20 then CHR ''?'' else char_of r)"

definition header_safe :: "char \<Rightarrow> bool" where
  "header_safe c \<longleftrightarrow> 0x20 \<le> (of_char c :: nat) \<and> (of_char c :: nat) \<le> 127"

lemma sanitize_rune_safe [simp]: "header_safe (sanitize_rune r)"
  by (auto simp: sanitize_rune_def header_safe_def)

lemma sanitize_rune_id: "header_safe c \<Longrightarrow> sanitize_rune (of_char c) = c"
  by (simp add: sanitize_rune_def header_safe_def)

lemma sanitize_safe_id: "list_all header_safe s \<Longrightarrow> map sanitize_rune (runes s) = s"
proof -
  assume s: "list_all header_safe s"
  then have "list_all (\<lambda>c. (of_char c :: nat) < 128) s"
    by (auto simp: list_all_iff header_safe_def)
  then show ?thesis using s by (simp add: runes_ascii list_all_iff sanitize_rune_id map_idI)
qed

section \<open>Header carriers\<close>

text \<open>
  A carrier reads a header case-insensitively and writes it. \<open>ok c k\<close> says the carrier
  holds no other spelling of \<open>k\<close>; a carrier that writes case-insensitively needs no such
  condition.
\<close>

locale header_carrier =
  fixes get :: "'c \<Rightarrow> string \<Rightarrow> string"
    and set_header :: "'c \<Rightarrow> string \<Rightarrow> string \<Rightarrow> 'c"
    and ok :: "'c \<Rightarrow> string \<Rightarrow> bool"
  assumes get_set: "ok c k \<Longrightarrow> get (set_header c k v) k = v"
    and get_set_other: "\<not> equal_fold k k' \<Longrightarrow> get (set_header c k v) k' = get c k'"
    and ok_set: "ok c k' \<Longrightarrow> (equal_fold k k' \<Longrightarrow> k = k') \<Longrightarrow> ok (set_header c k v) k'"
begin

lemma count_after_set:
  "ok c k \<Longrightarrow> int64_range n \<Longrightarrow> 0 \<le> n \<Longrightarrow> retry_count_of (get (set_header c k (itoa n)) k) = n"
  by (simp add: get_set retry_count_of_itoa)

text \<open>Writing other headers, one after the other, as a propagator does.\<close>

lemma get_fold_other:
  "(\<And>k v. (k, v) \<in> set kvs \<Longrightarrow> \<not> equal_fold k k') \<Longrightarrow>
     get (fold (\<lambda>(k, v) c. set_header c k v) kvs c) k' = get c k'"
proof (induction kvs arbitrary: c)
  case (Cons kv kvs)
  obtain a b where kv: "kv = (a, b)" by (cases kv)
  have "\<And>k v. (k, v) \<in> set kvs \<Longrightarrow> \<not> equal_fold k k'" using Cons.prems by (meson list.set_intros(2))
  then have "get (fold (\<lambda>(k, v) c. set_header c k v) kvs (set_header c a b)) k' = get (set_header c a b) k'"
    by (rule Cons.IH)
  moreover have "\<not> equal_fold a k'" using Cons.prems [of a b] kv by simp
  ultimately show ?case using kv by (simp add: get_set_other)
qed simp

lemma ok_fold:
  "ok c k' \<Longrightarrow> (\<And>k v. (k, v) \<in> set kvs \<Longrightarrow> equal_fold k k' \<Longrightarrow> k = k') \<Longrightarrow>
     ok (fold (\<lambda>(k, v) c. set_header c k v) kvs c) k'"
proof (induction kvs arbitrary: c)
  case (Cons kv kvs)
  obtain a b where kv: "kv = (a, b)" by (cases kv)
  have "ok (set_header c a b) k'" using Cons.prems(1) Cons.prems(2) [of a b] kv by (auto intro: ok_set)
  moreover have "\<And>k v. (k, v) \<in> set kvs \<Longrightarrow> equal_fold k k' \<Longrightarrow> k = k'"
    using Cons.prems(2) by (meson list.set_intros(2))
  ultimately have "ok (fold (\<lambda>(k, v) c. set_header c k v) kvs (set_header c a b)) k'"
    by (rule Cons.IH)
  then show ?case using kv by simp
qed simp

text \<open>Writing a list of different headers: each one is read back.\<close>

lemma get_fold_distinct:
  assumes "distinct (map fst kvs)" "(k, v) \<in> set kvs" "ok c k"
    and "\<And>a b. (a, b) \<in> set kvs \<Longrightarrow> equal_fold a k \<Longrightarrow> a = k"
  shows "get (fold (\<lambda>(k, v) c. set_header c k v) kvs c) k = v"
proof -
  obtain xs ys where kvs: "kvs = xs @ (k, v) # ys" using assms(2) by (meson split_list)
  have k: "k \<notin> fst ` set ys" using assms(1) kvs by auto
  have ys: "\<not> equal_fold a k" if "(a, b) \<in> set ys" for a b
  proof
    assume "equal_fold a k"
    with that assms(4) [of a b] kvs have "a = k" by auto
    with that k show False by force
  qed
  let ?c = "fold (\<lambda>(k, v) c. set_header c k v) xs c"
  have okc: "ok ?c k" by (rule ok_fold [OF assms(3)]) (use assms(4) kvs in auto)
  then have "get (fold (\<lambda>(k, v) c. set_header c k v) ys (set_header ?c k v)) k = v"
    using ys by (simp add: get_fold_other get_set)
  then show ?thesis by (simp add: kvs)
qed

lemma get_fold_map_of:
  assumes "distinct (map fst kvs)" "ok c k" "get c k = []" "\<And>a b. (a, b) \<in> set kvs \<Longrightarrow> equal_fold a k \<Longrightarrow> a = k"
  shows "get (fold (\<lambda>(k, v) c. set_header c k v) kvs c) k = (case map_of kvs k of None \<Rightarrow> [] | Some v \<Rightarrow> v)"
proof (cases "map_of kvs k")
  case None
  then have "\<not> equal_fold a k" if "(a, b) \<in> set kvs" for a b
    using that assms(4) [of a b] by (force simp: map_of_eq_None_iff)
  then show ?thesis using None assms(3) by (simp add: get_fold_other)
next
  case (Some v)
  then show ?thesis using get_fold_distinct [OF assms(1) map_of_SomeD [OF Some] assms(2,4)] by simp
qed

lemma get_set_then_others:
  assumes "ok c k'" "\<And>k v. (k, v) \<in> set kvs \<Longrightarrow> \<not> equal_fold k k'"
  shows "get (fold (\<lambda>(k, v) c. set_header c k v) kvs (set_header c k' x)) k' = x"
  using assms by (simp add: get_fold_other get_set)

end

end
