(* ===== verification/KafkaHeaders.thy ===== *)
theory KafkaHeaders
  imports MessageHeaders
begin

text \<open>
  internal/platform/kafka/headers.go: the header carrier of a Kafka record, idempotency
  key, retry count, and the sanitisation of a record bound for another topic.
\<close>

type_synonym kafka_header = "string \<times> string"

text \<open>
  Keys and payloads are byte sequences: a nil slice and an empty one are not told apart, though
  Kafka stores the former as null and \<open>SanitizeForRepublish\<close> turns the latter into it.
\<close>

record kgo_record =
  Topic :: string
  Key :: string
  Value :: string
  Headers :: "kafka_header list"
  Partition :: int
  Offset :: int

section \<open>recordCarrier\<close>

fun recordCarrier_Get :: "kafka_header list \<Rightarrow> string \<Rightarrow> string" where
  "recordCarrier_Get [] key = []"
| "recordCarrier_Get ((k, v) # hs) key =
     (if equal_fold k key then v else recordCarrier_Get hs key)"

fun recordCarrier_Set :: "kafka_header list \<Rightarrow> string \<Rightarrow> string \<Rightarrow> kafka_header list" where
  "recordCarrier_Set [] key value = [(key, value)]"
| "recordCarrier_Set ((k, v) # hs) key value =
     (if equal_fold k key then (k, value) # hs else (k, v) # recordCarrier_Set hs key value)"

definition recordCarrier_Keys :: "kafka_header list \<Rightarrow> string list" where
  "recordCarrier_Keys hs = map fst hs"

lemma recordCarrier_get_set: "recordCarrier_Get (recordCarrier_Set hs k v) k = v"
  by (induction hs k v rule: recordCarrier_Set.induct) auto

lemma recordCarrier_get_set_other:
  "\<not> equal_fold k k' \<Longrightarrow> recordCarrier_Get (recordCarrier_Set hs k v) k' = recordCarrier_Get hs k'"
  by (induction hs k v rule: recordCarrier_Set.induct) (auto simp: equal_fold_def)

interpretation kafka_carrier: header_carrier recordCarrier_Get recordCarrier_Set "\<lambda>_ _. True"
  by unfold_locales (simp_all add: recordCarrier_get_set recordCarrier_get_set_other)

text \<open>Setting a header adds at most one, and only when no spelling of it was there.\<close>

lemma recordCarrier_Keys_Set:
  "recordCarrier_Keys (recordCarrier_Set hs k v) =
     (if list_ex (\<lambda>k'. equal_fold k' k) (recordCarrier_Keys hs)
      then recordCarrier_Keys hs else recordCarrier_Keys hs @ [k])"
  by (induction hs k v rule: recordCarrier_Set.induct) (auto simp: recordCarrier_Keys_def)

lemma recordCarrier_Set_mem:
  "(a, b) \<in> set (recordCarrier_Set hs k v) \<Longrightarrow> (a, b) \<in> set hs \<or> (equal_fold a k \<and> b = v)"
  by (induction hs k v rule: recordCarrier_Set.induct) (auto split: if_splits)

section \<open>Idempotency key and retry count\<close>

text \<open>\<open>uuid\<close> is the value \<open>uuid.NewString()\<close> would return (google/uuid).\<close>

definition kafka_SetIdempotencyKey :: "string \<Rightarrow> kafka_header list \<Rightarrow> string \<Rightarrow> kafka_header list \<times> string" where
  "kafka_SetIdempotencyKey uuid hs key =
     (let key = (if key = [] then uuid else key)
      in (recordCarrier_Set hs HeaderIdempotencyKey key, key))"

definition kafka_GetIdempotencyKey :: "kafka_header list \<Rightarrow> string" where
  "kafka_GetIdempotencyKey hs = recordCarrier_Get hs HeaderIdempotencyKey"

definition kafka_RetryCount :: "kafka_header list \<Rightarrow> int" where
  "kafka_RetryCount hs = retry_count_of (recordCarrier_Get hs HeaderRetryCount)"

definition kafka_IncRetryCount :: "kafka_header list \<Rightarrow> kafka_header list \<times> int" where
  "kafka_IncRetryCount hs =
     (let n = wrap64 (kafka_RetryCount hs + 1)
      in (recordCarrier_Set hs HeaderRetryCount (itoa n), n))"

lemma kafka_RetryCount_range: "0 \<le> kafka_RetryCount hs" "kafka_RetryCount hs < 9223372036854775808"
  by (simp_all add: kafka_RetryCount_def retry_count_of_range)

lemma kafka_IncRetryCount_count:
  assumes "kafka_RetryCount hs < 2 ^ 63 - 1"
  shows "kafka_RetryCount (fst (kafka_IncRetryCount hs)) = kafka_RetryCount hs + 1"
proof -
  have r: "int64_range (kafka_RetryCount hs + 1)" "0 \<le> kafka_RetryCount hs + 1"
    using assms kafka_RetryCount_range [of hs] by (simp_all add: int64_range_def)
  then show ?thesis
    by (simp add: kafka_IncRetryCount_def Let_def)
      (simp add: kafka_RetryCount_def kafka_carrier.count_after_set)
qed

section \<open>Sanitisation\<close>

definition keep_header :: "kafka_header \<Rightarrow> bool" where
  "keep_header h =
     (let k = to_lower (fst h)
      in if k = HeaderRetryCount \<or> k = HeaderErrorReason then False
         else if k = HeaderTraceParent then traceparentRe_match (snd h)
         else True)"

definition kafka_SanitizeForRepublish :: "kgo_record \<Rightarrow> string \<Rightarrow> kgo_record" where
  "kafka_SanitizeForRepublish src topic =
     \<lparr>Topic = topic, Key = Key src, Value = Value src,
      Headers = filter keep_header (Headers src), Partition = 0, Offset = 0\<rparr>"

definition kafka_SanitizeError :: "go_error option \<Rightarrow> string" where
  "kafka_SanitizeError err =
     (case err of
        None \<Rightarrow> ''unknown''
      | Some e \<Rightarrow>
          (let out = map sanitize_rune (runes (error_text e))
           in if length out > maxErrorReasonLen then take maxErrorReasonLen out else out))"

definition kafka_SetErrorReason :: "kafka_header list \<Rightarrow> go_error option \<Rightarrow> kafka_header list" where
  "kafka_SetErrorReason hs err = recordCarrier_Set hs HeaderErrorReason (kafka_SanitizeError err)"

text \<open>\<open>q\<close> is the quoted text \<open>fmt\<close>'s \<open>%q\<close> prints for \<open>v\<close>.\<close>

definition kafka_AssertValidTraceparent :: "(string \<Rightarrow> string) \<Rightarrow> string \<Rightarrow> go_error option" where
  "kafka_AssertValidTraceparent q v =
     (if v = [] then None
      else if \<not> traceparentRe_match v then Some (WrapError [] (Sentinel KafkaErrInvalidTraceparent) ('': '' @ q v))
      else None)"

section \<open>What sanitisation leaves\<close>

lemma keep_header_retry_count: "keep_header (k, v) \<Longrightarrow> \<not> equal_fold k HeaderRetryCount"
  using equal_fold_retry_count [of k] by (auto simp: keep_header_def Let_def)

lemma keep_header_traceparent:
  "keep_header (k, v) \<Longrightarrow> equal_fold k HeaderTraceParent \<Longrightarrow> traceparentRe_match v"
  using equal_fold_traceparent [of k] by (auto simp: keep_header_def Let_def split: if_splits)

lemma recordCarrier_Get_absent:
  "(\<And>k v. (k, v) \<in> set hs \<Longrightarrow> \<not> equal_fold k n) \<Longrightarrow> recordCarrier_Get hs n = []"
  by (induction hs n rule: recordCarrier_Get.induct) auto

lemma recordCarrier_Get_filter:
  "(\<And>k v. equal_fold k n \<Longrightarrow> P (k, v)) \<Longrightarrow> recordCarrier_Get (filter P hs) n = recordCarrier_Get hs n"
  by (induction hs n rule: recordCarrier_Get.induct) auto

lemma recordCarrier_Get_mem:
  "recordCarrier_Get hs n \<noteq> [] \<Longrightarrow> \<exists>k. (k, recordCarrier_Get hs n) \<in> set hs \<and> equal_fold k n"
  by (induction hs n rule: recordCarrier_Get.induct) (auto split: if_splits)

lemma sanitized_retry_count: "kafka_RetryCount (Headers (kafka_SanitizeForRepublish src topic)) = 0"
proof -
  have "recordCarrier_Get (filter keep_header (Headers src)) HeaderRetryCount = []"
    by (rule recordCarrier_Get_absent) (auto dest: keep_header_retry_count)
  then show ?thesis by (simp add: kafka_RetryCount_def kafka_SanitizeForRepublish_def)
qed

text \<open>The idempotency key is never among the headers sanitisation drops.\<close>

lemma to_lower_fold_key:
  assumes "to_lower s = t" "CHR ''i'' \<notin> set t" "CHR ''k'' \<notin> set t" "\<forall>c \<in> set t. (of_char c :: nat) < 128"
  shows "fold_key s = t"
  using assms
proof (induction s arbitrary: t rule: to_lower.induct)
  case (2 c s)
  have n: "c \<noteq> CHR 0xC4 \<or> take 1 s \<noteq> [CHR 0xB0]" "c \<noteq> CHR 0xE2 \<or> take 2 s \<noteq> [CHR 0x84, CHR 0xAA]"
    using 2 by auto
  with 2 have t: "t = ascii_lower c # to_lower s" by (auto split: if_splits)
  then have "c \<noteq> CHR 0xC5" using "2.prems"(4) by (auto simp: ascii_lower_def)
  moreover have "fold_key s = to_lower s" using "2.IH"(3) "2.prems" t n by auto
  ultimately show ?case using t n by auto
qed simp

lemma keep_header_idempotency: "equal_fold k HeaderIdempotencyKey \<Longrightarrow> keep_header (k, v)"
proof -
  assume k: "equal_fold k HeaderIdempotencyKey"
  have "to_lower k = n \<Longrightarrow> n \<in> {HeaderRetryCount, HeaderErrorReason, HeaderTraceParent} \<Longrightarrow> fold_key k = n" for n
    by (rule to_lower_fold_key) (auto simp: header_names)
  with k show ?thesis
    by (auto simp: keep_header_def Let_def equal_fold_def)
qed

lemma sanitized_idempotency_key:
  "kafka_GetIdempotencyKey (Headers (kafka_SanitizeForRepublish src topic)) = kafka_GetIdempotencyKey (Headers src)"
  by (simp add: kafka_GetIdempotencyKey_def kafka_SanitizeForRepublish_def recordCarrier_Get_filter
      keep_header_idempotency)

lemma sanitized_error_reason: "keep_header (k, v) \<Longrightarrow> to_lower k \<noteq> HeaderErrorReason"
  by (auto simp: keep_header_def Let_def)

text \<open>
  C36: sanitisation strips attacker-controlled counters and malformed trace parents. The copy
  carries the key and payload of the original to the new topic, keeps the order of the
  remaining headers, reads as never retried, keeps the idempotency key, and every spelling
  of \<open>traceparent\<close> left in it has a value of the W3C grammar.
\<close>

theorem kafka_sanitize_spec:
  assumes "d = kafka_SanitizeForRepublish src topic"
  shows "Topic d = topic \<and> Key d = Key src \<and> Value d = Value src
      \<and> Headers d = filter keep_header (Headers src)
      \<and> kafka_RetryCount (Headers d) = 0
      \<and> kafka_GetIdempotencyKey (Headers d) = kafka_GetIdempotencyKey (Headers src)
      \<and> (\<forall>k v. (k, v) \<in> set (Headers d) \<longrightarrow>
            to_lower k \<noteq> HeaderErrorReason \<and> (equal_fold k HeaderTraceParent \<longrightarrow> traceparentRe_match v))"
proof -
  have "Headers d = filter keep_header (Headers src)"
    using assms by (simp add: kafka_SanitizeForRepublish_def)
  then show ?thesis
    using assms sanitized_retry_count sanitized_idempotency_key
    by (auto simp: kafka_SanitizeForRepublish_def dest: sanitized_error_reason intro: keep_header_traceparent)
qed

definition tampered_record :: kgo_record where
  "tampered_record =
     \<lparr>Topic = ''events'', Key = ''k'', Value = ''hi'',
      Headers = [(''X-Retry-Count'', ''999999''), (''TraceParent'', ''junk''), (''x-business'', ''keep'')],
      Partition = 0, Offset = 7\<rparr>"

lemma tampered_kept: "filter keep_header (Headers tampered_record) = [(''x-business'', ''keep'')]"
  by code_simp

theorem kafka_sanitize_spec_witness:
  "Headers (kafka_SanitizeForRepublish tampered_record ''events.retry'') = [(''x-business'', ''keep'')]
   \<and> kafka_RetryCount (Headers (kafka_SanitizeForRepublish tampered_record ''events.retry'')) = 0"
  using kafka_sanitize_spec [OF refl, of tampered_record "''events.retry''"] tampered_kept by argo

lemma sanitize_error_take: "kafka_SanitizeError (Some e) = take 256 (map sanitize_rune (runes (error_text e)))"
  by (simp add: kafka_SanitizeError_def Let_def maxErrorReasonLen_def)

lemma kafka_SanitizeError_clean:
  "list_all header_safe (error_text e) \<Longrightarrow> length (error_text e) \<le> 256 \<Longrightarrow>
     kafka_SanitizeError (Some e) = error_text e"
  by (simp only: sanitize_error_take sanitize_safe_id take_all)

lemma kafka_SanitizeError_safe:
  "length (kafka_SanitizeError err) \<le> 256 \<and> list_all header_safe (kafka_SanitizeError err)"
proof (cases err)
  case None
  then show ?thesis by (simp add: kafka_SanitizeError_def header_safe_def)
next
  case (Some e)
  then show ?thesis by (simp add: sanitize_error_take list_all_iff take_map)
qed

text \<open>
  The error reason written to the dead-letter topic is at most 256 bytes of printable
  ASCII (or DEL) whatever the error says, and an error text that is short and clean already is
  copied as it is.
\<close>

theorem kafka_error_reason_safe:
  "length (kafka_SanitizeError err) \<le> 256 \<and> list_all header_safe (kafka_SanitizeError err)
   \<and> (\<forall>e. err = Some e \<and> list_all header_safe (error_text e) \<and> length (error_text e) \<le> 256
        \<longrightarrow> kafka_SanitizeError err = error_text e)"
  using kafka_SanitizeError_safe [of err] kafka_SanitizeError_clean by auto

theorem kafka_error_reason_safe_witness:
  "kafka_SanitizeError (Some (NewError ''boom'')) = ''boom''
   \<and> length (kafka_SanitizeError (Some (NewError ''boom''))) \<le> 256"
  using kafka_error_reason_safe [of "Some (NewError ''boom'')"] by (simp add: header_safe_def)

end
