(* ===== verification/KafkaProducer.thy ===== *)
theory KafkaProducer
  imports KafkaHeaders
begin

text \<open>
  internal/platform/kafka/producer.go: publish options and \<open>Publish\<close>. The broker client,
  the UUID generator, the trace propagator and the context are the environment: their
  answers are functions of the history of everything done so far.
\<close>

datatype kafka_event =
    Produced kgo_record "go_error option"
  | Slept duration
  | Waited duration "go_error option"
  | Polled
  | Heartbeat
  | Handled kgo_record "go_error option"
  | Committed "kgo_record list" "go_error option"
  | KafkaDone

type_synonym kafka_history = "kafka_event list"

record fetch_error =
  fe_Topic :: string
  fe_Partition :: int
  fe_Err :: go_error

text \<open>
  \<open>ProduceSync\<close>'s first error, a fresh UUID, the header writes of the trace propagator
  (for a span that is a new root or not), the context's error, the outcome of waiting for
  a timer or the context, \<open>PollFetches\<close> and \<open>CommitRecords\<close>.
\<close>

record kafka_env =
  produce :: "kafka_history \<Rightarrow> kgo_record \<Rightarrow> go_error option"
  new_uuid :: "kafka_history \<Rightarrow> string"
  inject :: "kafka_history \<Rightarrow> bool \<Rightarrow> (string \<times> string) list"
  ctx_err :: "kafka_history \<Rightarrow> go_error option"
  wait_timer :: "kafka_history \<Rightarrow> duration \<Rightarrow> go_error option"
  poll :: "kafka_history \<Rightarrow> fetch_error list \<times> kgo_record list"
  commit_records :: "kafka_history \<Rightarrow> kgo_record list \<Rightarrow> go_error option"

datatype kafka_PublishOpt =
    KafkaWithIdempotencyKey string
  | KafkaWithHeader string string
  | KafkaForceSample

record kafka_publishConfig =
  kp_idempotencyKey :: string
  kp_extraHeaders :: "kafka_header list"
  kp_forceSample :: bool

fun kafka_apply_opt :: "kafka_PublishOpt \<Rightarrow> kafka_publishConfig \<Rightarrow> kafka_publishConfig" where
  "kafka_apply_opt (KafkaWithIdempotencyKey k) c = c\<lparr>kp_idempotencyKey := k\<rparr>"
| "kafka_apply_opt (KafkaWithHeader k v) c = c\<lparr>kp_extraHeaders := kp_extraHeaders c @ [(k, v)]\<rparr>"
| "kafka_apply_opt KafkaForceSample c = c\<lparr>kp_forceSample := True\<rparr>"

definition kafka_InjectTraceHeaders :: "(string \<times> string) list \<Rightarrow> kafka_header list \<Rightarrow> kafka_header list" where
  "kafka_InjectTraceHeaders kvs hs = fold (\<lambda>(k, v) hs. recordCarrier_Set hs k v) kvs hs"

text \<open>The record \<open>Publish\<close> hands to the client, and \<open>Publish\<close> itself.\<close>

definition kafka_publish_record ::
  "kafka_env \<Rightarrow> kafka_history \<Rightarrow> string \<Rightarrow> string \<Rightarrow> string \<Rightarrow> kafka_PublishOpt list \<Rightarrow> kgo_record" where
  "kafka_publish_record env h topic key value opts =
     (let cfg = fold kafka_apply_opt opts \<lparr>kp_idempotencyKey = [], kp_extraHeaders = [], kp_forceSample = False\<rparr>;
          hs = fst (kafka_SetIdempotencyKey (new_uuid env h) (kp_extraHeaders cfg) (kp_idempotencyKey cfg));
          hs = kafka_InjectTraceHeaders (inject env h (kp_forceSample cfg)) hs
      in \<lparr>Topic = topic, Key = key, Value = value, Headers = hs, Partition = 0, Offset = 0\<rparr>)"

definition kafka_Publish ::
  "kafka_env \<Rightarrow> kafka_history \<Rightarrow> string \<Rightarrow> string \<Rightarrow> string \<Rightarrow> kafka_PublishOpt list
     \<Rightarrow> go_error option \<times> kafka_history" where
  "kafka_Publish env h topic key value opts =
     (let rec = kafka_publish_record env h topic key value opts;
          err = produce env h rec
      in (map_option (\<lambda>e. WrapError (''kafka publish '' @ topic @ '': '') e []) err,
          h @ [Produced rec err]))"

section \<open>What the options amount to\<close>

lemma kafka_opts_headers:
  "kp_extraHeaders (fold kafka_apply_opt opts c) =
     kp_extraHeaders c @ concat (map (\<lambda>opt. case opt of KafkaWithHeader k v \<Rightarrow> [(k, v)] | _ \<Rightarrow> []) opts)"
proof (induction opts arbitrary: c)
  case (Cons a opts)
  then show ?case by (cases a) auto
qed simp

lemma kafka_opts_key:
  "kp_idempotencyKey (fold kafka_apply_opt (map (\<lambda>(k, v). KafkaWithHeader k v) hs) c) = kp_idempotencyKey c"
proof (induction hs arbitrary: c)
  case (Cons a hs)
  then show ?case by (cases a) auto
qed simp

lemma kafka_publish_record_simps [simp]:
  "Topic (kafka_publish_record env h topic key value opts) = topic"
  "Key (kafka_publish_record env h topic key value opts) = key"
  "Value (kafka_publish_record env h topic key value opts) = value"
  by (simp_all add: kafka_publish_record_def Let_def)

text \<open>
  The propagator writes only trace and baggage headers (W3C TraceContext and Baggage);
  \<open>trace_writes\<close> says it leaves the platform's own headers alone.
\<close>

definition trace_writes :: "kafka_env \<Rightarrow> bool" where
  "trace_writes env \<longleftrightarrow>
     (\<forall>h b k v. (k, v) \<in> set (inject env h b) \<longrightarrow>
        \<not> equal_fold k HeaderRetryCount \<and> \<not> equal_fold k HeaderIdempotencyKey
        \<and> \<not> equal_fold k HeaderErrorReason)"

lemma kafka_InjectTraceHeaders_get:
  assumes "trace_writes env" "n \<in> {HeaderRetryCount, HeaderIdempotencyKey, HeaderErrorReason}"
  shows "recordCarrier_Get (kafka_InjectTraceHeaders (inject env h b) hs) n = recordCarrier_Get hs n"
  unfolding kafka_InjectTraceHeaders_def
  by (rule kafka_carrier.get_fold_other) (use assms in \<open>auto simp: trace_writes_def\<close>)

lemma publish_retry_count:
  assumes "trace_writes env"
  shows "kafka_RetryCount (Headers (kafka_publish_record env h topic key value opts)) =
    kafka_RetryCount (concat (map (\<lambda>opt. case opt of KafkaWithHeader k v \<Rightarrow> [(k, v)] | _ \<Rightarrow> []) opts))"
  using assms
  by (simp add: kafka_publish_record_def Let_def kafka_RetryCount_def kafka_InjectTraceHeaders_get
      kafka_SetIdempotencyKey_def recordCarrier_get_set_other kafka_opts_headers equal_fold_def)

lemma publish_idempotency_key:
  assumes "trace_writes env"
    and "kp_idempotencyKey (fold kafka_apply_opt opts \<lparr>kp_idempotencyKey = [], kp_extraHeaders = [], kp_forceSample = False\<rparr>) = k"
  shows "kafka_GetIdempotencyKey (Headers (kafka_publish_record env h topic key value opts)) =
    (if k = [] then new_uuid env h else k)"
  using assms
  by (simp add: kafka_publish_record_def Let_def kafka_GetIdempotencyKey_def kafka_InjectTraceHeaders_get
      kafka_SetIdempotencyKey_def recordCarrier_get_set)

end
