(* ===== verification/RetryPolicy.thy ===== *)
theory RetryPolicy
  imports GoStd
begin

text \<open>
  The retry policy both brokers share: the routing decision after a handler returns
  (internal/platform/kafka/route.go, internal/platform/sqs/routing.go) and the
  exponential delay before a retry (\<open>backoffDelay\<close> of kafka/consumer.go and
  sqs/backoff.go).
\<close>

section \<open>Routing\<close>

datatype kafka_Route = KafkaRouteCommit | KafkaRouteRetry | KafkaRouteDLQ | KafkaRouteDrop

fun kafka_decideRoute :: "go_error option \<Rightarrow> int \<Rightarrow> int \<Rightarrow> kafka_Route" where
  "kafka_decideRoute None retryCount maxRetries = KafkaRouteCommit"
| "kafka_decideRoute (Some err) retryCount maxRetries =
     (if errors_is err ContextCanceled then KafkaRouteDrop
      else if errors_is err KafkaErrNonRetryable \<or> retryCount \<ge> maxRetries then KafkaRouteDLQ
      else KafkaRouteRetry)"

datatype sqs_Route = SqsRouteCommit | SqsRouteDrop | SqsRouteRetry | SqsRouteDLQ

fun sqs_decideRoute :: "go_error option \<Rightarrow> int \<Rightarrow> int \<Rightarrow> sqs_Route" where
  "sqs_decideRoute None retryCount maxRetries = SqsRouteCommit"
| "sqs_decideRoute (Some err) retryCount maxRetries =
     (if errors_is err ContextCanceled then SqsRouteDrop
      else if errors_is err SqsErrNonRetryable then SqsRouteDLQ
      else if retryCount \<ge> maxRetries then SqsRouteDLQ
      else SqsRouteRetry)"

text \<open>
  What a consumer relies on when it acts on a route: the four outcomes are different and
  each one has exactly the cause the handler contract names.
\<close>

locale retry_router =
  fixes decide :: "go_error option \<Rightarrow> int \<Rightarrow> int \<Rightarrow> 'r"
    and commit :: 'r and retry :: 'r and dlq :: 'r and drop_route :: 'r
    and nonretryable :: sentinel
  assumes routes_distinct: "distinct [commit, retry, dlq, drop_route]"
    and decide_ok: "decide None n m = commit"
    and decide_cancelled: "errors_is e ContextCanceled \<Longrightarrow> decide (Some e) n m = drop_route"
    and decide_permanent:
      "\<not> errors_is e ContextCanceled \<Longrightarrow> errors_is e nonretryable \<Longrightarrow> decide (Some e) n m = dlq"
    and decide_exhausted:
      "\<not> errors_is e ContextCanceled \<Longrightarrow> m \<le> n \<Longrightarrow> decide (Some e) n m = dlq"
    and decide_transient:
      "\<not> errors_is e ContextCanceled \<Longrightarrow> \<not> errors_is e nonretryable \<Longrightarrow> n < m \<Longrightarrow>
         decide (Some e) n m = retry"
begin

lemma commit_iff: "decide err n m = commit \<longleftrightarrow> err = None"
proof (cases err)
  case None
  then show ?thesis by (simp add: decide_ok)
next
  case (Some e)
  then show ?thesis
    using routes_distinct decide_cancelled [of e n m] decide_permanent [of e n m]
      decide_exhausted [of e m n] decide_transient [of e n m]
    by (cases "errors_is e ContextCanceled"; cases "errors_is e nonretryable"; cases "n < m") auto
qed

lemma drop_iff: "decide err n m = drop_route \<longleftrightarrow> (\<exists>e. err = Some e \<and> errors_is e ContextCanceled)"
proof (cases err)
  case None
  then show ?thesis using routes_distinct by (simp add: decide_ok)
next
  case (Some e)
  then show ?thesis
    using routes_distinct decide_cancelled [of e n m] decide_permanent [of e n m]
      decide_exhausted [of e m n] decide_transient [of e n m]
    by (cases "errors_is e ContextCanceled"; cases "errors_is e nonretryable"; cases "n < m") auto
qed

lemma dlq_iff:
  "decide err n m = dlq \<longleftrightarrow>
     (\<exists>e. err = Some e \<and> \<not> errors_is e ContextCanceled \<and> (errors_is e nonretryable \<or> m \<le> n))"
proof (cases err)
  case None
  then show ?thesis using routes_distinct by (simp add: decide_ok)
next
  case (Some e)
  then show ?thesis
    using routes_distinct decide_cancelled [of e n m] decide_permanent [of e n m]
      decide_exhausted [of e m n] decide_transient [of e n m]
    by (cases "errors_is e ContextCanceled"; cases "errors_is e nonretryable"; cases "n < m") auto
qed

lemma retry_iff:
  "decide err n m = retry \<longleftrightarrow>
     (\<exists>e. err = Some e \<and> \<not> errors_is e ContextCanceled \<and> \<not> errors_is e nonretryable \<and> n < m)"
proof (cases err)
  case None
  then show ?thesis using routes_distinct by (simp add: decide_ok)
next
  case (Some e)
  then show ?thesis
    using routes_distinct decide_cancelled [of e n m] decide_permanent [of e n m]
      decide_exhausted [of e m n] decide_transient [of e n m]
    by (cases "errors_is e ContextCanceled"; cases "errors_is e nonretryable"; cases "n < m") auto
qed

text \<open>
  The retry budget: if the count really went up by one per delivery, a message whose
  handler always fails transiently would be retried exactly \<open>m\<close> times.
\<close>

lemma budget:
  assumes "\<not> errors_is e ContextCanceled" "\<not> errors_is e nonretryable" "0 \<le> m"
  shows "map (\<lambda>k. decide (Some e) (int k) m) [0..<Suc (nat m)] = replicate (nat m) retry @ [dlq]"
proof -
  have "map (\<lambda>k. decide (Some e) (int k) m) [0..<nat m] = replicate (nat m) retry"
    using assms decide_transient by (intro nth_equalityI) auto
  moreover have "decide (Some e) (int (nat m)) m = dlq"
    using assms decide_exhausted by simp
  ultimately show ?thesis by simp
qed

lemma dlq_mono: "decide err n m = dlq \<Longrightarrow> n \<le> n' \<Longrightarrow> decide err n' m = dlq"
  by (auto simp: dlq_iff)

end

interpretation kafka_router: retry_router kafka_decideRoute
  KafkaRouteCommit KafkaRouteRetry KafkaRouteDLQ KafkaRouteDrop KafkaErrNonRetryable
  by unfold_locales auto

interpretation sqs_router: retry_router sqs_decideRoute
  SqsRouteCommit SqsRouteRetry SqsRouteDLQ SqsRouteDrop SqsErrNonRetryable
  by unfold_locales auto

section \<open>Backoff\<close>

definition kafka_backoffDelay :: "duration \<Rightarrow> duration \<Rightarrow> int \<Rightarrow> duration" where
  "kafka_backoffDelay base mx n =
     (let n = (if n < 0 then 0 else n);
          d = wrap64 (base * 2 ^ nat (min n 16))
      in if d \<le> 0 \<or> d > mx then mx else d)"

definition SQSMaxDelay :: duration where
  "SQSMaxDelay = 900 * second"

definition sqs_backoffDelay :: "duration \<Rightarrow> duration \<Rightarrow> int \<Rightarrow> duration" where
  "sqs_backoffDelay base mx n =
     (let n = (if n < 0 then 0 else n);
          mx = (if mx > SQSMaxDelay then SQSMaxDelay else mx);
          shift = (if n > 16 then 16 else n);
          d = wrap64 (base * 2 ^ nat shift)
      in if d \<le> 0 \<or> d > mx then mx else d)"

lemma backoff_le_max: "kafka_backoffDelay base mx n \<le> mx"
  by (simp add: kafka_backoffDelay_def Let_def)

lemma sqs_backoff_eq: "sqs_backoffDelay base mx n = kafka_backoffDelay base (min mx SQSMaxDelay) n"
proof -
  have "nat (if 16 < k then 16 else k) = nat (min k 16)" for k :: int by auto
  moreover have "(if SQSMaxDelay < mx then SQSMaxDelay else mx) = min mx SQSMaxDelay" by auto
  ultimately show ?thesis
    unfolding kafka_backoffDelay_def sqs_backoffDelay_def Let_def by presburger
qed

text \<open>Below \<open>2\<^sup>4\<^sup>7\<close> nanoseconds (about 39 hours) the product fits and the delay is the formula.\<close>

lemma shifted_range:
  assumes "0 < base" "base < 2 ^ 47" "k \<le> 16"
  shows "int64_range (base * 2 ^ k)" "0 < base * 2 ^ k" "base \<le> base * 2 ^ k"
proof -
  have p: "(2::int) ^ k \<le> 2 ^ 16" using assms(3) by (intro power_increasing) auto
  have "base * 2 ^ k \<le> base * 2 ^ 16" using assms(1) p by simp
  also have "\<dots> < 2 ^ 47 * 2 ^ 16" using assms(2) by simp
  finally have lt: "base * 2 ^ k < 2 ^ 63" by simp
  show pos: "0 < base * 2 ^ k" using assms(1) by simp
  with lt show "int64_range (base * 2 ^ k)" by (simp add: int64_range_def)
  show "base \<le> base * 2 ^ k" using assms(1) by simp
qed

lemma backoff_exact:
  assumes "0 < base" "base < 2 ^ 47"
  shows "kafka_backoffDelay base mx n = min (base * 2 ^ nat (min n 16)) mx"
proof -
  have k: "nat (min (if n < 0 then 0 else n) 16) = nat (min n 16)" by auto
  have "nat (min n 16) \<le> 16" by auto
  note shifted_range [OF assms this]
  then show ?thesis
    unfolding kafka_backoffDelay_def Let_def k by auto
qed

lemma backoff_mono:
  assumes "0 < base" "base < 2 ^ 47" "n \<le> n'"
  shows "kafka_backoffDelay base mx n \<le> kafka_backoffDelay base mx n'"
proof -
  have "(2::int) ^ nat (min n 16) \<le> 2 ^ nat (min n' 16)"
    using assms(3) by (intro power_increasing) auto
  then have "base * 2 ^ nat (min n 16) \<le> base * 2 ^ nat (min n' 16)"
    using assms(1) by simp
  then have "min (base * 2 ^ nat (min n 16)) mx \<le> min (base * 2 ^ nat (min n' 16)) mx"
    by (rule min.mono) simp
  then show ?thesis using assms by (simp only: backoff_exact)
qed

text \<open>
  The delay of the SQS retry path is the Kafka formula under the SQS ceiling, never
  more than the configured maximum or 900 seconds, at least the base delay when that fits
  under the ceiling, and it never shrinks as the retry count grows.
\<close>

theorem sqs_backoff_spec:
  assumes "0 < base" "base < 2 ^ 47" "base \<le> mx" "base \<le> SQSMaxDelay" "n \<le> n'"
  shows "sqs_backoffDelay base mx n = min (base * 2 ^ nat (min n 16)) (min mx SQSMaxDelay)
    \<and> base \<le> sqs_backoffDelay base mx n
    \<and> sqs_backoffDelay base mx n \<le> min mx SQSMaxDelay
    \<and> sqs_backoffDelay base mx n \<le> sqs_backoffDelay base mx n'"
proof -
  have k: "nat (min n 16) \<le> 16" by auto
  have "sqs_backoffDelay base mx n \<le> sqs_backoffDelay base mx n'"
    using backoff_mono [OF assms(1,2,5)] by (simp add: sqs_backoff_eq)
  moreover have "sqs_backoffDelay base mx n \<le> min mx SQSMaxDelay"
    unfolding sqs_backoff_eq by (rule backoff_le_max)
  ultimately show ?thesis
    using assms shifted_range(3) [OF assms(1,2) k]
      backoff_exact [OF assms(1,2), of "min mx SQSMaxDelay" n]
    by (simp add: sqs_backoff_eq min_def)
qed

theorem sqs_backoff_spec_witness:
  "sqs_backoffDelay (5 * second) (600 * second) 2 = 20 * second \<and>
   sqs_backoffDelay (5 * second) (600 * second) 2 \<le> sqs_backoffDelay (5 * second) (600 * second) 9"
  using sqs_backoff_spec [of "5 * second" "600 * second" 2 9]
  by (simp add: time_units SQSMaxDelay_def)

text \<open>
  Beyond that the multiplication wraps: capping the shift does not prevent the overflow,
  and the delay can come out far below the base the comment promises as a lower bound.
\<close>

lemma backoff_overflow:
  "kafka_backoffDelay (2 ^ 48 + 1) (2 ^ 60) 16 = 65536"
  by (simp add: kafka_backoffDelay_def wrap64_def)

end
