(* ===== verification/Config.thy ===== *)
theory Config
  imports GoStd
begin

text \<open>
  internal/platform/config/config.go: the configuration tree, the translation of
  environment variable names, and the boot-time validation. Loading YAML and decoding
  into the structs is koanf (third party) and stays outside.
\<close>

record ServerConfig =
  srv_Port :: int
  srv_Mode :: string
  srv_ShutdownTimeout :: duration
  srv_ReadHeaderTimeout :: duration
  srv_ReadTimeout :: duration
  srv_WriteTimeout :: duration
  srv_IdleTimeout :: duration
  srv_MaxHeaderBytes :: int
  srv_BodyLimitBytes :: int
  srv_HandlerTimeout :: duration
  srv_TrustedProxies :: "string list"

record MongoConfig =
  mongo_URI :: string
  mongo_Database :: string

record KafkaConsumerConfig =
  kc_MaxRetries :: int
  kc_RetrySuffix :: string
  kc_DLQSuffix :: string
  kc_RetryBackoffBase :: duration
  kc_RetryBackoffMax :: duration
  kc_DLQMaxPayloadBytes :: int

record KafkaConfig =
  kafka_Brokers :: "string list"
  kafka_GroupID :: string
  kafka_Topic :: string
  kafka_Consumer :: KafkaConsumerConfig

record SQSConsumerConfig =
  sc_QueueURL :: string
  sc_MaxRetries :: int
  sc_RetrySuffix :: string
  sc_DLQSuffix :: string
  sc_VisibilityTimeoutSeconds :: int
  sc_WaitTimeSeconds :: int
  sc_MaxMessages :: int
  sc_RetryBackoffBase :: duration
  sc_RetryBackoffMax :: duration
  sc_DLQMaxPayloadBytes :: int

record SQSConfig =
  sqs_Region :: string
  sqs_Endpoint :: string
  sqs_Consumer :: SQSConsumerConfig

record RedisConfig =
  redis_Addr :: string

record LoggerConfig =
  log_Level :: string
  log_Format :: string

text \<open>\<open>SampleRatio\<close> is a float64 the program only passes on; it is kept as a rational.\<close>

record ObservabilityConfig =
  obs_Enabled :: bool
  obs_Endpoint :: string
  obs_Insecure :: bool
  obs_IngestionKey :: string
  obs_ServiceName :: string
  obs_Environment :: string
  obs_SampleRatio :: rat
  obs_PublicFacing :: bool

record CORSConfig =
  cors_AllowedOrigins :: "string list"
  cors_AllowedMethods :: "string list"
  cors_AllowedHeaders :: "string list"
  cors_AllowCredentials :: bool
  cors_MaxAgeSeconds :: int

record WorkerConfig =
  wrk_ShutdownTimeout :: duration
  wrk_HealthPort :: int

text \<open>Rates are float64 in the code, only compared with 0 and handed to the limiter library.\<close>

record RateBucket =
  rb_RPS :: rat
  rb_Burst :: int

record RateLimitConfig =
  rl_PerIP :: RateBucket
  rl_Global :: RateBucket
  rl_MapMaxEntries :: int
  rl_MapTTL :: duration

record HTTPClientConfig =
  hc_Timeout :: duration
  hc_MaxIdleConns :: int
  hc_MaxRedirects :: int

record Config =
  cfg_Server :: ServerConfig
  cfg_Mongo :: MongoConfig
  cfg_Kafka :: KafkaConfig
  cfg_SQS :: SQSConfig
  cfg_Redis :: RedisConfig
  cfg_Logger :: LoggerConfig
  cfg_Observability :: ObservabilityConfig
  cfg_CORS :: CORSConfig
  cfg_Worker :: WorkerConfig
  cfg_RateLimit :: RateLimitConfig
  cfg_HTTPClient :: HTTPClientConfig

text \<open>
  \<open>ObservabilityConfig.LogValue\<close>: the group of attributes a log line shows. Attribute
  values are kept as text or flag, whichever the code uses.
\<close>

datatype slog_value = SlogString string | SlogBool bool | SlogFloat rat

definition ObservabilityConfig_LogValue :: "ObservabilityConfig \<Rightarrow> (string \<times> slog_value) list" where
  "ObservabilityConfig_LogValue c =
     (let masked = (if obs_IngestionKey c \<noteq> [] then ''***'' else [])
      in [(''enabled'', SlogBool (obs_Enabled c)),
          (''endpoint'', SlogString (obs_Endpoint c)),
          (''insecure'', SlogBool (obs_Insecure c)),
          (''ingestion_key'', SlogString masked),
          (''service_name'', SlogString (obs_ServiceName c)),
          (''environment'', SlogString (obs_Environment c)),
          (''sample_ratio'', SlogFloat (obs_SampleRatio c)),
          (''public_facing'', SlogBool (obs_PublicFacing c))])"

text \<open>
  The environment overlay: \<open>APP_SERVER__PORT\<close> becomes \<open>server.port\<close>. Names of environment
  variables are taken to be ASCII, the only ones \<open>to_lower\<close> is exact for.
\<close>

definition env_TransformFunc :: "string \<Rightarrow> string \<Rightarrow> string \<times> string" where
  "env_TransformFunc key value =
     (replace_all (to_lower (trim_prefix key ''APP_'')) ''__'' ''.'', value)"

text \<open>\<open>Config.Validate\<close>; None is success.\<close>

definition Config_Validate :: "Config \<Rightarrow> go_error option" where
  "Config_Validate c =
     (let key = trim_space (obs_IngestionKey (cfg_Observability c))
      in if obs_Enabled (cfg_Observability c) \<and> \<not> obs_Insecure (cfg_Observability c)
            \<and> (key = [] \<or> key = ''changeme'' \<or> has_prefix key ''<'')
         then Some (NewError ''observability: ingestion_key required when insecure=false'')
         else if cors_AllowCredentials (cfg_CORS c) \<and> list_ex (\<lambda>orig. orig = ''*'') (cors_AllowedOrigins (cfg_CORS c))
         then Some (NewError (''cors: allow_credentials=true incompatible with origin '' @ [CHR 0x27, CHR ''*'', CHR 0x27]))
         else None)"

text \<open>
  \<open>Load\<close>: \<open>file\<close> and \<open>environ\<close> are koanf's reading of the YAML file and of the
  environment, \<open>decode\<close> its unmarshalling of the overlay into the struct.
\<close>

definition Config_Load ::
  "(string \<Rightarrow> go_error + 'k) \<Rightarrow> ((string \<Rightarrow> string \<Rightarrow> string \<times> string) \<Rightarrow> 'k \<Rightarrow> go_error + 'k)
     \<Rightarrow> ('k \<Rightarrow> go_error + Config) \<Rightarrow> string \<Rightarrow> go_error + Config" where
  "Config_Load file environ decode path =
     (case file path of Inl e \<Rightarrow> Inl e
      | Inr k \<Rightarrow> (case environ env_TransformFunc k of Inl e \<Rightarrow> Inl e
        | Inr k \<Rightarrow> (case decode k of Inl e \<Rightarrow> Inl e
          | Inr c \<Rightarrow> (case Config_Validate c of Some e \<Rightarrow> Inl e | None \<Rightarrow> Inr c))))"

lemma Config_Load_valid:
  "Config_Load file environ decode path = Inr c \<Longrightarrow> Config_Validate c = None"
  by (auto simp: Config_Load_def split: sum.splits option.splits)

lemma Validate_key:
  assumes "Config_Validate c = None" "obs_Enabled (cfg_Observability c)" "\<not> obs_Insecure (cfg_Observability c)"
  shows "obs_IngestionKey (cfg_Observability c) \<noteq> []"
  using assms by (auto simp: Config_Validate_def Let_def split: if_splits)

lemma Validate_cors:
  assumes "Config_Validate c = None" "cors_AllowCredentials (cfg_CORS c)"
  shows "''*'' \<notin> set (cors_AllowedOrigins (cfg_CORS c))"
  using assms by (auto simp: Config_Validate_def Let_def list_ex_iff split: if_splits)

section \<open>A concrete configuration\<close>

definition sample_config :: Config where
  "sample_config =
     \<lparr>cfg_Server = \<lparr>srv_Port = 8080, srv_Mode = [], srv_ShutdownTimeout = 0, srv_ReadHeaderTimeout = 0, srv_ReadTimeout = 0,
        srv_WriteTimeout = 0, srv_IdleTimeout = 0, srv_MaxHeaderBytes = 0, srv_BodyLimitBytes = 1024,
        srv_HandlerTimeout = second, srv_TrustedProxies = []\<rparr>,
      cfg_Mongo = \<lparr>mongo_URI = [], mongo_Database = []\<rparr>,
      cfg_Kafka = \<lparr>kafka_Brokers = [], kafka_GroupID = [], kafka_Topic = [],
        kafka_Consumer = \<lparr>kc_MaxRetries = 0, kc_RetrySuffix = [], kc_DLQSuffix = [], kc_RetryBackoffBase = 0,
          kc_RetryBackoffMax = 0, kc_DLQMaxPayloadBytes = 0\<rparr>\<rparr>,
      cfg_SQS = \<lparr>sqs_Region = [], sqs_Endpoint = [],
        sqs_Consumer = \<lparr>sc_QueueURL = [], sc_MaxRetries = 0, sc_RetrySuffix = [], sc_DLQSuffix = [],
          sc_VisibilityTimeoutSeconds = 0, sc_WaitTimeSeconds = 0, sc_MaxMessages = 0, sc_RetryBackoffBase = 0,
          sc_RetryBackoffMax = 0, sc_DLQMaxPayloadBytes = 0\<rparr>\<rparr>,
      cfg_Redis = \<lparr>redis_Addr = []\<rparr>, cfg_Logger = \<lparr>log_Level = [], log_Format = []\<rparr>,
      cfg_Observability = \<lparr>obs_Enabled = False, obs_Endpoint = [], obs_Insecure = True, obs_IngestionKey = [],
        obs_ServiceName = [], obs_Environment = [], obs_SampleRatio = 1, obs_PublicFacing = False\<rparr>,
      cfg_CORS = \<lparr>cors_AllowedOrigins = [''https://a''], cors_AllowedMethods = [''GET''], cors_AllowedHeaders = [],
        cors_AllowCredentials = True, cors_MaxAgeSeconds = 600\<rparr>,
      cfg_Worker = \<lparr>wrk_ShutdownTimeout = 0, wrk_HealthPort = 0\<rparr>,
      cfg_RateLimit = \<lparr>rl_PerIP = \<lparr>rb_RPS = 1, rb_Burst = 1\<rparr>, rl_Global = \<lparr>rb_RPS = 0, rb_Burst = 0\<rparr>,
        rl_MapMaxEntries = 0, rl_MapTTL = 0\<rparr>,
      cfg_HTTPClient = \<lparr>hc_Timeout = 0, hc_MaxIdleConns = 0, hc_MaxRedirects = 0\<rparr>\<rparr>"

end
