(* ===== verification/KafkaConsumer.thy ===== *)
theory KafkaConsumer
  imports KafkaProducer RetryPolicy Config
begin

text \<open>
  internal/platform/kafka/consumer.go: the consumer loop with its commit, retry and
  dead-letter handling, the republish with bounded attempts, and the retry consumer that
  moves records back to their topic.
\<close>

section \<open>Definitions\<close>

definition destTopic :: "string \<Rightarrow> KafkaConsumerConfig \<Rightarrow> bool \<Rightarrow> string" where
  "destTopic origin cfg toDLQ =
     (let base = trim_suffix origin (kc_RetrySuffix cfg)
      in if toDLQ then base @ kc_DLQSuffix cfg else base @ kc_RetrySuffix cfg)"

text \<open>The options both republish paths build from a sanitised record's headers.\<close>

definition kafka_forward_opts :: "kafka_header list \<Rightarrow> kafka_PublishOpt list" where
  "kafka_forward_opts hs =
     (let k = kafka_GetIdempotencyKey hs in if k \<noteq> [] then [KafkaWithIdempotencyKey k] else [])
     @ map (\<lambda>(k, v). KafkaWithHeader k v)
         (filter (\<lambda>(k, v). \<not> (k = HeaderIdempotencyKey \<or> k = HeaderTraceParent \<or> k = HeaderTraceState)) hs)"

text \<open>The sanitised record \<open>republish\<close> publishes.\<close>

definition kafka_republish_record ::
  "kgo_record \<Rightarrow> string \<Rightarrow> go_error option \<Rightarrow> KafkaConsumerConfig \<Rightarrow> bool \<Rightarrow> kgo_record" where
  "kafka_republish_record src dest handlerErr cfg toDLQ =
     (let s = kafka_SanitizeForRepublish src dest
      in if toDLQ then
           s\<lparr>Value := (if int (length (Value s)) > kc_DLQMaxPayloadBytes cfg
                      then take (nat (kc_DLQMaxPayloadBytes cfg)) (Value s) else Value s),
             Headers := kafka_SetErrorReason (Headers s) handlerErr\<rparr>
         else s\<lparr>Headers := fst (kafka_IncRetryCount (Headers s))\<rparr>)"

definition kafka_republish_backoff :: "duration list" where
  "kafka_republish_backoff = [100 * millisecond, 500 * millisecond, second]"

text \<open>One attempt per entry of the backoff list; a cancelled context ends the attempts.\<close>

fun kafka_publish_attempts ::
  "kafka_env \<Rightarrow> string \<Rightarrow> string \<Rightarrow> string \<Rightarrow> kafka_PublishOpt list \<Rightarrow> duration list
     \<Rightarrow> go_error option \<Rightarrow> kafka_history \<Rightarrow> go_error option \<times> kafka_history" where
  "kafka_publish_attempts env dest key value opts [] lastErr h = (lastErr, h)"
| "kafka_publish_attempts env dest key value opts (d # ds) lastErr h =
     (case kafka_Publish env h dest key value opts of
        (None, h') \<Rightarrow> (None, h')
      | (Some e, h') \<Rightarrow>
          if ctx_err env h' \<noteq> None then (Some e, h')
          else kafka_publish_attempts env dest key value opts ds (Some e) (h' @ [Slept d]))"

text \<open>\<open>has_producer\<close> is whether a producer was configured (\<open>p != nil\<close>).\<close>

definition kafka_republish ::
  "kafka_env \<Rightarrow> bool \<Rightarrow> kgo_record \<Rightarrow> string \<Rightarrow> go_error option \<Rightarrow> KafkaConsumerConfig \<Rightarrow> bool
     \<Rightarrow> kafka_history \<Rightarrow> go_error option \<times> kafka_history" where
  "kafka_republish env has_producer src dest handlerErr cfg toDLQ h =
     (if \<not> has_producer then (Some (NewError ''kafka: producer not configured for retry/DLQ''), h)
      else
        let s = kafka_republish_record src dest handlerErr cfg toDLQ;
            opts = KafkaForceSample # kafka_forward_opts (Headers s)
        in kafka_publish_attempts env dest (Key s) (Value s) opts kafka_republish_backoff None h)"

definition kafka_consumer_defaults :: "KafkaConsumerConfig \<Rightarrow> KafkaConsumerConfig" where
  "kafka_consumer_defaults cfg =
     (let cfg = (if kc_MaxRetries cfg \<le> 0 then cfg\<lparr>kc_MaxRetries := 3\<rparr> else cfg);
          cfg = (if kc_RetrySuffix cfg = [] then cfg\<lparr>kc_RetrySuffix := ''.retry''\<rparr> else cfg);
          cfg = (if kc_DLQSuffix cfg = [] then cfg\<lparr>kc_DLQSuffix := ''.dlq''\<rparr> else cfg)
      in if kc_DLQMaxPayloadBytes cfg \<le> 0 then cfg\<lparr>kc_DLQMaxPayloadBytes := 65536\<rparr> else cfg)"

text \<open>
  A handler may act on the world itself (the retry consumer's handler publishes), so it
  takes and returns the history. It is assumed to leave the record it is given unchanged.
\<close>

type_synonym kafka_handler = "kafka_history \<Rightarrow> kgo_record \<Rightarrow> go_error option \<times> kafka_history"

text \<open>
  The body of the loop over a batch: run the handler, route the outcome, republish if the
  route says so. The result says whether the record may be committed; if not, it was
  dropped or its republish failed, and \<open>stopProcessing\<close> ends the batch.
\<close>

definition kafka_process_record ::
  "kafka_env \<Rightarrow> kafka_handler \<Rightarrow> bool \<Rightarrow> KafkaConsumerConfig \<Rightarrow> kgo_record \<Rightarrow> kafka_history
     \<Rightarrow> bool \<times> kafka_history" where
  "kafka_process_record env handle has_producer cfg r h =
     (let (err, h) = handle h r;
          h = h @ [Handled r err];
          route = kafka_decideRoute err (kafka_RetryCount (Headers r)) (kc_MaxRetries cfg)
      in case route of
           KafkaRouteCommit \<Rightarrow> (True, h)
         | KafkaRouteDrop \<Rightarrow> (False, h)
         | _ \<Rightarrow>
             (let toDLQ = (route = KafkaRouteDLQ);
                  (perr, h) = kafka_republish env has_producer r (destTopic (Topic r) cfg toDLQ) err cfg toDLQ h
              in (perr = None, h)))"

fun kafka_process_batch ::
  "kafka_env \<Rightarrow> kafka_handler \<Rightarrow> bool \<Rightarrow> KafkaConsumerConfig \<Rightarrow> kgo_record list
     \<Rightarrow> kgo_record list \<Rightarrow> kafka_history \<Rightarrow> kgo_record list \<times> kafka_history" where
  "kafka_process_batch env handle has_producer cfg committable [] h = (committable, h)"
| "kafka_process_batch env handle has_producer cfg committable (r # rs) h =
     (case kafka_process_record env handle has_producer cfg r h of
        (True, h') \<Rightarrow> kafka_process_batch env handle has_producer cfg (committable @ [r]) rs h'
      | (False, h') \<Rightarrow> (committable, h'))"

text \<open>One turn of the loop: Inl is the value \<open>Consume\<close> returns, Inr goes round again.\<close>

definition kafka_consume_turn ::
  "kafka_env \<Rightarrow> kafka_handler \<Rightarrow> bool \<Rightarrow> bool \<Rightarrow> KafkaConsumerConfig \<Rightarrow> kafka_history
     \<Rightarrow> (go_error \<times> kafka_history) + kafka_history" where
  "kafka_consume_turn env handle has_producer has_heartbeat cfg h =
     (case ctx_err env h of
        Some e \<Rightarrow> Inl (e, h)
      | None \<Rightarrow>
         (let (errs, records) = poll env h;
              h = h @ [Polled]
          in case find (\<lambda>fe. errors_is (fe_Err fe) ContextCanceled) errs of
               Some fe \<Rightarrow> Inl (fe_Err fe, h)
             | None \<Rightarrow>
                (let h = (if has_heartbeat then h @ [Heartbeat] else h);
                     (committable, h) = kafka_process_batch env handle has_producer cfg [] records h
                 in Inr (if committable \<noteq> [] then h @ [Committed committable (commit_records env h committable)]
                         else h))))"

text \<open>The loop, cut off after \<open>fuel\<close> turns: None is "still running".\<close>

fun kafka_consume_loop ::
  "kafka_env \<Rightarrow> kafka_handler \<Rightarrow> bool \<Rightarrow> bool \<Rightarrow> KafkaConsumerConfig \<Rightarrow> nat \<Rightarrow> kafka_history
     \<Rightarrow> (go_error \<times> kafka_history) option" where
  "kafka_consume_loop env handle has_producer has_heartbeat cfg 0 h = None"
| "kafka_consume_loop env handle has_producer has_heartbeat cfg (Suc fuel) h =
     (case kafka_consume_turn env handle has_producer has_heartbeat cfg h of
        Inl r \<Rightarrow> Some r
      | Inr h' \<Rightarrow> kafka_consume_loop env handle has_producer has_heartbeat cfg fuel h')"

text \<open>
  \<open>ConsumeOptions\<close>; of the producer and the two functions it matters whether they are there.
  \<open>OnDone\<close> is deferred.
\<close>

record kafka_ConsumeOptions =
  ko_Consumer :: KafkaConsumerConfig
  ko_Producer :: bool
  ko_Heartbeat :: bool
  ko_OnDone :: bool

definition kafka_Consume ::
  "kafka_env \<Rightarrow> kafka_handler \<Rightarrow> kafka_ConsumeOptions \<Rightarrow> nat \<Rightarrow> kafka_history
     \<Rightarrow> (go_error \<times> kafka_history) option" where
  "kafka_Consume env handle opts fuel h =
     map_option (\<lambda>(e, h'). (e, if ko_OnDone opts then h' @ [KafkaDone] else h'))
       (kafka_consume_loop env handle (ko_Producer opts) (ko_Heartbeat opts)
          (kafka_consumer_defaults (ko_Consumer opts)) fuel h)"

text \<open>The handler of the retry consumer: wait the backoff, publish back to the main topic.\<close>

definition kafka_retry_opts :: "kgo_record \<Rightarrow> KafkaConsumerConfig \<Rightarrow> string \<times> kafka_PublishOpt list" where
  "kafka_retry_opts r cfg =
     (let mainTopic = trim_suffix (Topic r) (kc_RetrySuffix cfg);
          s = kafka_SanitizeForRepublish r mainTopic;
          hs = recordCarrier_Set (Headers s) HeaderRetryCount (recordCarrier_Get (Headers r) HeaderRetryCount)
      in (mainTopic, kafka_forward_opts hs))"

definition kafka_retry_handler :: "kafka_env \<Rightarrow> KafkaConsumerConfig \<Rightarrow> kafka_handler" where
  "kafka_retry_handler env cfg h r =
     (let retryCount = kafka_RetryCount (Headers r);
          delay = kafka_backoffDelay (kc_RetryBackoffBase cfg) (kc_RetryBackoffMax cfg) retryCount;
          w = wait_timer env h delay;
          h = h @ [Waited delay w]
      in case w of
           Some e \<Rightarrow> (Some e, h)
         | None \<Rightarrow>
             (let (mainTopic, opts) = kafka_retry_opts r cfg
              in kafka_Publish env h mainTopic (Key r) (Value r) opts))"

definition MaxInt32 :: int where "MaxInt32 = 2 ^ 31 - 1"

definition kafka_retry_defaults :: "KafkaConsumerConfig \<Rightarrow> KafkaConsumerConfig" where
  "kafka_retry_defaults cfg =
     (let cfg = (if kc_RetryBackoffBase cfg \<le> 0 then cfg\<lparr>kc_RetryBackoffBase := second\<rparr> else cfg)
      in if kc_RetryBackoffMax cfg \<le> 0 then cfg\<lparr>kc_RetryBackoffMax := 5 * minute\<rparr> else cfg)"

text \<open>The configuration \<open>ConsumeRetry\<close> hands to the inner \<open>Consume\<close>.\<close>

definition kafka_retry_inner_cfg :: "KafkaConsumerConfig \<Rightarrow> KafkaConsumerConfig" where
  "kafka_retry_inner_cfg cfg =
     \<lparr>kc_MaxRetries = MaxInt32, kc_RetrySuffix = kc_RetrySuffix cfg, kc_DLQSuffix = kc_DLQSuffix cfg,
      kc_RetryBackoffBase = 0, kc_RetryBackoffMax = 0, kc_DLQMaxPayloadBytes = 0\<rparr>"

text \<open>The handler publishes unconditionally, so a producer is taken for granted here.\<close>

definition kafka_ConsumeRetry ::
  "kafka_env \<Rightarrow> KafkaConsumerConfig \<Rightarrow> bool \<Rightarrow> nat \<Rightarrow> kafka_history \<Rightarrow> (go_error \<times> kafka_history) option" where
  "kafka_ConsumeRetry env cfg has_heartbeat fuel h =
     (let cfg = kafka_retry_defaults cfg
      in kafka_Consume env (kafka_retry_handler env cfg)
           \<lparr>ko_Consumer = kafka_retry_inner_cfg cfg, ko_Producer = True, ko_Heartbeat = has_heartbeat, ko_OnDone = False\<rparr>
           fuel h)"

end
