(* ===== verification/KafkaCorrect.thy ===== *)
theory KafkaCorrect
  imports KafkaConsumer
begin

text \<open>
  Correctness of the Kafka consumer: what each publish attempt leaves in the history, what
  a committed record guarantees, how a retried record travels, and when the loop returns.
\<close>

section \<open>Reading a history\<close>

fun produced_of :: "kafka_history \<Rightarrow> (kgo_record \<times> go_error option) list" where
  "produced_of [] = []"
| "produced_of (Produced q x # t) = (q, x) # produced_of t"
| "produced_of (_ # t) = produced_of t"

fun handled_of :: "kafka_history \<Rightarrow> (kgo_record \<times> go_error option) list" where
  "handled_of [] = []"
| "handled_of (Handled r x # t) = (r, x) # handled_of t"
| "handled_of (_ # t) = handled_of t"

fun committed_of :: "kafka_history \<Rightarrow> kgo_record list" where
  "committed_of [] = []"
| "committed_of (Committed rs x # t) = rs @ committed_of t"
| "committed_of (_ # t) = committed_of t"

fun slept_of :: "kafka_history \<Rightarrow> duration list" where
  "slept_of [] = []"
| "slept_of (Slept d # t) = d # slept_of t"
| "slept_of (_ # t) = slept_of t"

lemma history_append [hist_simps]:
  "produced_of (a @ b) = produced_of a @ produced_of b"
  "handled_of (a @ b) = handled_of a @ handled_of b"
  "committed_of (a @ b) = committed_of a @ committed_of b"
  "slept_of (a @ b) = slept_of a @ slept_of b"
proof -
  show "produced_of (a @ b) = produced_of a @ produced_of b"
    by (induction a rule: produced_of.induct) auto
  show "handled_of (a @ b) = handled_of a @ handled_of b"
    by (induction a rule: handled_of.induct) auto
  show "committed_of (a @ b) = committed_of a @ committed_of b"
    by (induction a rule: committed_of.induct) auto
  show "slept_of (a @ b) = slept_of a @ slept_of b"
    by (induction a rule: slept_of.induct) auto
qed

section \<open>Publish attempts\<close>

text \<open>
  All attempts publish a record built from the same arguments; the attempts succeed exactly
  when the last of them did, and there are at most as many as the backoff list allows.
\<close>

lemma attempts_history:
  assumes "kafka_publish_attempts env dest key value opts ds lastErr h = (e, h')"
    and "ds \<noteq> [] \<or> lastErr \<noteq> None"
  shows "\<exists>t. h' = h @ t \<and> handled_of t = [] \<and> committed_of t = []
    \<and> (\<forall>(q, x) \<in> set (produced_of t). \<exists>h1. q = kafka_publish_record env h1 dest key value opts)
    \<and> (e = None \<longleftrightarrow> (\<exists>q. (q, None) \<in> set (produced_of t)))
    \<and> length (produced_of t) \<le> length ds \<and> (\<exists>n. slept_of t = take n ds)"
  using assms
proof (induction ds arbitrary: lastErr h)
  case Nil
  then show ?case by auto
next
  case (Cons d ds)
  let ?q = "kafka_publish_record env h dest key value opts"
  show ?case
  proof (cases "produce env h ?q")
    case None
    with Cons.prems have "e = None" "h' = h @ [Produced ?q None]" by (auto simp: kafka_Publish_def Let_def)
    then show ?thesis by (auto intro!: exI [of _ "0::nat"])
  next
    case (Some e1)
    let ?h1 = "h @ [Produced ?q (Some e1)]" and ?e1 = "WrapError (''kafka publish '' @ dest @ '': '') e1 []"
    have pub: "kafka_Publish env h dest key value opts = (Some ?e1, ?h1)"
      using Some by (simp add: kafka_Publish_def Let_def)
    show ?thesis
    proof (cases "ctx_err env ?h1 = None")
      case False
      with Cons.prems pub have "e = Some ?e1" "h' = ?h1" by auto
      then show ?thesis by (auto intro!: exI [of _ "0::nat"])
    next
      case True
      with Cons.prems pub
      have "kafka_publish_attempts env dest key value opts ds (Some ?e1) (?h1 @ [Slept d]) = (e, h')"
        by auto
      from Cons.IH [OF this] obtain t n where t: "h' = (?h1 @ [Slept d]) @ t" "handled_of t = []"
        "committed_of t = []"
        "\<forall>(q, x) \<in> set (produced_of t). \<exists>h1. q = kafka_publish_record env h1 dest key value opts"
        "e = None \<longleftrightarrow> (\<exists>q. (q, None) \<in> set (produced_of t))"
        "length (produced_of t) \<le> length ds" "slept_of t = take n ds"
        by auto
      let ?t = "[Produced ?q (Some e1), Slept d] @ t"
      have "h' = h @ ?t" using t(1) by simp
      moreover have "slept_of ?t = take (Suc n) (d # ds)" using t(7) by simp
      ultimately show ?thesis using t by (intro exI [of _ ?t]) (auto simp del: take_Suc_Cons)
    qed
  qed
qed

text \<open>The options a republished record is published with.\<close>

definition kafka_republish_opts :: "kgo_record \<Rightarrow> kafka_PublishOpt list" where
  "kafka_republish_opts s = KafkaForceSample # kafka_forward_opts (Headers s)"

lemma republish_history:
  assumes "kafka_republish env hp r dest err cfg toDLQ h = (e, h')"
  shows "\<exists>t. h' = h @ t \<and> handled_of t = [] \<and> committed_of t = []
    \<and> (\<forall>(q, x) \<in> set (produced_of t). \<exists>h1. q = kafka_publish_record env h1 dest (Key r)
          (Value (kafka_republish_record r dest err cfg toDLQ))
          (kafka_republish_opts (kafka_republish_record r dest err cfg toDLQ)))
    \<and> (e = None \<longleftrightarrow> (\<exists>q. (q, None) \<in> set (produced_of t)))
    \<and> length (produced_of t) \<le> 3 \<and> (\<exists>n. slept_of t = take n kafka_republish_backoff)"
proof (cases hp)
  case False
  with assms show ?thesis by (auto simp: kafka_republish_def intro!: exI [of _ "0::nat"])
next
  case True
  let ?s = "kafka_republish_record r dest err cfg toDLQ"
  have key: "Key ?s = Key r"
    by (simp add: kafka_republish_record_def kafka_SanitizeForRepublish_def Let_def)
  have "kafka_publish_attempts env dest (Key ?s) (Value ?s) (kafka_republish_opts ?s)
      kafka_republish_backoff None h = (e, h')"
    using assms True by (simp add: kafka_republish_def Let_def kafka_republish_opts_def)
  from attempts_history [OF this] show ?thesis
    by (simp add: key kafka_republish_backoff_def numeral_3_eq_3)
qed

section \<open>One record\<close>

text \<open>
  A handler may publish and wait, but the loop alone records its outcome and commits.
\<close>

definition handler_ok :: "kafka_handler \<Rightarrow> bool" where
  "handler_ok handle \<longleftrightarrow>
     (\<forall>h r. \<exists>t. snd (handle h r) = h @ t \<and> handled_of t = [] \<and> committed_of t = [])"

text \<open>
  \<open>republished cfg r e toDLQ q\<close>: q is what \<open>r\<close> looks like on its retry or dead-letter topic
  after the handler failed with \<open>e\<close>: the right topic, the original key, the original payload
  (cut to the configured size for the dead-letter topic).
\<close>

definition republished :: "KafkaConsumerConfig \<Rightarrow> kgo_record \<Rightarrow> bool \<Rightarrow> kgo_record \<Rightarrow> bool" where
  "republished cfg r toDLQ q \<longleftrightarrow>
     Topic q = destTopic (Topic r) cfg toDLQ \<and> Key q = Key r
     \<and> Value q = (if toDLQ \<and> int (length (Value r)) > kc_DLQMaxPayloadBytes cfg
                  then take (nat (kc_DLQMaxPayloadBytes cfg)) (Value r) else Value r)"

definition settled :: "KafkaConsumerConfig \<Rightarrow> kafka_history \<Rightarrow> kgo_record \<Rightarrow> bool" where
  "settled cfg t r \<longleftrightarrow>
     (r, None) \<in> set (handled_of t)
     \<or> (\<exists>e toDLQ q. (r, Some e) \<in> set (handled_of t) \<and> \<not> errors_is e ContextCanceled
          \<and> toDLQ = (errors_is e KafkaErrNonRetryable \<or> kc_MaxRetries cfg \<le> kafka_RetryCount (Headers r))
          \<and> (q, None) \<in> set (produced_of t) \<and> republished cfg r toDLQ q)"

lemma settled_mono: "settled cfg t r \<Longrightarrow> settled cfg (a @ t @ b) r"
  unfolding settled_def history_append by auto

text \<open>A republish that succeeds settles the record its handler failed on.\<close>

lemma republish_settles:
  assumes "kafka_republish env hp r (destTopic (Topic r) cfg toDLQ) (Some e) cfg toDLQ h = (perr, h')"
    and "toDLQ = (errors_is e KafkaErrNonRetryable \<or> kc_MaxRetries cfg \<le> kafka_RetryCount (Headers r))"
    and "\<not> errors_is e ContextCanceled" "(r, Some e) \<in> set (handled_of t1)"
  shows "\<exists>t2. h' = h @ t2 \<and> handled_of t2 = [] \<and> committed_of t2 = [] \<and> (perr = None \<longrightarrow> settled cfg (t1 @ t2) r)"
proof -
  let ?s = "kafka_republish_record r (destTopic (Topic r) cfg toDLQ) (Some e) cfg toDLQ"
  from republish_history [OF assms(1)] obtain t2 where t2: "h' = h @ t2" "handled_of t2 = []" "committed_of t2 = []"
    "\<And>q x. (q, x) \<in> set (produced_of t2) \<Longrightarrow>
       \<exists>h1. q = kafka_publish_record env h1 (destTopic (Topic r) cfg toDLQ) (Key r) (Value ?s) (kafka_republish_opts ?s)"
    "perr = None \<longleftrightarrow> (\<exists>q. (q, None) \<in> set (produced_of t2))"
    by blast
  have "settled cfg (t1 @ t2) r" if perr: "perr = None"
  proof -
    from perr t2(5) obtain q where q: "(q, None) \<in> set (produced_of t2)" by blast
    with t2(4) have "republished cfg r toDLQ q"
      by (auto simp: republished_def kafka_republish_record_def kafka_SanitizeForRepublish_def Let_def dest!: t2(4))
    then show ?thesis unfolding settled_def using q assms(2-4) by (auto simp: hist_simps)
  qed
  with t2 show ?thesis by blast
qed

lemma process_record_history:
  assumes "kafka_process_record env handle hp cfg r h = (ok, h')" "handler_ok handle"
  shows "\<exists>t err. h' = h @ t \<and> handled_of t = [(r, err)] \<and> committed_of t = []
    \<and> (ok \<longrightarrow> settled cfg t r)
    \<and> (\<not> ok \<longrightarrow> (\<exists>e. err = Some e))"
proof -
  obtain err h1 where handle: "handle h r = (err, h1)" by fastforce
  then obtain t1 where t1: "h1 = h @ t1" "handled_of t1 = []" "committed_of t1 = []"
    using assms(2) unfolding handler_ok_def by (metis snd_conv)
  let ?t1 = "t1 @ [Handled r err]"
  have h1: "handled_of ?t1 = [(r, err)]" "committed_of ?t1 = []" using t1 by (simp_all add: hist_simps)
  consider "err = None" | e where "err = Some e" "errors_is e ContextCanceled"
    | e where "err = Some e" "\<not> errors_is e ContextCanceled" by (cases err) auto
  then show ?thesis
  proof cases
    case 1
    with assms(1) handle t1 have "ok" "h' = h @ ?t1" by (auto simp: kafka_process_record_def)
    moreover have "settled cfg ?t1 r" using 1 h1 by (simp add: settled_def)
    ultimately show ?thesis using h1 by blast
  next
    case 2
    with assms(1) handle t1 have "\<not> ok" "h' = h @ ?t1" by (auto simp: kafka_process_record_def)
    with h1 2 show ?thesis by blast
  next
    case 3
    define toDLQ where "toDLQ = (errors_is e KafkaErrNonRetryable \<or> kc_MaxRetries cfg \<le> kafka_RetryCount (Headers r))"
    obtain perr h2 where
      rep: "kafka_republish env hp r (destTopic (Topic r) cfg toDLQ) (Some e) cfg toDLQ (h @ ?t1) = (perr, h2)" by fastforce
    have "kafka_process_record env handle hp cfg r h = (perr = None, h2)"
      using handle t1 rep 3 by (auto simp: kafka_process_record_def toDLQ_def)
    with assms(1) have ok: "ok = (perr = None)" "h' = h2" by auto
    have "(r, Some e) \<in> set (handled_of ?t1)" using h1 3 by simp
    from republish_settles [OF rep toDLQ_def 3(2) this] obtain t2 where
      t2: "h2 = (h @ ?t1) @ t2" "handled_of t2 = []" "committed_of t2 = []" "perr = None \<longrightarrow> settled cfg (?t1 @ t2) r" by blast
    then have "handled_of (?t1 @ t2) = [(r, err)]" "committed_of (?t1 @ t2) = []" using h1 by (simp_all add: hist_simps)
    with ok t2 3 show ?thesis by (intro exI [of _ "?t1 @ t2"] exI [of _ err]) auto
  qed
qed

section \<open>One batch\<close>

text \<open>
  What is committed is a prefix of the batch; every record in it is settled; and the loop
  handled exactly that prefix, plus the record it stopped at if it stopped early.
\<close>

definition batch_post ::
  "KafkaConsumerConfig \<Rightarrow> kgo_record list \<Rightarrow> nat \<Rightarrow> kafka_history \<Rightarrow> bool" where
  "batch_post cfg rs n t \<longleftrightarrow>
     n \<le> length rs \<and> committed_of t = []
     \<and> map fst (handled_of t) = take (Suc n) rs
     \<and> (\<forall>r \<in> set (take n rs). settled cfg t r)
     \<and> (n < length rs \<longrightarrow> (\<exists>e. last (handled_of t) = (rs ! n, Some e)))"

lemma process_batch_history:
  assumes "kafka_process_batch env handle hp cfg cs rs h = (cs', h')" "handler_ok handle"
  shows "\<exists>t n. h' = h @ t \<and> cs' = cs @ take n rs \<and> batch_post cfg rs n t"
  using assms(1)
proof (induction rs arbitrary: cs h)
  case Nil
  then show ?case by (auto simp: batch_post_def intro!: exI [of _ "[]"])
next
  case (Cons r rs)
  obtain ok h1 where step: "kafka_process_record env handle hp cfg r h = (ok, h1)" by fastforce
  from process_record_history [OF this assms(2)] obtain t1 err where t1: "h1 = h @ t1"
    "handled_of t1 = [(r, err)]" "committed_of t1 = []" "ok \<Longrightarrow> settled cfg t1 r"
    "\<not> ok \<Longrightarrow> \<exists>e. err = Some e" by blast
  show ?case
  proof (cases ok)
    case False
    with Cons.prems step have "cs' = cs" "h' = h1" by auto
    with False t1 show ?thesis
      by (intro exI [of _ t1] exI [of _ 0]) (auto simp: batch_post_def)
  next
    case True
    with Cons.prems step have "kafka_process_batch env handle hp cfg (cs @ [r]) rs h1 = (cs', h')" by simp
    from Cons.IH [OF this] obtain t2 n where t2: "h' = h1 @ t2" "cs' = (cs @ [r]) @ take n rs"
      "batch_post cfg rs n t2" by blast
    have settled: "settled cfg (t1 @ t2) x" if "x \<in> set (take (Suc n) (r # rs))" for x
    proof (cases "x = r")
      case True
      with \<open>ok\<close> t1(4) show ?thesis using settled_mono [of cfg t1 r "[]" t2] by simp
    next
      case False
      with that t2(3) show ?thesis using settled_mono [of cfg t2 x t1 "[]"] by (auto simp: batch_post_def)
    qed
    have ne: "n < length rs \<Longrightarrow> handled_of t2 \<noteq> []"
      using t2(3) by (auto simp: batch_post_def)
    have "batch_post cfg (r # rs) (Suc n) (t1 @ t2)"
      using t2(3) settled t1 ne unfolding batch_post_def by (auto simp: hist_simps)
    with t1(1) t2(1,2) show ?thesis by (intro exI [of _ "t1 @ t2"] exI [of _ "Suc n"]) auto
  qed
qed

section \<open>The loop\<close>

text \<open>
  \<open>kafka_runs env handle hp hb cfg h0 h\<close>: \<open>h\<close> is the history after some number of turns from \<open>h0\<close>.
\<close>

inductive kafka_runs ::
  "kafka_env \<Rightarrow> kafka_handler \<Rightarrow> bool \<Rightarrow> bool \<Rightarrow> KafkaConsumerConfig \<Rightarrow> kafka_history \<Rightarrow> kafka_history \<Rightarrow> bool"
  for env handle hp hb cfg h0 where
  start: "kafka_runs env handle hp hb cfg h0 h0"
| turn: "kafka_runs env handle hp hb cfg h0 h \<Longrightarrow> kafka_consume_turn env handle hp hb cfg h = Inr h' \<Longrightarrow>
     kafka_runs env handle hp hb cfg h0 h'"

text \<open>What precedes the batch in a turn.\<close>

definition beats :: "bool \<Rightarrow> kafka_history" where
  "beats hb = Polled # (if hb then [Heartbeat] else [])"

lemma beats_simps [simp]: "handled_of (beats hb) = []" "committed_of (beats hb) = []" "beats hb \<noteq> []"
  by (simp_all add: beats_def)

definition commits :: "kafka_env \<Rightarrow> kafka_history \<Rightarrow> kgo_record list \<Rightarrow> kafka_history" where
  "commits env h cs = (if cs \<noteq> [] then [Committed cs (commit_records env h cs)] else [])"

lemma commits_simps [simp]: "handled_of (commits env h cs) = []" "committed_of (commits env h cs) = cs"
  by (simp_all add: commits_def)

text \<open>A turn that goes round again: a poll, a batch, and the commit of a prefix of it.\<close>

lemma consume_turn_shape:
  assumes "kafka_consume_turn env handle hp hb cfg h = Inr h'"
    and "kafka_process_batch env handle hp cfg [] (snd (poll env h)) (h @ beats hb) = (cs, h2)"
  shows "h' = h2 @ commits env h2 cs"
  using assms
  by (cases hb) (auto simp: kafka_consume_turn_def beats_def commits_def Let_def split: option.splits prod.splits if_splits)

lemma consume_turn_batch:
  assumes "kafka_consume_turn env handle hp hb cfg h = Inr h'" "handler_ok handle"
  shows "\<exists>t n. h' = h @ beats hb @ t @ commits env (h @ beats hb @ t) (take n (snd (poll env h)))
    \<and> batch_post cfg (snd (poll env h)) n t"
proof -
  obtain cs h2 where batch: "kafka_process_batch env handle hp cfg [] (snd (poll env h)) (h @ beats hb) = (cs, h2)" by fastforce
  from process_batch_history [OF this assms(2)] obtain t n where
    "h2 = (h @ beats hb) @ t" "cs = take n (snd (poll env h))" "batch_post cfg (snd (poll env h)) n t" by auto
  with consume_turn_shape [OF assms(1) batch] show ?thesis by auto
qed

text \<open>At every commit, its records have been settled before.\<close>

definition commits_settled :: "KafkaConsumerConfig \<Rightarrow> kafka_history \<Rightarrow> bool" where
  "commits_settled cfg t \<longleftrightarrow> (\<forall>a cs x b. t = a @ Committed cs x # b \<longrightarrow> (\<forall>r \<in> set cs. settled cfg a r))"

lemma committed_of_in: "Committed cs x \<in> set t \<Longrightarrow> set cs \<subseteq> set (committed_of t)"
  by (induction t rule: committed_of.induct) auto

lemma commits_settled_none: "committed_of t = [] \<Longrightarrow> commits_settled cfg t"
proof -
  assume "committed_of t = []"
  then have "cs = []" if "t = a @ Committed cs x # b" for a cs x b
    using committed_of_in [of cs x t] that by simp
  then show ?thesis unfolding commits_settled_def by fastforce
qed

lemma commits_settled_append:
  assumes "commits_settled cfg t" "\<And>a cs x b r. u = a @ Committed cs x # b \<Longrightarrow> r \<in> set cs \<Longrightarrow> settled cfg (t @ a) r"
  shows "commits_settled cfg (t @ u)"
  unfolding commits_settled_def
proof (intro allI impI ballI)
  fix a cs x b r assume e: "t @ u = a @ Committed cs x # b" and r: "r \<in> set cs"
  then consider us where "t = a @ us" "us @ u = Committed cs x # b" | us where "a = t @ us" "u = us @ Committed cs x # b"
    by (auto simp: append_eq_append_conv2)
  then show "settled cfg a r"
  proof cases
    case 1
    show ?thesis
    proof (cases us)
      case Nil
      with 1 assms(2) [of "[]" cs x b r] r show ?thesis by simp
    next
      case (Cons y us')
      with 1 have "t = a @ Committed cs x # us'" by simp
      with assms(1) r show ?thesis unfolding commits_settled_def by blast
    qed
  next
    case 2
    with assms(2) r show ?thesis by blast
  qed
qed

lemma consume_turn_history:
  assumes "kafka_consume_turn env handle hp hb cfg h = Inr h'" "handler_ok handle"
  shows "\<exists>t. h' = h @ t \<and> t \<noteq> [] \<and> commits_settled cfg t"
proof -
  from consume_turn_batch [OF assms] obtain t n where t:
    "h' = h @ beats hb @ t @ commits env (h @ beats hb @ t) (take n (snd (poll env h)))"
    "batch_post cfg (snd (poll env h)) n t" by blast
  let ?u = "commits env (h @ beats hb @ t) (take n (snd (poll env h)))"
  have "commits_settled cfg ((beats hb @ t) @ ?u)"
  proof (rule commits_settled_append)
    show "commits_settled cfg (beats hb @ t)" using t(2) by (intro commits_settled_none) (simp add: hist_simps batch_post_def)
    fix a cs x b r assume "?u = a @ Committed cs x # b" "r \<in> set cs"
    then have "a = []" "r \<in> set (take n (snd (poll env h)))"
      by (auto simp: commits_def Cons_eq_append_conv split: if_splits)
    with t(2) settled_mono [of cfg t r "beats hb" "[]"] show "settled cfg ((beats hb @ t) @ a) r" by (simp add: batch_post_def)
  qed
  with t(1) show ?thesis by (intro exI [of _ "beats hb @ t @ ?u"]) (simp add: beats_def)
qed

text \<open>
  C1: no record is lost by a commit. However the broker, the handler and the context behave,
  and however many turns the loop has made, before any commit each of its records had been
  handled successfully, or had failed without the context being cancelled and had been
  published to its retry topic, with its key and payload, or, exactly when the error was
  non-retryable or its retry budget was used up, to its dead-letter topic, with its key and its
  payload cut to the configured size if it is longer.
\<close>

theorem kafka_commit_settled:
  assumes "kafka_runs env handle hp hb cfg h0 h" "handler_ok handle"
  shows "(\<exists>t. h = h0 @ t)
    \<and> (\<forall>a cs x b. h = h0 @ a @ Committed cs x # b \<longrightarrow> (\<forall>r \<in> set cs. settled cfg a r))"
proof -
  have "\<exists>t. h = h0 @ t \<and> commits_settled cfg t"
    using assms(1)
  proof (induction rule: kafka_runs.induct)
    case start
    show ?case by (intro exI [of _ "[]"]) (simp add: commits_settled_none)
  next
    case (turn h h')
    then obtain t where t: "h = h0 @ t" "commits_settled cfg t" by blast
    from consume_turn_history [OF turn.hyps(2) assms(2)] obtain t2 where t2: "h' = h @ t2" "commits_settled cfg t2" by blast
    have "commits_settled cfg (t @ t2)"
    proof (rule commits_settled_append [OF t(2)])
      fix a cs x b r assume "t2 = a @ Committed cs x # b" "r \<in> set cs"
      with t2(2) settled_mono [of cfg a r t "[]"] show "settled cfg (t @ a) r" by (simp add: commits_settled_def)
    qed
    with t(1) t2(1) show ?case by (intro exI [of _ "t @ t2"]) auto
  qed
  then show ?thesis unfolding commits_settled_def by force
qed

text \<open>
  Within a batch the committed records are a prefix, nothing after the first dropped or
  unpublishable record is handled, and that record itself is not committed.
\<close>

theorem kafka_batch_prefix:
  assumes "kafka_process_batch env handle hp cfg [] rs h = (cs, h')" "handler_ok handle"
  shows "\<exists>t n. h' = h @ t \<and> cs = take n rs \<and> n \<le> length rs
    \<and> map fst (handled_of t) = take (Suc n) rs
    \<and> (\<forall>r \<in> set cs. settled cfg t r)
    \<and> (n < length rs \<longrightarrow> (\<exists>e. last (handled_of t) = (rs ! n, Some e)))"
  using process_batch_history [OF assms] by (auto simp: batch_post_def)

lemma consume_turn_return:
  "kafka_consume_turn env handle hp hb cfg h = Inl (e, h') \<Longrightarrow>
     ctx_err env h' = Some e \<or> errors_is e ContextCanceled"
  by (auto simp: kafka_consume_turn_def Let_def find_Some_iff split: option.splits prod.splits)

lemma consume_loop_return:
  "kafka_consume_loop env handle hp hb cfg fuel h = Some (e, h') \<Longrightarrow>
     ctx_err env h' = Some e \<or> errors_is e ContextCanceled"
proof (induction fuel arbitrary: h)
  case (Suc fuel)
  then show ?case by (auto split: sum.splits dest: consume_turn_return)
qed simp

lemma consume_loop_enough:
  assumes "handler_ok handle" "\<And>h. N \<le> length h \<Longrightarrow> ctx_err env h \<noteq> None" "N \<le> length h + fuel"
  shows "kafka_consume_loop env handle hp hb cfg (Suc fuel) h \<noteq> None"
  using assms(3)
proof (induction fuel arbitrary: h)
  case 0
  with assms(2) [of h] show ?case by (auto simp: kafka_consume_turn_def)
next
  case (Suc fuel)
  show ?case
  proof (cases "kafka_consume_turn env handle hp hb cfg h")
    case (Inr h1)
    then obtain t where "h1 = h @ t" "t \<noteq> []" using consume_turn_history assms(1) by blast
    then have "length h + 1 \<le> length h1" by (cases t) auto
    with Suc.prems have "N \<le> length h1 + fuel" by simp
    then show ?thesis using Suc.IH [of h1] Inr by simp
  qed simp
qed

text \<open>
  The loop returns only when it is told to stop, with the context's own error or a fetch
  error that is a cancellation; and once the context is done, it does return: if the context
  is done at every history of at least \<open>N\<close> events, \<open>N + 1\<close> turns are enough.
\<close>

theorem kafka_consume_returns:
  assumes "handler_ok handle" "\<forall>h. N \<le> length h \<longrightarrow> ctx_err env h \<noteq> None"
  shows "\<exists>e h' h''. kafka_Consume env handle opts (Suc N) h = Some (e, h')
    \<and> h' = h'' @ (if ko_OnDone opts then [KafkaDone] else [])
    \<and> (ctx_err env h'' = Some e \<or> errors_is e ContextCanceled)"
proof -
  have "kafka_consume_loop env handle (ko_Producer opts) (ko_Heartbeat opts)
      (kafka_consumer_defaults (ko_Consumer opts)) (Suc N) h \<noteq> None"
    using assms by (intro consume_loop_enough) auto
  then obtain e h'' where l: "kafka_consume_loop env handle (ko_Producer opts) (ko_Heartbeat opts)
      (kafka_consumer_defaults (ko_Consumer opts)) (Suc N) h = Some (e, h'')" by (metis not_None_eq surj_pair)
  from consume_loop_return [OF this] l show ?thesis unfolding kafka_Consume_def by auto
qed

section \<open>A concrete run\<close>

text \<open>
  A broker that accepts everything, one batch of two records, and a context that is done
  after eight events; the handler fails on the payload \<open>bad\<close>.
\<close>

definition sample_record :: "string \<Rightarrow> kgo_record" where
  "sample_record v = \<lparr>Topic = ''t'', Key = ''k'', Value = v, Headers = [], Partition = 0, Offset = 0\<rparr>"

definition sample_env :: kafka_env where
  "sample_env =
     \<lparr>produce = (\<lambda>_ _. None), new_uuid = (\<lambda>_. ''u''), inject = (\<lambda>_ _. []),
      ctx_err = (\<lambda>h. if 8 \<le> length h then Some (Sentinel ContextCanceled) else None),
      wait_timer = (\<lambda>_ _. None),
      poll = (\<lambda>h. ([], if h = [] then [sample_record ''ok'', sample_record ''bad''] else [])),
      commit_records = (\<lambda>_ _. None)\<rparr>"

definition sample_handler :: kafka_handler where
  "sample_handler h r = (if Value r = ''bad'' then Some (NewError ''boom'') else None, h)"

definition sample_cfg :: KafkaConsumerConfig where
  "sample_cfg = \<lparr>kc_MaxRetries = 3, kc_RetrySuffix = ''.retry'', kc_DLQSuffix = ''.dlq'',
     kc_RetryBackoffBase = second, kc_RetryBackoffMax = minute, kc_DLQMaxPayloadBytes = 65536\<rparr>"

definition sample_retry_record :: kgo_record where
  "sample_retry_record = \<lparr>Topic = ''t.retry'', Key = ''k'', Value = ''bad'',
     Headers = [(HeaderRetryCount, ''1''), (HeaderIdempotencyKey, ''u'')], Partition = 0, Offset = 0\<rparr>"

definition sample_turn_history :: kafka_history where
  "sample_turn_history =
     [Polled, Heartbeat, Handled (sample_record ''ok'') None,
      Handled (sample_record ''bad'') (Some (NewError ''boom'')), Produced sample_retry_record None,
      Committed [sample_record ''ok'', sample_record ''bad''] None]"

lemma sample_handler_ok: "handler_ok sample_handler"
  by (auto simp: handler_ok_def sample_handler_def)

lemma sample_turn:
  "kafka_consume_turn sample_env sample_handler True True sample_cfg [] = Inr sample_turn_history"
  by code_simp

lemma sample_batch:
  "kafka_process_batch sample_env sample_handler True sample_cfg [] [sample_record ''ok'', sample_record ''bad''] []
   = ([sample_record ''ok'', sample_record ''bad''], drop 2 (butlast sample_turn_history))"
  by code_simp

theorem kafka_commit_settled_witness:
  "settled sample_cfg (butlast sample_turn_history) (sample_record ''bad'')
   \<and> settled sample_cfg (butlast sample_turn_history) (sample_record ''ok'')"
proof -
  have runs: "kafka_runs sample_env sample_handler True True sample_cfg [] sample_turn_history"
    by (rule kafka_runs.turn [OF kafka_runs.start sample_turn])
  have "sample_turn_history = [] @ butlast sample_turn_history
      @ Committed [sample_record ''ok'', sample_record ''bad''] None # []"
    by (simp add: sample_turn_history_def)
  with kafka_commit_settled [OF runs sample_handler_ok]
  have "\<forall>r \<in> set [sample_record ''ok'', sample_record ''bad'']. settled sample_cfg (butlast sample_turn_history) r" by blast
  then show ?thesis by simp
qed

theorem kafka_batch_prefix_witness:
  "\<exists>t n. drop 2 (butlast sample_turn_history) = [] @ t
    \<and> [sample_record ''ok'', sample_record ''bad''] = take n [sample_record ''ok'', sample_record ''bad'']
    \<and> settled sample_cfg t (sample_record ''bad'')"
  using kafka_batch_prefix [OF sample_batch sample_handler_ok] by auto

theorem kafka_consume_returns_witness:
  "\<exists>e h'. kafka_Consume sample_env sample_handler
     \<lparr>ko_Consumer = sample_cfg, ko_Producer = True, ko_Heartbeat = True, ko_OnDone = True\<rparr> 9 [] = Some (e, h' @ [KafkaDone])"
  using kafka_consume_returns [OF sample_handler_ok, of 8 sample_env
      "\<lparr>ko_Consumer = sample_cfg, ko_Producer = True, ko_Heartbeat = True, ko_OnDone = True\<rparr>" "[]"]
  by (auto simp: sample_env_def)

end
