(* ===== verification/KafkaRetryFlow.thy ===== *)
theory KafkaRetryFlow
  imports KafkaCorrect
begin

text \<open>
  A record on its way through the retry topic and back: which topic it goes to, which retry
  count it carries, and what that means for the retry budget and the dead-letter topic.
\<close>

section \<open>Topics\<close>

lemma destTopic_retry_base:
  "trim_suffix (destTopic origin cfg False) (kc_RetrySuffix cfg) = trim_suffix origin (kc_RetrySuffix cfg)"
  by (simp add: destTopic_def Let_def)

text \<open>
  Retry and dead-letter topics do not pile up suffixes. A record that fails again on its
  retry topic goes to the same retry or dead-letter topic as one that fails on the main
  topic, and the retry consumer sends a record on \<open>base.retry\<close> back to \<open>base\<close>.
\<close>

theorem kafka_topics:
  "destTopic (destTopic origin cfg False) cfg toDLQ = destTopic origin cfg toDLQ
   \<and> destTopic (base @ kc_RetrySuffix cfg) cfg toDLQ
       = base @ (if toDLQ then kc_DLQSuffix cfg else kc_RetrySuffix cfg)
   \<and> fst (kafka_retry_opts (r\<lparr>Topic := base @ kc_RetrySuffix cfg\<rparr>) cfg) = base"
  by (simp add: destTopic_def kafka_retry_opts_def Let_def)

section \<open>Headers through a publish\<close>

lemma forward_opts_headers:
  "concat (map (\<lambda>opt. case opt of KafkaWithHeader k v \<Rightarrow> [(k, v)] | _ \<Rightarrow> []) (kafka_forward_opts hs))
   = filter (\<lambda>(k, v). \<not> (k = HeaderIdempotencyKey \<or> k = HeaderTraceParent \<or> k = HeaderTraceState)) hs"
proof -
  have "concat (map (\<lambda>opt. case opt of KafkaWithHeader k v \<Rightarrow> [(k, v)] | _ \<Rightarrow> [])
      (map (\<lambda>(k, v). KafkaWithHeader k v) xs)) = xs" for xs
    by (induction xs) auto
  then show ?thesis by (simp add: kafka_forward_opts_def Let_def)
qed

lemma forward_opts_count:
  "kafka_RetryCount (filter (\<lambda>(k, v). \<not> (k = HeaderIdempotencyKey \<or> k = HeaderTraceParent \<or> k = HeaderTraceState)) hs)
   = kafka_RetryCount hs"
proof -
  have "recordCarrier_Get (filter (\<lambda>(k, v). \<not> (k = HeaderIdempotencyKey \<or> k = HeaderTraceParent \<or> k = HeaderTraceState)) hs)
      HeaderRetryCount = recordCarrier_Get hs HeaderRetryCount"
    by (rule recordCarrier_Get_filter) (auto simp: equal_fold_def)
  then show ?thesis by (simp add: kafka_RetryCount_def)
qed

lemma publish_forward_count:
  assumes "trace_writes env"
  shows "kafka_RetryCount (Headers (kafka_publish_record env h topic key value (KafkaForceSample # kafka_forward_opts hs)))
      = kafka_RetryCount hs"
    and "kafka_RetryCount (Headers (kafka_publish_record env h topic key value (kafka_forward_opts hs)))
      = kafka_RetryCount hs"
  using assms by (simp_all add: publish_retry_count forward_opts_headers forward_opts_count [simplified])

lemma publish_forward_key:
  assumes "trace_writes env"
  shows "kafka_GetIdempotencyKey (Headers (kafka_publish_record env h topic key value (KafkaForceSample # kafka_forward_opts hs)))
      = (if kafka_GetIdempotencyKey hs = [] then new_uuid env h else kafka_GetIdempotencyKey hs)"
    and "kafka_GetIdempotencyKey (Headers (kafka_publish_record env h topic key value (kafka_forward_opts hs)))
      = (if kafka_GetIdempotencyKey hs = [] then new_uuid env h else kafka_GetIdempotencyKey hs)"
  by (rule publish_idempotency_key [OF assms],
      simp add: kafka_forward_opts_def Let_def kafka_opts_key)+

text \<open>
  The retry count of a record published to a retry topic is 1, whatever it was before:
  \<open>republish\<close> sanitises first, which strips the count, and increments afterwards.
\<close>

lemma republish_count_one:
  "kafka_RetryCount (Headers (kafka_republish_record src dest err cfg False)) = 1"
proof -
  have "kafka_RetryCount (fst (kafka_IncRetryCount (Headers (kafka_SanitizeForRepublish src dest)))) = 0 + 1"
    by (subst kafka_IncRetryCount_count) (simp_all add: sanitized_retry_count)
  then show ?thesis by (simp add: kafka_republish_record_def Let_def)
qed

lemma republish_key:
  "kafka_GetIdempotencyKey (Headers (kafka_republish_record src dest err cfg toDLQ)) = kafka_GetIdempotencyKey (Headers src)"
proof -
  have "\<not> equal_fold HeaderErrorReason HeaderIdempotencyKey" "\<not> equal_fold HeaderRetryCount HeaderIdempotencyKey"
    by (simp_all add: equal_fold_def)
  then show ?thesis
    using sanitized_idempotency_key [of src dest]
    by (simp add: kafka_republish_record_def Let_def kafka_GetIdempotencyKey_def kafka_SetErrorReason_def
        kafka_IncRetryCount_def recordCarrier_get_set_other)
qed

lemma retry_opts_keep:
  "kafka_RetryCount (recordCarrier_Set (Headers (kafka_SanitizeForRepublish r topic)) HeaderRetryCount
     (recordCarrier_Get (Headers r) HeaderRetryCount)) = kafka_RetryCount (Headers r)"
  "kafka_GetIdempotencyKey (recordCarrier_Set (Headers (kafka_SanitizeForRepublish r topic)) HeaderRetryCount v)
     = kafka_GetIdempotencyKey (Headers r)"
proof -
  show "kafka_RetryCount (recordCarrier_Set (Headers (kafka_SanitizeForRepublish r topic)) HeaderRetryCount
     (recordCarrier_Get (Headers r) HeaderRetryCount)) = kafka_RetryCount (Headers r)"
    by (simp add: kafka_RetryCount_def recordCarrier_get_set)
  show "kafka_GetIdempotencyKey (recordCarrier_Set (Headers (kafka_SanitizeForRepublish r topic)) HeaderRetryCount v)
     = kafka_GetIdempotencyKey (Headers r)"
    using sanitized_idempotency_key [of r topic]
    by (simp add: kafka_GetIdempotencyKey_def recordCarrier_get_set_other equal_fold_def)
qed

section \<open>The retry consumer's handler\<close>

lemma retry_handler_produced:
  assumes "kafka_retry_handler env cfg h r = (e, h')"
  shows "\<exists>t. h' = h @ t \<and> handled_of t = [] \<and> committed_of t = []
    \<and> (\<forall>(q, x) \<in> set (produced_of t). \<exists>h1. q = kafka_publish_record env h1
          (fst (kafka_retry_opts r cfg)) (Key r) (Value r) (snd (kafka_retry_opts r cfg)))"
proof -
  obtain topic opts where o: "kafka_retry_opts r cfg = (topic, opts)" by fastforce
  define w where "w = wait_timer env h (kafka_backoffDelay (kc_RetryBackoffBase cfg) (kc_RetryBackoffMax cfg) (kafka_RetryCount (Headers r)))"
  show ?thesis
  proof (cases w)
    case (Some x)
    with assms o show ?thesis
      by (auto simp: kafka_retry_handler_def Let_def w_def)
  next
    case None
    with assms o show ?thesis
      by (auto simp: kafka_retry_handler_def Let_def w_def kafka_Publish_def)
  qed
qed

lemma retry_handler_ok: "handler_ok (kafka_retry_handler env cfg)"
  unfolding handler_ok_def
proof (intro allI)
  fix h r
  obtain e h' where "kafka_retry_handler env cfg h r = (e, h')" by fastforce
  from retry_handler_produced [OF this] this
  show "\<exists>t. snd (kafka_retry_handler env cfg h r) = h @ t \<and> handled_of t = [] \<and> committed_of t = []"
    by auto
qed

lemma retry_handler_count:
  assumes "kafka_retry_handler env cfg h r = (e, h @ t)" "(q, x) \<in> set (produced_of t)" "trace_writes env"
  shows "kafka_RetryCount (Headers q) = kafka_RetryCount (Headers r)"
    and "Topic q = trim_suffix (Topic r) (kc_RetrySuffix cfg)" and "Key q = Key r" and "Value q = Value r"
    and "kafka_GetIdempotencyKey (Headers r) \<noteq> [] \<Longrightarrow>
      kafka_GetIdempotencyKey (Headers q) = kafka_GetIdempotencyKey (Headers r)"
proof -
  from retry_handler_produced [OF assms(1)] assms(2) obtain h1 where
    q: "q = kafka_publish_record env h1 (fst (kafka_retry_opts r cfg)) (Key r) (Value r) (snd (kafka_retry_opts r cfg))"
    by auto
  show "kafka_RetryCount (Headers q) = kafka_RetryCount (Headers r)"
    by (simp add: q kafka_retry_opts_def Let_def publish_forward_count(2) [OF assms(3)] retry_opts_keep(1))
  show "Topic q = trim_suffix (Topic r) (kc_RetrySuffix cfg)" "Key q = Key r" "Value q = Value r"
    by (simp_all add: q kafka_retry_opts_def Let_def)
  show "kafka_GetIdempotencyKey (Headers q) = kafka_GetIdempotencyKey (Headers r)"
    if "kafka_GetIdempotencyKey (Headers r) \<noteq> []"
    using that by (simp add: q kafka_retry_opts_def Let_def publish_forward_key(2) [OF assms(3)] retry_opts_keep(2))
qed

section \<open>The main consumer on a failing record\<close>

text \<open>A handler that fails with the same error every time.\<close>

definition failing :: "go_error \<Rightarrow> kafka_handler" where
  "failing e h r = (Some e, h)"

lemma failing_ok: "handler_ok (failing e)"
  by (auto simp: handler_ok_def failing_def)

lemma process_failing_produced:
  assumes "kafka_process_record env (failing e) hp cfg r h = (ok, h @ t)" "(q, x) \<in> set (produced_of t)"
    and "kafka_decideRoute (Some e) (kafka_RetryCount (Headers r)) (kc_MaxRetries cfg) = KafkaRouteRetry"
    and "trace_writes env"
  shows "kafka_RetryCount (Headers q) = 1 \<and> Topic q = destTopic (Topic r) cfg False"
proof -
  let ?h1 = "h @ [Handled r (Some e)]" and ?dest = "destTopic (Topic r) cfg False"
  obtain perr h2 where rep: "kafka_republish env hp r ?dest (Some e) cfg False ?h1 = (perr, h2)" by fastforce
  with assms(1,3) have "h2 = h @ t"
    by (simp add: kafka_process_record_def failing_def Let_def del: kafka_decideRoute.simps)
  moreover from republish_history [OF rep] obtain t2 where t2: "h2 = ?h1 @ t2"
    "\<And>q x. (q, x) \<in> set (produced_of t2) \<Longrightarrow> \<exists>h1. q = kafka_publish_record env h1 ?dest (Key r)
       (Value (kafka_republish_record r ?dest (Some e) cfg False))
       (kafka_republish_opts (kafka_republish_record r ?dest (Some e) cfg False))" by blast
  ultimately have "t = [Handled r (Some e)] @ t2" by simp
  with assms(2) have "(q, x) \<in> set (produced_of t2)" by (simp add: hist_simps)
  from t2(2) [OF this] show ?thesis
    by (auto simp: kafka_republish_opts_def publish_forward_count(1) [OF assms(4)] republish_count_one)
qed

section \<open>Round trips\<close>

text \<open>
  The broker stores a produced record and later delivers it, with a partition and an offset
  of its own choosing. One round trip: the main consumer fails on a record and publishes it
  to the retry topic; the retry consumer publishes what is delivered there back.
\<close>

definition deliver :: "kgo_record \<Rightarrow> int \<Rightarrow> int \<Rightarrow> kgo_record" where
  "deliver q p off = q\<lparr>Partition := p, Offset := off\<rparr>"

inductive kafka_redelivered ::
  "kafka_env \<Rightarrow> KafkaConsumerConfig \<Rightarrow> go_error \<Rightarrow> kgo_record \<Rightarrow> kgo_record \<Rightarrow> bool"
  for env cfg e r0 where
  original: "kafka_redelivered env cfg e r0 r0"
| round_trip: "kafka_redelivered env cfg e r0 r \<Longrightarrow>
     kafka_process_record env (failing e) True (kafka_consumer_defaults cfg) r h = (True, h @ t) \<Longrightarrow>
     (q, None) \<in> set (produced_of t) \<Longrightarrow>
     kafka_retry_handler env (kafka_retry_defaults cfg) h2 (deliver q p1 o1) = (None, h2 @ t2) \<Longrightarrow>
     (s, None) \<in> set (produced_of t2) \<Longrightarrow>
     kafka_redelivered env cfg e r0 (deliver s p2 o2)"

text \<open>
  C13: the retry budget is never used up. A record whose handler always fails with the same
  retryable error is routed to the retry topic on every delivery, however many round trips it
  has made, as soon as at least two retries are configured: each trip resets its count to 1.
  It is never routed to the dead-letter topic.
\<close>

theorem kafka_poison_never_dlq:
  assumes "kafka_redelivered env cfg e r0 r" "trace_writes env"
    and "\<not> errors_is e ContextCanceled" "\<not> errors_is e KafkaErrNonRetryable"
    and "2 \<le> kc_MaxRetries (kafka_consumer_defaults cfg)"
    and "kafka_RetryCount (Headers r0) < kc_MaxRetries (kafka_consumer_defaults cfg)"
  shows "kafka_decideRoute (Some e) (kafka_RetryCount (Headers r)) (kc_MaxRetries (kafka_consumer_defaults cfg))
      = KafkaRouteRetry
    \<and> (r = r0 \<or> kafka_RetryCount (Headers r) = 1)"
  using assms(1)
proof (induction rule: kafka_redelivered.induct)
  case original
  with assms show ?case by (simp add: kafka_router.retry_iff)
next
  case (round_trip r h t q h2 p1 o1 t2 s p2 o2)
  have "kafka_RetryCount (Headers q) = 1"
    using process_failing_produced [OF round_trip.hyps(2,3) _ assms(2)] round_trip.IH by blast
  then have "kafka_RetryCount (Headers s) = 1"
    using retry_handler_count(1) [OF round_trip.hyps(4,5) assms(2)] by (simp add: deliver_def)
  then show ?case
    using assms(3-5) by (simp add: kafka_router.retry_iff deliver_def)
qed

text \<open>One round trip, step by step.\<close>

definition trip_env :: kafka_env where
  "trip_env = sample_env\<lparr>ctx_err := \<lambda>_. None\<rparr>"

definition sample_main_record :: kgo_record where
  "sample_main_record = \<lparr>Topic = ''t'', Key = ''k'', Value = ''bad'',
     Headers = [(HeaderRetryCount, ''1''), (HeaderIdempotencyKey, ''u'')], Partition = 0, Offset = 0\<rparr>"

lemma trip_env_trace: "trace_writes trip_env"
  by (simp add: trace_writes_def trip_env_def sample_env_def)

lemma sample_trip: "kafka_redelivered trip_env sample_cfg (NewError ''boom'') (sample_record ''bad'') (deliver sample_main_record 4 2)"
proof (rule kafka_redelivered.round_trip [OF kafka_redelivered.original])
  show "kafka_process_record trip_env (failing (NewError ''boom'')) True (kafka_consumer_defaults sample_cfg)
      (sample_record ''bad'') [] = (True, [] @ [Handled (sample_record ''bad'') (Some (NewError ''boom'')), Produced sample_retry_record None])"
    by code_simp
  show "(sample_retry_record, None) \<in> set (produced_of
      [Handled (sample_record ''bad'') (Some (NewError ''boom'')), Produced sample_retry_record None])" by simp
  show "kafka_retry_handler trip_env (kafka_retry_defaults sample_cfg) [] (deliver sample_retry_record 1 1)
      = (None, [] @ [Waited (2 * second) None, Produced sample_main_record None])"
    by code_simp
  show "(sample_main_record, None) \<in> set (produced_of [Waited (2 * second) None, Produced sample_main_record None])"
    by simp
qed

theorem kafka_poison_never_dlq_witness:
  "kafka_decideRoute (Some (NewError ''boom'')) (kafka_RetryCount (Headers (deliver sample_main_record 4 2))) 3
     = KafkaRouteRetry"
proof -
  have cfg: "kc_MaxRetries (kafka_consumer_defaults sample_cfg) = 3" by code_simp
  have "kafka_RetryCount (Headers (sample_record ''bad'')) = 0" by code_simp
  with kafka_poison_never_dlq [OF sample_trip trip_env_trace] show ?thesis by (simp add: cfg)
qed

lemma process_failing_carries:
  assumes "kafka_process_record env (failing e) hp cfg r h = (ok, h @ t)" "(q, x) \<in> set (produced_of t)"
    and "kafka_decideRoute (Some e) (kafka_RetryCount (Headers r)) (kc_MaxRetries cfg) = KafkaRouteRetry"
    and "trace_writes env"
  shows "Topic q = destTopic (Topic r) cfg False \<and> Key q = Key r \<and> Value q = Value r
    \<and> (kafka_GetIdempotencyKey (Headers r) \<noteq> [] \<longrightarrow>
         kafka_GetIdempotencyKey (Headers q) = kafka_GetIdempotencyKey (Headers r))"
proof -
  let ?h1 = "h @ [Handled r (Some e)]" and ?dest = "destTopic (Topic r) cfg False"
  obtain perr h2 where rep: "kafka_republish env hp r ?dest (Some e) cfg False ?h1 = (perr, h2)" by fastforce
  with assms(1,3) have "h2 = h @ t"
    by (simp add: kafka_process_record_def failing_def Let_def del: kafka_decideRoute.simps)
  moreover from republish_history [OF rep] obtain t2 where t2: "h2 = ?h1 @ t2"
    "\<And>q x. (q, x) \<in> set (produced_of t2) \<Longrightarrow> \<exists>h1. q = kafka_publish_record env h1 ?dest (Key r)
       (Value (kafka_republish_record r ?dest (Some e) cfg False))
       (kafka_republish_opts (kafka_republish_record r ?dest (Some e) cfg False))" by blast
  ultimately have "t = [Handled r (Some e)] @ t2" by simp
  with assms(2) have "(q, x) \<in> set (produced_of t2)" by (simp add: hist_simps)
  from t2(2) [OF this] show ?thesis
    by (auto simp: kafka_republish_opts_def publish_forward_key(1) [OF assms(4)] republish_key)
      (simp add: kafka_republish_record_def kafka_SanitizeForRepublish_def Let_def)
qed

text \<open>
  C14: a round trip is otherwise transparent. A record that failed on its main topic, was
  published to the retry topic and published back from there has the key and payload it had,
  and the idempotency key, if it had one. With a retry suffix in the configuration it comes back
  to the main topic it was on; with none there, when the consumers default it, it stays on the
  retry topic.
\<close>

theorem kafka_round_trip_transparent:
  assumes "kafka_process_record env (failing e) True (kafka_consumer_defaults cfg) r h = (True, h @ t)"
    and "(q, None) \<in> set (produced_of t)"
    and "kafka_decideRoute (Some e) (kafka_RetryCount (Headers r)) (kc_MaxRetries (kafka_consumer_defaults cfg))
       = KafkaRouteRetry"
    and "kafka_retry_handler env (kafka_retry_defaults cfg) h2 (deliver q p1 o1) = (None, h2 @ t2)"
    and "(s, None) \<in> set (produced_of t2)"
    and "trace_writes env" "\<not> has_suffix (Topic r) (kc_RetrySuffix (kafka_consumer_defaults cfg))"
  shows "Topic s = (if kc_RetrySuffix cfg = [] then Topic r @ ''.retry'' else Topic r)
    \<and> Key s = Key r \<and> Value s = Value r
    \<and> (kafka_GetIdempotencyKey (Headers r) \<noteq> [] \<longrightarrow>
         kafka_GetIdempotencyKey (Headers s) = kafka_GetIdempotencyKey (Headers r))"
proof -
  have suffix: "kc_RetrySuffix (kafka_consumer_defaults cfg) = (if kc_RetrySuffix cfg = [] then ''.retry'' else kc_RetrySuffix cfg)"
    "kc_RetrySuffix (kafka_retry_defaults cfg) = kc_RetrySuffix cfg"
    by (simp_all add: kafka_consumer_defaults_def kafka_retry_defaults_def Let_def)
  have trim: "trim_suffix (Topic r) (kc_RetrySuffix (kafka_consumer_defaults cfg)) = Topic r"
    using assms(7) by (simp add: trim_suffix_def)
  have q: "Topic q = Topic r @ kc_RetrySuffix (kafka_consumer_defaults cfg)" "Key q = Key r" "Value q = Value r"
    "kafka_GetIdempotencyKey (Headers r) \<noteq> [] \<longrightarrow>
       kafka_GetIdempotencyKey (Headers q) = kafka_GetIdempotencyKey (Headers r)"
    using process_failing_carries [OF assms(1,2,3,6)] trim by (simp_all add: destTopic_def)
  show ?thesis
    using retry_handler_count(2-5) [OF assms(4,5,6)] q
    by (auto simp: deliver_def suffix)
qed

definition sample_keyed_record :: kgo_record where
  "sample_keyed_record = \<lparr>Topic = ''t'', Key = ''k'', Value = ''bad'',
     Headers = [(HeaderIdempotencyKey, ''id-1'')], Partition = 0, Offset = 0\<rparr>"

theorem kafka_round_trip_transparent_witness:
  "\<exists>s :: kgo_record. Topic s = ''t'' \<and> Value s = ''bad'' \<and> kafka_GetIdempotencyKey (Headers s) = ''id-1''"
proof -
  define q where "q = kafka_publish_record trip_env [] ''t.retry'' ''k'' ''bad''
    [KafkaForceSample, KafkaWithIdempotencyKey ''id-1'', KafkaWithHeader HeaderRetryCount ''1'']"
  define s where "s = kafka_publish_record trip_env [] ''t'' ''k'' ''bad''
    [KafkaWithIdempotencyKey ''id-1'', KafkaWithHeader HeaderRetryCount ''1'']"
  have a: "kafka_process_record trip_env (failing (NewError ''boom'')) True (kafka_consumer_defaults sample_cfg)
      sample_keyed_record [] = (True, [] @ [Handled sample_keyed_record (Some (NewError ''boom'')), Produced q None])"
    unfolding q_def by code_simp
  have b: "kafka_retry_handler trip_env (kafka_retry_defaults sample_cfg) [] (deliver q 1 1)
      = (None, [] @ [Waited (2 * second) None, Produced s None])"
    unfolding q_def s_def by code_simp
  have r: "kafka_decideRoute (Some (NewError ''boom'')) (kafka_RetryCount (Headers sample_keyed_record))
      (kc_MaxRetries (kafka_consumer_defaults sample_cfg)) = KafkaRouteRetry" by code_simp
  have x: "\<not> has_suffix (Topic sample_keyed_record) (kc_RetrySuffix (kafka_consumer_defaults sample_cfg))" by code_simp
  have k: "Topic sample_keyed_record = ''t''" "Value sample_keyed_record = ''bad''" "kc_RetrySuffix sample_cfg \<noteq> []"
    "kafka_GetIdempotencyKey (Headers sample_keyed_record) = ''id-1''" by code_simp+
  have q: "(q, None) \<in> set (produced_of [Handled sample_keyed_record (Some (NewError ''boom'')), Produced q None])"
    and s: "(s, None) \<in> set (produced_of [Waited (2 * second) None, Produced s None])" by simp_all
  note t = kafka_round_trip_transparent [OF a q r b s trip_env_trace x]
  have key: "kafka_GetIdempotencyKey (Headers sample_keyed_record) \<noteq> []" by (subst k(4)) simp
  have "Topic s = ''t''"
    using t [THEN conjunct1, unfolded if_not_P [OF k(3)]] k(1) by (rule trans)
  moreover have "Value s = ''bad''"
    using t [THEN conjunct2, THEN conjunct2, THEN conjunct1] k(2) by (rule trans)
  moreover have "kafka_GetIdempotencyKey (Headers s) = ''id-1''"
    using mp [OF t [THEN conjunct2, THEN conjunct2, THEN conjunct2] key] k(4) by (rule trans)
  ultimately show ?thesis by (intro exI [of _ s] conjI)
qed

section \<open>Where the retry consumer departs from its description\<close>

text \<open>
  With an empty retry suffix in the configuration the consumers default it to \<open>.retry\<close>,
  but the retry consumer's handler still trims the empty suffix: it publishes every record
  back to the retry topic it came from, and never to the main topic.
\<close>

theorem kafka_empty_suffix_stays_on_retry:
  assumes "kc_RetrySuffix cfg = []"
    and "Topic r = destTopic origin (kafka_consumer_defaults cfg) False"
    and "kafka_retry_handler env (kafka_retry_defaults cfg) h r = (e, h @ t)"
    and "(q, x) \<in> set (produced_of t)" "trace_writes env"
  shows "Topic q = Topic r \<and> (\<exists>base. Topic q = base @ ''.retry'')"
proof -
  have "kc_RetrySuffix (kafka_retry_defaults cfg) = []"
    using assms(1) by (simp add: kafka_retry_defaults_def Let_def)
  then have "Topic q = Topic r" using retry_handler_count(2) [OF assms(3-5)] by simp
  moreover have "kc_RetrySuffix (kafka_consumer_defaults cfg) = ''.retry''"
    using assms(1) by (simp add: kafka_consumer_defaults_def Let_def)
  ultimately show ?thesis using assms(2) by (simp add: destTopic_def Let_def)
qed

theorem kafka_empty_suffix_stays_on_retry_witness:
  "\<exists>q :: kgo_record. Topic q = ''t.retry'' \<and> Topic q = destTopic ''t'' (kafka_consumer_defaults (sample_cfg\<lparr>kc_RetrySuffix := []\<rparr>)) False"
proof -
  define q where "q = kafka_publish_record trip_env [] ''t.retry'' ''k'' ''bad''
    [KafkaWithIdempotencyKey ''u'', KafkaWithHeader HeaderRetryCount ''1'']"
  have a: "kafka_retry_handler trip_env (kafka_retry_defaults (sample_cfg\<lparr>kc_RetrySuffix := []\<rparr>)) [] sample_retry_record
      = (None, [] @ [Waited (2 * second) None, Produced q None])"
    unfolding q_def by code_simp
  have b: "Topic sample_retry_record = destTopic ''t'' (kafka_consumer_defaults (sample_cfg\<lparr>kc_RetrySuffix := []\<rparr>)) False"
    by code_simp
  have "(q, None) \<in> set (produced_of [Waited (2 * second) None, Produced q None])" by simp
  from kafka_empty_suffix_stays_on_retry [OF _ b a this trip_env_trace]
  have q: "Topic q = Topic sample_retry_record" by simp
  show ?thesis
  proof (intro exI conjI)
    show "Topic q = ''t.retry''" by (rule trans [OF q]) code_simp
    show "Topic q = destTopic ''t'' (kafka_consumer_defaults (sample_cfg\<lparr>kc_RetrySuffix := []\<rparr>)) False"
      by (rule trans [OF q b])
  qed
qed

text \<open>
  C35: when the retry consumer's publish fails with an ordinary error, the record is not left
  for redelivery: the surrounding loop publishes it to the retry topic again, with its count
  reset to 1, and commits it.
\<close>

theorem kafka_retry_failure_requeues:
  assumes "kafka_process_record env (kafka_retry_handler env (kafka_retry_defaults cfg)) True
       (kafka_consumer_defaults (kafka_retry_inner_cfg cfg)) r h = (True, h')"
    and "kafka_retry_handler env (kafka_retry_defaults cfg) h r = (Some e, h1)"
    and "\<not> errors_is e ContextCanceled" "\<not> errors_is e KafkaErrNonRetryable"
    and "kafka_RetryCount (Headers r) < MaxInt32"
    and "kc_RetrySuffix cfg \<noteq> []" "Topic r = base @ kc_RetrySuffix cfg" "trace_writes env"
  shows "\<exists>q t. h' = h1 @ [Handled r (Some e)] @ t \<and> (q, None) \<in> set (produced_of t)
    \<and> Topic q = Topic r \<and> kafka_RetryCount (Headers q) = 1"
proof -
  let ?cfg = "kafka_consumer_defaults (kafka_retry_inner_cfg cfg)"
  have cfg: "kc_RetrySuffix ?cfg = kc_RetrySuffix cfg" "kc_MaxRetries ?cfg = MaxInt32"
    using assms(6) by (simp_all add: kafka_consumer_defaults_def kafka_retry_inner_cfg_def Let_def MaxInt32_def)
  have route: "kafka_decideRoute (Some e) (kafka_RetryCount (Headers r)) (kc_MaxRetries ?cfg) = KafkaRouteRetry"
    using assms(3-5) by (simp add: kafka_router.retry_iff cfg)
  let ?dest = "destTopic (Topic r) ?cfg False"
  have dest: "?dest = Topic r" using assms(7) by (simp add: destTopic_def cfg)
  obtain perr h2 where rep: "kafka_republish env True r ?dest (Some e) ?cfg False (h1 @ [Handled r (Some e)]) = (perr, h2)"
    by fastforce
  with assms(1,2) route have "perr = None" "h2 = h'"
    by (simp_all add: kafka_process_record_def Let_def del: kafka_decideRoute.simps)
  with republish_history [OF rep] obtain t q where "h' = (h1 @ [Handled r (Some e)]) @ t"
    "(q, None) \<in> set (produced_of t)"
    "\<exists>h3. q = kafka_publish_record env h3 ?dest (Key r) (Value (kafka_republish_record r ?dest (Some e) ?cfg False))
       (kafka_republish_opts (kafka_republish_record r ?dest (Some e) ?cfg False))" by blast
  then show ?thesis
    by (intro exI [of _ q] exI [of _ t])
      (auto simp: dest kafka_republish_opts_def publish_forward_count(1) [OF assms(8)] republish_count_one)
qed

text \<open>A broker that refuses the main topic and takes everything else.\<close>

definition main_down_env :: kafka_env where
  "main_down_env = trip_env\<lparr>produce := \<lambda>_ q. if Topic q = ''t'' then Some (NewError ''down'') else None\<rparr>"

theorem kafka_retry_failure_requeues_witness:
  "\<exists>q :: kgo_record. Topic q = ''t.retry'' \<and> kafka_RetryCount (Headers q) = 1"
proof -
  let ?r = "sample_retry_record\<lparr>Headers := [(HeaderRetryCount, ''2'')]\<rparr>"
  let ?e = "WrapError ''kafka publish t: '' (NewError ''down'') []"
  define h' where "h' = snd (kafka_process_record main_down_env (kafka_retry_handler main_down_env (kafka_retry_defaults sample_cfg)) True
      (kafka_consumer_defaults (kafka_retry_inner_cfg sample_cfg)) ?r [])"
  define h1 where "h1 = snd (kafka_retry_handler main_down_env (kafka_retry_defaults sample_cfg) [] ?r)"
  have a: "kafka_process_record main_down_env (kafka_retry_handler main_down_env (kafka_retry_defaults sample_cfg)) True
      (kafka_consumer_defaults (kafka_retry_inner_cfg sample_cfg)) ?r [] = (True, h')"
    unfolding h'_def by code_simp
  have b: "kafka_retry_handler main_down_env (kafka_retry_defaults sample_cfg) [] ?r = (Some ?e, h1)"
    unfolding h1_def by code_simp
  have c: "kafka_RetryCount (Headers ?r) < MaxInt32" "kc_RetrySuffix sample_cfg \<noteq> []"
    "Topic ?r = ''t'' @ kc_RetrySuffix sample_cfg" by code_simp+
  have "trace_writes main_down_env" by (simp add: trace_writes_def main_down_env_def trip_env_def sample_env_def)
  from kafka_retry_failure_requeues [OF a b _ _ c this]
  have "\<exists>q :: kgo_record. Topic q = Topic ?r \<and> kafka_RetryCount (Headers q) = 1" by fastforce
  moreover have "Topic ?r = ''t.retry''" by code_simp
  ultimately show ?thesis by simp
qed

end
