(* ===== verification/SqsHeaders.thy ===== *)
theory SqsHeaders
  imports MessageHeaders
begin

text \<open>
  internal/platform/sqs/headers.go: the attribute carrier of an SQS message, idempotency key,
  retry count, and the sanitisation of a message bound for another queue.
\<close>

record MessageAttributeValue =
  av_DataType :: string
  av_StringValue :: "string option"
  av_BinaryValue :: "string option"

text \<open>
  A message attribute map in the order \<open>range\<close> visits it. Two ranges over the same
  unchanged map are taken to visit it in the same order, which matters only for a map that holds
  two spellings of one name.
\<close>

type_synonym sqs_attrs = "(string \<times> MessageAttributeValue) list"

text \<open>Fields the SDK leaves as nil pointers are None; a nil attribute map reads like an empty one.\<close>

record sqs_Message =
  msg_MessageId :: "string option"
  msg_ReceiptHandle :: "string option"
  msg_Body :: "string option"
  msg_Attributes :: sqs_attrs

definition MaxAttributes :: nat where "MaxAttributes = 10"
definition ReservedAttributes :: nat where "ReservedAttributes = 3"
definition MaxCustomAttributes :: nat where "MaxCustomAttributes = MaxAttributes - ReservedAttributes"
definition dataTypeString :: string where "dataTypeString = ''String''"

lemma MaxCustomAttributes_eq: "MaxCustomAttributes = 7"
  by (simp add: MaxCustomAttributes_def MaxAttributes_def ReservedAttributes_def)

section \<open>attrCarrier\<close>

fun attrCarrier_Get :: "sqs_attrs \<Rightarrow> string \<Rightarrow> string" where
  "attrCarrier_Get [] key = []"
| "attrCarrier_Get ((k, v) # m) key =
     (if equal_fold k key \<and> av_StringValue v \<noteq> None then the (av_StringValue v)
      else attrCarrier_Get m key)"

definition attrCarrier_Set :: "sqs_attrs \<Rightarrow> string \<Rightarrow> string \<Rightarrow> sqs_attrs" where
  "attrCarrier_Set m key value =
     alist_set key \<lparr>av_DataType = dataTypeString, av_StringValue = Some value, av_BinaryValue = None\<rparr> m"

definition attrCarrier_Keys :: "sqs_attrs \<Rightarrow> string list" where
  "attrCarrier_Keys m = map fst m"

text \<open>No other spelling of a name among the keys.\<close>

definition one_spelling :: "sqs_attrs \<Rightarrow> string \<Rightarrow> bool" where
  "one_spelling m k \<longleftrightarrow> (\<forall>k' \<in> fst ` set m. equal_fold k' k \<longrightarrow> k' = k)"

lemma attrCarrier_get_set: "one_spelling m k \<Longrightarrow> attrCarrier_Get (attrCarrier_Set m k v) k = v"
  unfolding attrCarrier_Set_def
  by (induction m k rule: attrCarrier_Get.induct) (auto simp: one_spelling_def)

lemma attrCarrier_get_set_other:
  "\<not> equal_fold k k' \<Longrightarrow> attrCarrier_Get (attrCarrier_Set m k v) k' = attrCarrier_Get m k'"
  unfolding attrCarrier_Set_def
  by (induction m k' rule: attrCarrier_Get.induct) auto

lemma fst_attrCarrier_Set: "fst ` set (attrCarrier_Set m k v) = insert k (fst ` set m)"
  using keys_alist_set [of k _ m] by (simp add: attrCarrier_Set_def)

lemma one_spelling_set:
  "one_spelling m k' \<Longrightarrow> (equal_fold k k' \<Longrightarrow> k = k') \<Longrightarrow> one_spelling (attrCarrier_Set m k v) k'"
  by (auto simp: one_spelling_def fst_attrCarrier_Set)

interpretation sqs_carrier: header_carrier attrCarrier_Get attrCarrier_Set one_spelling
  by unfold_locales (simp_all add: attrCarrier_get_set attrCarrier_get_set_other one_spelling_set)

lemma one_spelling_Nil [simp]: "one_spelling [] k"
  by (simp add: one_spelling_def)

lemma attrCarrier_Get_absent:
  "(\<And>k v. (k, v) \<in> set m \<Longrightarrow> \<not> equal_fold k n) \<Longrightarrow> attrCarrier_Get m n = []"
proof (induction m)
  case (Cons a m)
  obtain k v where a: "a = (k, v)" by (cases a)
  have "\<not> equal_fold k n" using Cons.prems [of k v] a by simp
  moreover have "attrCarrier_Get m n = []"
    by (rule Cons.IH) (meson Cons.prems list.set_intros(2))
  ultimately show ?case by (simp add: a)
qed simp

section \<open>String attributes, idempotency key and retry count\<close>

definition SetStringAttribute :: "sqs_attrs \<Rightarrow> string \<Rightarrow> string \<Rightarrow> sqs_attrs" where
  "SetStringAttribute attrs key value =
     alist_set key \<lparr>av_DataType = dataTypeString, av_StringValue = Some value, av_BinaryValue = None\<rparr> attrs"

fun GetStringAttribute :: "sqs_attrs \<Rightarrow> string \<Rightarrow> string" where
  "GetStringAttribute [] key = []"
| "GetStringAttribute ((k, v) # attrs) key =
     (if equal_fold k key \<and> av_StringValue v \<noteq> None then the (av_StringValue v)
      else GetStringAttribute attrs key)"

lemma GetStringAttribute_carrier: "GetStringAttribute = attrCarrier_Get"
proof (intro ext)
  fix m n
  show "GetStringAttribute m n = attrCarrier_Get m n" by (induction m n rule: attrCarrier_Get.induct) auto
qed

lemma SetStringAttribute_carrier: "SetStringAttribute = attrCarrier_Set"
  by (simp add: fun_eq_iff SetStringAttribute_def attrCarrier_Set_def)

lemmas string_attribute_carrier = GetStringAttribute_carrier SetStringAttribute_carrier

definition sqs_SetIdempotencyKey :: "string \<Rightarrow> sqs_attrs \<Rightarrow> string \<Rightarrow> sqs_attrs \<times> string" where
  "sqs_SetIdempotencyKey uuid attrs key =
     (let key = (if key = [] then uuid else key)
      in (SetStringAttribute attrs HeaderIdempotencyKey key, key))"

fun sqs_GetIdempotencyKey :: "sqs_Message option \<Rightarrow> string" where
  "sqs_GetIdempotencyKey None = []"
| "sqs_GetIdempotencyKey (Some msg) = GetStringAttribute (msg_Attributes msg) HeaderIdempotencyKey"

fun sqs_RetryCount :: "sqs_Message option \<Rightarrow> int" where
  "sqs_RetryCount None = 0"
| "sqs_RetryCount (Some msg) =
     (let v = GetStringAttribute (msg_Attributes msg) HeaderRetryCount
      in if v = [] then 0
         else case atoi v of None \<Rightarrow> 0 | Some n \<Rightarrow> if n < 0 then 0 else n)"

definition sqs_IncRetryCount :: "sqs_attrs \<Rightarrow> sqs_attrs \<times> int" where
  "sqs_IncRetryCount attrs =
     (let v = GetStringAttribute attrs HeaderRetryCount;
          n = (if v \<noteq> [] then (case atoi v of Some parsed \<Rightarrow> if parsed \<ge> 0 then parsed else 0 | None \<Rightarrow> 0) else 0);
          n = wrap64 (n + 1)
      in (SetStringAttribute attrs HeaderRetryCount (itoa n), n))"

lemma sqs_RetryCount_of:
  "sqs_RetryCount (Some msg) = retry_count_of (attrCarrier_Get (msg_Attributes msg) HeaderRetryCount)"
  by (simp add: retry_count_of_def Let_def GetStringAttribute_carrier)

declare sqs_RetryCount.simps(2) [simp del]

lemma sqs_IncRetryCount_of:
  "sqs_IncRetryCount attrs =
     (let n = wrap64 (retry_count_of (attrCarrier_Get attrs HeaderRetryCount) + 1)
      in (attrCarrier_Set attrs HeaderRetryCount (itoa n), n))"
proof -
  have "(if v \<noteq> [] then (case atoi v of Some p \<Rightarrow> if p \<ge> 0 then p else 0 | None \<Rightarrow> 0) else 0) = retry_count_of v" for v
    by (auto simp: retry_count_of_def split: option.splits)
  then show ?thesis by (simp add: sqs_IncRetryCount_def Let_def string_attribute_carrier)
qed

section \<open>Sanitisation\<close>

definition keep_attr :: "string \<times> MessageAttributeValue \<Rightarrow> bool" where
  "keep_attr a =
     (let lk = to_lower (fst a)
      in if lk = HeaderRetryCount \<or> lk = HeaderErrorReason then False
         else if lk = HeaderTraceParent
           then \<not> (av_StringValue (snd a) = None \<or> \<not> traceparentRe_match (the (av_StringValue (snd a))))
         else True)"

definition sqs_SanitizeForRepublish :: "sqs_Message \<Rightarrow> sqs_attrs" where
  "sqs_SanitizeForRepublish msg = filter keep_attr (msg_Attributes msg)"

definition sqs_SanitizeError :: "go_error option \<Rightarrow> string" where
  "sqs_SanitizeError err =
     (case err of
        None \<Rightarrow> ''unknown''
      | Some e \<Rightarrow>
          (let out = map sanitize_rune (runes (error_text e))
           in if length out > maxErrorReasonLen then take maxErrorReasonLen out else out))"

definition sqs_SetErrorReason :: "sqs_attrs \<Rightarrow> go_error option \<Rightarrow> sqs_attrs" where
  "sqs_SetErrorReason attrs err = SetStringAttribute attrs HeaderErrorReason (sqs_SanitizeError err)"

lemma keep_attr_not_count: "keep_attr (k, v) \<Longrightarrow> \<not> equal_fold k HeaderRetryCount"
  using equal_fold_retry_count [of k] by (auto simp: keep_attr_def Let_def)

lemma sanitized_attrs_no_count:
  "(k, v) \<in> set (sqs_SanitizeForRepublish msg) \<Longrightarrow> \<not> equal_fold k HeaderRetryCount"
  by (auto simp: sqs_SanitizeForRepublish_def dest: keep_attr_not_count)

lemma sanitized_one_spelling: "one_spelling (sqs_SanitizeForRepublish msg) HeaderRetryCount"
  by (force simp: one_spelling_def dest: sanitized_attrs_no_count)

lemma sanitized_get_count: "attrCarrier_Get (sqs_SanitizeForRepublish msg) HeaderRetryCount = []"
  by (rule attrCarrier_Get_absent) (auto dest: sanitized_attrs_no_count)

lemma distinct_sanitized: "distinct (map fst (msg_Attributes msg)) \<Longrightarrow> distinct (map fst (sqs_SanitizeForRepublish msg))"
  by (simp add: sqs_SanitizeForRepublish_def distinct_map_filter)

text \<open>What the retry path sends: the sanitised attributes and a count of 1.\<close>

lemma sanitized_inc:
  "sqs_IncRetryCount (sqs_SanitizeForRepublish msg) =
     (attrCarrier_Set (sqs_SanitizeForRepublish msg) HeaderRetryCount (itoa 1), 1)"
  by (simp add: sqs_IncRetryCount_of sanitized_get_count Let_def int64_range_def)

end
