(* ===== verification/SqsProducer.thy ===== *)
theory SqsProducer
  imports SqsHeaders RetryPolicy
begin

text \<open>
  internal/platform/sqs/client.go and producer.go: queue names, the client's options, the
  publish options and \<open>Publish\<close>. The AWS client, the UUID generator, the trace propagator and
  the context are the environment: their answers are functions of the history of everything
  done so far.
\<close>

record SendMessageInput =
  in_QueueUrl :: string
  in_MessageBody :: string
  in_MessageAttributes :: sqs_attrs
  in_DelaySeconds :: int

record ReceiveMessageInput =
  rm_QueueUrl :: string
  rm_MaxNumberOfMessages :: int
  rm_WaitTimeSeconds :: int
  rm_VisibilityTimeout :: int
  rm_MessageAttributeNames :: "string list"

datatype sqs_event =
    Sent SendMessageInput "go_error option"
  | SqsSlept duration
  | SqsWaited duration "go_error option"
  | Received ReceiveMessageInput "go_error option"
  | SqsHeartbeat
  | SqsHandled sqs_Message "go_error option"
  | Deleted string string "go_error option"
  | GotQueueUrl string "go_error option"
  | DoneCalled

type_synonym sqs_history = "sqs_event list"

text \<open>
  \<open>SendMessage\<close>, a fresh UUID, the header writes of the trace propagator (for a span that is a
  new root or not), the context's error, the outcome of waiting for a timer or the context,
  \<open>ReceiveMessage\<close>, \<open>DeleteMessage\<close> (queue, receipt handle) and \<open>GetQueueUrl\<close>.
\<close>

record sqs_env =
  send_message :: "sqs_history \<Rightarrow> SendMessageInput \<Rightarrow> go_error option"
  sqs_uuid :: "sqs_history \<Rightarrow> string"
  sqs_inject :: "sqs_history \<Rightarrow> bool \<Rightarrow> (string \<times> string) list"
  sqs_ctx_err :: "sqs_history \<Rightarrow> go_error option"
  sqs_wait :: "sqs_history \<Rightarrow> duration \<Rightarrow> go_error option"
  receive_message :: "sqs_history \<Rightarrow> ReceiveMessageInput \<Rightarrow> go_error + sqs_Message list"
  delete_message :: "sqs_history \<Rightarrow> string \<Rightarrow> string \<Rightarrow> go_error option"
  get_queue_url :: "sqs_history \<Rightarrow> string \<Rightarrow> go_error option"

section \<open>Queue names\<close>

text \<open>The loop of \<open>QueueName\<close> runs down from the last byte and cuts after the first slash it meets.\<close>

fun queue_name_scan :: "string \<Rightarrow> nat \<Rightarrow> string" where
  "queue_name_scan url 0 = url"
| "queue_name_scan url (Suc i) = (if url ! i = CHR ''/'' then drop (Suc i) url else queue_name_scan url i)"

definition QueueName :: "string \<Rightarrow> go_error + string" where
  "QueueName queueURL =
     (if queueURL = [] then Inl (NewError ''sqs: empty queue URL'')
      else Inr (queue_name_scan queueURL (length queueURL)))"

lemma queue_name_scan_slash:
  "CHR ''/'' \<notin> set name \<Longrightarrow> queue_name_scan (prefix @ CHR ''/'' # name) (length prefix + Suc (length name)) = name"
proof -
  assume name: "CHR ''/'' \<notin> set name"
  have "queue_name_scan (prefix @ CHR ''/'' # name) (length prefix + Suc k) = name" if "k \<le> length name" for k
    using that
  proof (induction k)
    case (Suc k)
    then have "name ! k \<noteq> CHR ''/''" using name by (metis Suc_le_lessD nth_mem)
    with Suc show ?case by (simp add: nth_append)
  qed simp
  then show ?thesis by simp
qed

lemma QueueName_slash: "CHR ''/'' \<notin> set name \<Longrightarrow> QueueName (prefix @ CHR ''/'' # name) = Inr name"
  using queue_name_scan_slash [of name prefix] by (simp add: QueueName_def)

text \<open>\<open>VerifyQueue\<close>; \<open>q\<close> is the quoted text \<open>fmt\<close>'s \<open>%q\<close> prints.\<close>

definition VerifyQueue :: "(string \<Rightarrow> string) \<Rightarrow> sqs_env \<Rightarrow> sqs_history \<Rightarrow> string \<Rightarrow> go_error option \<times> sqs_history" where
  "VerifyQueue q env h queueURL =
     (case QueueName queueURL of
        Inl e \<Rightarrow> (Some e, h)
      | Inr name \<Rightarrow>
          (let r = get_queue_url env h name
           in (map_option (\<lambda>e. WrapError (''sqs: verify queue '' @ q name @ '': '') e []) r,
               h @ [GotQueueUrl name r])))"

text \<open>
  \<open>NewClient\<close>: \<open>load\<close> is \<open>LoadDefaultConfig\<close> with an optional region and \<open>new\<close> is
  \<open>NewFromConfig\<close> with an optional base endpoint.
\<close>

definition sqs_NewClient ::
  "(string option \<Rightarrow> go_error + 'a) \<Rightarrow> ('a \<Rightarrow> string option \<Rightarrow> 'c) \<Rightarrow> string \<Rightarrow> string \<Rightarrow> go_error + 'c" where
  "sqs_NewClient load new region endpoint =
     (case load (if region \<noteq> [] then Some region else None) of
        Inl e \<Rightarrow> Inl (WrapError ''sqs: load aws config: '' e [])
      | Inr awsCfg \<Rightarrow> Inr (new awsCfg (if endpoint \<noteq> [] then Some endpoint else None)))"

section \<open>Publish\<close>

datatype sqs_PublishOpt =
    SqsWithIdempotencyKey string
  | SqsWithAttribute string string
  | SqsWithDelay duration
  | SqsForceSample

record sqs_publishConfig =
  sp_idempotencyKey :: string
  sp_extraAttrs :: "(string \<times> string) list"
  sp_delay :: duration
  sp_forceSample :: bool

fun sqs_apply_opt :: "sqs_PublishOpt \<Rightarrow> sqs_publishConfig \<Rightarrow> sqs_publishConfig" where
  "sqs_apply_opt (SqsWithIdempotencyKey k) c = c\<lparr>sp_idempotencyKey := k\<rparr>"
| "sqs_apply_opt (SqsWithAttribute k v) c = c\<lparr>sp_extraAttrs := alist_set k v (sp_extraAttrs c)\<rparr>"
| "sqs_apply_opt (SqsWithDelay d) c = c\<lparr>sp_delay := d\<rparr>"
| "sqs_apply_opt SqsForceSample c = c\<lparr>sp_forceSample := True\<rparr>"

definition sqs_publish_config :: "sqs_PublishOpt list \<Rightarrow> sqs_publishConfig" where
  "sqs_publish_config opts =
     fold sqs_apply_opt opts \<lparr>sp_idempotencyKey = [], sp_extraAttrs = [], sp_delay = 0, sp_forceSample = False\<rparr>"

definition sqs_InjectTraceHeaders :: "(string \<times> string) list \<Rightarrow> sqs_attrs \<Rightarrow> sqs_attrs" where
  "sqs_InjectTraceHeaders kvs attrs = fold (\<lambda>(k, v) m. attrCarrier_Set m k v) kvs attrs"

text \<open>\<open>int32(d / time.Second)\<close>: integer division of a positive duration.\<close>

definition delay_seconds :: "duration \<Rightarrow> int" where
  "delay_seconds delay =
     (if delay > 0 then (let d = (if delay > SQSMaxDelay then SQSMaxDelay else delay) in d div second) else 0)"

definition sqs_publish_input ::
  "sqs_env \<Rightarrow> sqs_history \<Rightarrow> string \<Rightarrow> string \<Rightarrow> sqs_publishConfig \<Rightarrow> SendMessageInput" where
  "sqs_publish_input env h queueURL body cfg =
     (let attrs = fold (\<lambda>(k, v) m. SetStringAttribute m k v) (sp_extraAttrs cfg) [];
          attrs = fst (sqs_SetIdempotencyKey (sqs_uuid env h) attrs (sp_idempotencyKey cfg));
          attrs = sqs_InjectTraceHeaders (sqs_inject env h (sp_forceSample cfg)) attrs
      in \<lparr>in_QueueUrl = queueURL, in_MessageBody = body, in_MessageAttributes = attrs,
          in_DelaySeconds = delay_seconds (sp_delay cfg)\<rparr>)"

definition sqs_Publish ::
  "sqs_env \<Rightarrow> sqs_history \<Rightarrow> string \<Rightarrow> string \<Rightarrow> sqs_PublishOpt list \<Rightarrow> go_error option \<times> sqs_history" where
  "sqs_Publish env h queueURL body opts =
     (let cfg = sqs_publish_config opts
      in if length (sp_extraAttrs cfg) > MaxCustomAttributes
         then (Some (WrapError [] (Sentinel SqsErrTooManyAttributes)
                 ('': got '' @ itoa (int (length (sp_extraAttrs cfg))) @ '', max '' @ itoa (int MaxCustomAttributes))), h)
         else
           let qname = (case QueueName queueURL of Inl e \<Rightarrow> [] | Inr n \<Rightarrow> n);
               inp = sqs_publish_input env h queueURL body cfg;
               err = send_message env h inp
           in (map_option (\<lambda>e. WrapError (''sqs publish '' @ qname @ '': '') e []) err, h @ [Sent inp err]))"

section \<open>What Publish sends\<close>

lemma delay_seconds_bounds: "0 \<le> delay_seconds d \<and> delay_seconds d \<le> 900"
  by (auto simp: delay_seconds_def SQSMaxDelay_def time_units Let_def)

lemma distinct_extraAttrs:
  "distinct (map fst (sp_extraAttrs c)) \<Longrightarrow> distinct (map fst (sp_extraAttrs (fold sqs_apply_opt opts c)))"
proof (induction opts arbitrary: c)
  case (Cons a opts)
  then have "distinct (map fst (sp_extraAttrs (sqs_apply_opt a c)))"
    by (cases a) (auto intro: distinct_alist_set)
  with Cons.IH show ?case by simp
qed simp

lemma publish_config_distinct: "distinct (map fst (sp_extraAttrs (sqs_publish_config opts)))"
  by (simp add: sqs_publish_config_def distinct_extraAttrs)

lemma length_fold_set:
  "length (fold (\<lambda>(k, v) m. attrCarrier_Set m k v) kvs m) \<le> length m + length kvs"
proof (induction kvs arbitrary: m)
  case (Cons kv kvs)
  obtain k v where kv: "kv = (k, v)" by (cases kv)
  have "length (attrCarrier_Set m k v) \<le> Suc (length m)"
    by (simp add: attrCarrier_Set_def length_alist_set)
  with Cons.IH [of "attrCarrier_Set m k v"] kv show ?case by simp
qed simp

lemma distinct_fold_set:
  "distinct (map fst m) \<Longrightarrow> distinct (map fst (fold (\<lambda>(k, v) m. attrCarrier_Set m k v) kvs m))"
proof (induction kvs arbitrary: m)
  case (Cons kv kvs)
  then show ?case by (cases kv) (auto simp: attrCarrier_Set_def intro!: Cons.IH distinct_alist_set)
qed simp

lemma publish_input_attrs:
  "length (in_MessageAttributes (sqs_publish_input env h url body cfg))
     \<le> length (sp_extraAttrs cfg) + 1 + length (sqs_inject env h (sp_forceSample cfg))"
  "distinct (map fst (in_MessageAttributes (sqs_publish_input env h url body cfg)))"
proof -
  let ?a = "fold (\<lambda>(k, v) m. attrCarrier_Set m k v) (sp_extraAttrs cfg) []"
  let ?b = "attrCarrier_Set ?a HeaderIdempotencyKey (if sp_idempotencyKey cfg = [] then sqs_uuid env h else sp_idempotencyKey cfg)"
  let ?i = "sqs_inject env h (sp_forceSample cfg)"
  have eq: "in_MessageAttributes (sqs_publish_input env h url body cfg) = fold (\<lambda>(k, v) m. attrCarrier_Set m k v) ?i ?b"
    by (simp add: sqs_publish_input_def sqs_SetIdempotencyKey_def sqs_InjectTraceHeaders_def Let_def
        SetStringAttribute_carrier)
  have "length ?b \<le> Suc (length ?a)" by (simp add: attrCarrier_Set_def length_alist_set)
  with length_fold_set [of ?i ?b] length_fold_set [of "sp_extraAttrs cfg" "[]"]
  show "length (in_MessageAttributes (sqs_publish_input env h url body cfg))
     \<le> length (sp_extraAttrs cfg) + 1 + length ?i"
    by (simp add: eq)
  have "distinct (map fst ?b)"
    unfolding attrCarrier_Set_def by (intro distinct_alist_set) (simp add: distinct_fold_set [unfolded attrCarrier_Set_def])
  then show "distinct (map fst (in_MessageAttributes (sqs_publish_input env h url body cfg)))"
    by (simp add: eq distinct_fold_set)
qed

text \<open>The propagator leaves the platform's own attributes alone (W3C trace context and baggage).\<close>

definition sqs_trace_writes :: "sqs_env \<Rightarrow> bool" where
  "sqs_trace_writes env \<longleftrightarrow>
     (\<forall>h b k v. (k, v) \<in> set (sqs_inject env h b) \<longrightarrow>
        \<not> equal_fold k HeaderRetryCount \<and> \<not> equal_fold k HeaderIdempotencyKey
        \<and> \<not> equal_fold k HeaderErrorReason)"

lemma publish_input_get:
  assumes "sqs_trace_writes env" "n \<in> {HeaderRetryCount, HeaderErrorReason}"
  shows "attrCarrier_Get (in_MessageAttributes (sqs_publish_input env h url body cfg)) n
    = attrCarrier_Get (fold (\<lambda>(k, v) m. attrCarrier_Set m k v) (sp_extraAttrs cfg) []) n"
proof -
  have "\<not> equal_fold k n" if "(k, v) \<in> set (sqs_inject env h b)" for k v b
    using assms that unfolding sqs_trace_writes_def by blast
  moreover have "\<not> equal_fold HeaderIdempotencyKey n" using assms(2) by (auto simp: equal_fold_def)
  ultimately show ?thesis
    by (simp add: sqs_publish_input_def sqs_SetIdempotencyKey_def sqs_InjectTraceHeaders_def Let_def
        SetStringAttribute_carrier sqs_carrier.get_fold_other attrCarrier_get_set_other)
qed

text \<open>
  \<open>Publish\<close> calls the broker at most once, and refuses without calling it exactly when
  more than seven different attributes were asked for. What it sends goes to the given queue
  with the given body, names no attribute twice, has at most eight attributes beside those the
  trace propagator writes, and asks for a delay of 0 to 900 whole seconds.
\<close>

theorem sqs_publish_bounds:
  assumes "sqs_Publish env h url body opts = (e, h')"
    and "n = card (fst ` set (sp_extraAttrs (sqs_publish_config opts)))"
  shows "(if n > 7 then h' = h \<and> (\<exists>x. e = Some x \<and> errors_is x SqsErrTooManyAttributes)
      else \<exists>inp r. h' = h @ [Sent inp r] \<and> (e = None \<longleftrightarrow> r = None)
        \<and> in_QueueUrl inp = url \<and> in_MessageBody inp = body
        \<and> distinct (map fst (in_MessageAttributes inp))
        \<and> length (in_MessageAttributes inp) \<le> n + 1 + length (sqs_inject env h (sp_forceSample (sqs_publish_config opts)))
        \<and> 0 \<le> in_DelaySeconds inp \<and> in_DelaySeconds inp \<le> 900)"
proof -
  let ?c = "sqs_publish_config opts" and ?i = "sqs_publish_input env h url body (sqs_publish_config opts)"
  have n: "n = length (sp_extraAttrs ?c)"
    using assms(2) publish_config_distinct [of opts]
    by (metis distinct_card length_map list.set_map)
  show ?thesis
  proof (cases "n > 7")
    case True
    with assms(1) n show ?thesis by (auto simp: sqs_Publish_def Let_def MaxCustomAttributes_eq)
  next
    case False
    with assms(1) n have "h' = h @ [Sent ?i (send_message env h ?i)]" "e = None \<longleftrightarrow> send_message env h ?i = None"
      by (auto simp: sqs_Publish_def Let_def MaxCustomAttributes_eq)
    moreover have "in_QueueUrl ?i = url" "in_MessageBody ?i = body" "in_DelaySeconds ?i = delay_seconds (sp_delay ?c)"
      by (simp_all add: sqs_publish_input_def Let_def)
    ultimately show ?thesis
      using False n publish_input_attrs [of env h url body ?c] delay_seconds_bounds [of "sp_delay ?c"]
      by (metis (no_types, lifting))
  qed
qed

definition sample_sqs_env :: sqs_env where
  "sample_sqs_env =
     \<lparr>send_message = (\<lambda>_ _. None), sqs_uuid = (\<lambda>_. ''u''), sqs_inject = (\<lambda>_ _. []),
      sqs_ctx_err = (\<lambda>h. if 7 \<le> length h then Some (Sentinel ContextCanceled) else None),
      sqs_wait = (\<lambda>_ _. None), receive_message = (\<lambda>_ _. Inr []),
      delete_message = (\<lambda>_ _ _. None), get_queue_url = (\<lambda>_ _. None)\<rparr>"

lemma sample_publish_attrs:
  "card (fst ` set (sp_extraAttrs (sqs_publish_config [SqsWithAttribute ''a'' ''1'', SqsWithAttribute ''a'' ''2'']))) = 1"
  "sqs_inject sample_sqs_env [] (sp_forceSample (sqs_publish_config [SqsWithAttribute ''a'' ''1'', SqsWithAttribute ''a'' ''2''])) = []"
  by (simp_all add: sqs_publish_config_def sample_sqs_env_def)

theorem sqs_publish_bounds_witness:
  "\<exists>inp r. snd (sqs_Publish sample_sqs_env [] ''http://q/x'' ''b'' [SqsWithAttribute ''a'' ''1'', SqsWithAttribute ''a'' ''2''])
     = [Sent inp r] \<and> in_QueueUrl inp = ''http://q/x'' \<and> length (in_MessageAttributes inp) \<le> 2"
  using sqs_publish_bounds [of sample_sqs_env "[]" "''http://q/x''" "''b''"
      "[SqsWithAttribute ''a'' ''1'', SqsWithAttribute ''a'' ''2'']", OF prod.collapse [symmetric] refl]
  unfolding sample_publish_attrs by auto

end
