(* ===== verification/SqsConsumer.thy ===== *)
theory SqsConsumer
  imports SqsProducer Config
begin

text \<open>
  internal/platform/sqs/consumer.go and consumer_retry.go: the long-poll loop, the handling of
  one message with its delete, retry and dead-letter paths, the republish with bounded
  attempts, and the retry consumer. Spans, logging and the trace context a handler sees are
  left out.
\<close>

section \<open>Defaults and queue URLs\<close>

definition defaultsForConsumer :: "SQSConsumerConfig \<Rightarrow> SQSConsumerConfig" where
  "defaultsForConsumer cfg =
     (let cfg = (if sc_MaxRetries cfg \<le> 0 then cfg\<lparr>sc_MaxRetries := 3\<rparr> else cfg);
          cfg = (if sc_RetrySuffix cfg = [] then cfg\<lparr>sc_RetrySuffix := ''-retry''\<rparr> else cfg);
          cfg = (if sc_DLQSuffix cfg = [] then cfg\<lparr>sc_DLQSuffix := ''-dlq''\<rparr> else cfg);
          cfg = (if sc_VisibilityTimeoutSeconds cfg \<le> 0 then cfg\<lparr>sc_VisibilityTimeoutSeconds := 30\<rparr> else cfg);
          cfg = (if sc_WaitTimeSeconds cfg \<le> 0 then cfg\<lparr>sc_WaitTimeSeconds := 20\<rparr> else cfg);
          cfg = (if sc_MaxMessages cfg \<le> 0 \<or> sc_MaxMessages cfg > 10 then cfg\<lparr>sc_MaxMessages := 10\<rparr> else cfg);
          cfg = (if sc_DLQMaxPayloadBytes cfg \<le> 0 then cfg\<lparr>sc_DLQMaxPayloadBytes := 65536\<rparr> else cfg);
          cfg = (if sc_RetryBackoffBase cfg \<le> 0 then cfg\<lparr>sc_RetryBackoffBase := 5 * second\<rparr> else cfg);
          cfg = (if sc_RetryBackoffMax cfg \<le> 0 then cfg\<lparr>sc_RetryBackoffMax := SQSMaxDelay\<rparr> else cfg)
      in cfg)"

definition destQueueURL :: "string \<Rightarrow> string \<Rightarrow> string \<Rightarrow> bool \<Rightarrow> string" where
  "destQueueURL originURL retrySuffix dlqSuffix toDLQ =
     (case last_index originURL (CHR ''/'') of
        None \<Rightarrow> originURL
      | Some idx \<Rightarrow>
          (let prefix = take (idx + 1) originURL;
               name = drop (idx + 1) originURL;
               base = trim_suffix name retrySuffix
           in if toDLQ then prefix @ base @ dlqSuffix else prefix @ base @ retrySuffix))"

section \<open>Republishing\<close>

text \<open>The options both republish paths build from an attribute map.\<close>

definition sqs_forward_opts :: "sqs_attrs \<Rightarrow> sqs_PublishOpt list" where
  "sqs_forward_opts attrs =
     SqsForceSample
     # (let k = GetStringAttribute attrs HeaderIdempotencyKey in if k \<noteq> [] then [SqsWithIdempotencyKey k] else [])
     @ concat (map (\<lambda>(k, v).
           if k = HeaderTraceParent \<or> k = HeaderTraceState \<or> k = HeaderIdempotencyKey then []
           else (case av_StringValue v of Some s \<Rightarrow> [SqsWithAttribute k s] | None \<Rightarrow> [])) attrs)"

definition sqs_body :: "sqs_Message \<Rightarrow> string" where
  "sqs_body msg = (case msg_Body msg of None \<Rightarrow> [] | Some b \<Rightarrow> b)"

text \<open>The attributes and the body \<open>republish\<close> sends.\<close>

definition sqs_republish_attrs :: "sqs_Message \<Rightarrow> go_error option \<Rightarrow> bool \<Rightarrow> sqs_attrs" where
  "sqs_republish_attrs src handlerErr toDLQ =
     (let attrs = sqs_SanitizeForRepublish src
      in if toDLQ then sqs_SetErrorReason attrs handlerErr else fst (sqs_IncRetryCount attrs))"

definition sqs_republish_body :: "sqs_Message \<Rightarrow> SQSConsumerConfig \<Rightarrow> bool \<Rightarrow> string" where
  "sqs_republish_body src cfg toDLQ =
     (let body = sqs_body src
      in if toDLQ \<and> int (length body) > sc_DLQMaxPayloadBytes cfg
         then take (nat (sc_DLQMaxPayloadBytes cfg)) body else body)"

definition sqs_republish_opts :: "sqs_Message \<Rightarrow> go_error option \<Rightarrow> SQSConsumerConfig \<Rightarrow> bool \<Rightarrow> sqs_PublishOpt list" where
  "sqs_republish_opts src handlerErr cfg toDLQ =
     sqs_forward_opts (sqs_republish_attrs src handlerErr toDLQ)
     @ (if \<not> toDLQ then
          (let retryCount = wrap64 (sqs_RetryCount (Some src) + 1);
               delay = sqs_backoffDelay (sc_RetryBackoffBase cfg) (sc_RetryBackoffMax cfg) (wrap64 (retryCount - 1))
           in if delay > 0 then [SqsWithDelay delay] else [])
        else [])"

definition sqs_republish_backoff :: "duration list" where
  "sqs_republish_backoff = [100 * millisecond, 500 * millisecond, second]"

fun sqs_publish_attempts ::
  "sqs_env \<Rightarrow> string \<Rightarrow> string \<Rightarrow> sqs_PublishOpt list \<Rightarrow> duration list
     \<Rightarrow> go_error option \<Rightarrow> sqs_history \<Rightarrow> go_error option \<times> sqs_history" where
  "sqs_publish_attempts env dest body opts [] lastErr h = (lastErr, h)"
| "sqs_publish_attempts env dest body opts (d # ds) lastErr h =
     (case sqs_Publish env h dest body opts of
        (None, h') \<Rightarrow> (None, h')
      | (Some e, h') \<Rightarrow>
          if sqs_ctx_err env h' \<noteq> None then (Some e, h')
          else sqs_publish_attempts env dest body opts ds (Some e) (h' @ [SqsSlept d]))"

text \<open>\<open>has_producer\<close> is \<open>p != nil\<close>.\<close>

definition sqs_republish ::
  "sqs_env \<Rightarrow> bool \<Rightarrow> sqs_Message \<Rightarrow> string \<Rightarrow> go_error option \<Rightarrow> SQSConsumerConfig \<Rightarrow> bool
     \<Rightarrow> sqs_history \<Rightarrow> go_error option \<times> sqs_history" where
  "sqs_republish env has_producer src dest handlerErr cfg toDLQ h =
     (if \<not> has_producer then (Some (NewError ''sqs: producer not configured for retry/DLQ''), h)
      else sqs_publish_attempts env dest (sqs_republish_body src cfg toDLQ)
             (sqs_republish_opts src handlerErr cfg toDLQ) sqs_republish_backoff None h)"

section \<open>One message\<close>

text \<open>The identifier log lines carry; \<open>None\<close> is a nil message.\<close>

definition safeID :: "sqs_Message option \<Rightarrow> string" where
  "safeID msg = (case msg of None \<Rightarrow> [] | Some m \<Rightarrow> (case msg_MessageId m of None \<Rightarrow> [] | Some i \<Rightarrow> i))"

text \<open>A failing delete is logged, not returned.\<close>

definition deleteMessage :: "sqs_env \<Rightarrow> string \<Rightarrow> sqs_Message \<Rightarrow> sqs_history \<Rightarrow> sqs_history" where
  "deleteMessage env queueURL msg h =
     (case msg_ReceiptHandle msg of
        None \<Rightarrow> h
      | Some rh \<Rightarrow> h @ [Deleted queueURL rh (delete_message env h queueURL rh)])"

text \<open>A handler may act on the world (the retry consumer's publishes); it leaves its message unchanged.\<close>

type_synonym sqs_handler = "sqs_history \<Rightarrow> sqs_Message \<Rightarrow> go_error option \<times> sqs_history"

definition processMessage ::
  "sqs_env \<Rightarrow> sqs_handler \<Rightarrow> bool \<Rightarrow> SQSConsumerConfig \<Rightarrow> sqs_Message \<Rightarrow> sqs_history \<Rightarrow> sqs_history" where
  "processMessage env handle has_producer cfg msg h =
     (let (err, h) = handle h msg;
          h = h @ [SqsHandled msg err];
          retryCount = sqs_RetryCount (Some msg);
          route = sqs_decideRoute err retryCount (sc_MaxRetries cfg)
      in case route of
           SqsRouteCommit \<Rightarrow> deleteMessage env (sc_QueueURL cfg) msg h
         | SqsRouteDrop \<Rightarrow> h
         | _ \<Rightarrow>
             (let toDLQ = (route = SqsRouteDLQ);
                  dest = destQueueURL (sc_QueueURL cfg) (sc_RetrySuffix cfg) (sc_DLQSuffix cfg) toDLQ;
                  (produceErr, h) = sqs_republish env has_producer msg dest err cfg toDLQ h
              in if produceErr \<noteq> None then h else deleteMessage env (sc_QueueURL cfg) msg h))"

section \<open>The loop\<close>

record sqs_ConsumeOptions =
  co_Consumer :: SQSConsumerConfig
  co_Producer :: bool
  co_Heartbeat :: bool
  co_OnDone :: bool

text \<open>The messages of one poll: Inl when the context is done after one of them.\<close>

fun sqs_process_batch ::
  "sqs_env \<Rightarrow> sqs_handler \<Rightarrow> bool \<Rightarrow> SQSConsumerConfig \<Rightarrow> sqs_Message list \<Rightarrow> sqs_history
     \<Rightarrow> (go_error \<times> sqs_history) + sqs_history" where
  "sqs_process_batch env handle has_producer cfg [] h = Inr h"
| "sqs_process_batch env handle has_producer cfg (m # ms) h =
     (let h' = processMessage env handle has_producer cfg m h
      in case sqs_ctx_err env h' of
           Some e \<Rightarrow> Inl (e, h')
         | None \<Rightarrow> sqs_process_batch env handle has_producer cfg ms h')"

definition sqs_receive_input :: "SQSConsumerConfig \<Rightarrow> ReceiveMessageInput" where
  "sqs_receive_input cfg =
     \<lparr>rm_QueueUrl = sc_QueueURL cfg, rm_MaxNumberOfMessages = sc_MaxMessages cfg,
      rm_WaitTimeSeconds = sc_WaitTimeSeconds cfg, rm_VisibilityTimeout = sc_VisibilityTimeoutSeconds cfg,
      rm_MessageAttributeNames = [''All'']\<rparr>"

text \<open>One turn of the loop: Inl is the value \<open>Consume\<close> returns, Inr goes round again.\<close>

definition sqs_consume_turn ::
  "sqs_env \<Rightarrow> sqs_handler \<Rightarrow> bool \<Rightarrow> bool \<Rightarrow> SQSConsumerConfig \<Rightarrow> sqs_history
     \<Rightarrow> (go_error \<times> sqs_history) + sqs_history" where
  "sqs_consume_turn env handle has_producer has_heartbeat cfg h =
     (case sqs_ctx_err env h of
        Some e \<Rightarrow> Inl (e, h)
      | None \<Rightarrow>
         (let inp = sqs_receive_input cfg
          in case receive_message env h inp of
               Inl err \<Rightarrow>
                 (let h = h @ [Received inp (Some err)]
                  in if errors_is err ContextCanceled then Inl (err, h)
                     else let w = sqs_wait env h second; h = h @ [SqsWaited second w]
                          in case w of Some e \<Rightarrow> Inl (e, h) | None \<Rightarrow> Inr h)
             | Inr messages \<Rightarrow>
                 (let h = h @ [Received inp None];
                      h = (if has_heartbeat then h @ [SqsHeartbeat] else h)
                  in sqs_process_batch env handle has_producer cfg messages h)))"

fun sqs_consume_loop ::
  "sqs_env \<Rightarrow> sqs_handler \<Rightarrow> bool \<Rightarrow> bool \<Rightarrow> SQSConsumerConfig \<Rightarrow> nat \<Rightarrow> sqs_history
     \<Rightarrow> (go_error \<times> sqs_history) option" where
  "sqs_consume_loop env handle has_producer has_heartbeat cfg 0 h = None"
| "sqs_consume_loop env handle has_producer has_heartbeat cfg (Suc fuel) h =
     (case sqs_consume_turn env handle has_producer has_heartbeat cfg h of
        Inl r \<Rightarrow> Some r
      | Inr h' \<Rightarrow> sqs_consume_loop env handle has_producer has_heartbeat cfg fuel h')"

text \<open>\<open>Consume\<close>, cut off after \<open>fuel\<close> turns: None is "still running". \<open>OnDone\<close> is deferred.\<close>

definition sqs_Consume ::
  "sqs_env \<Rightarrow> sqs_handler \<Rightarrow> sqs_ConsumeOptions \<Rightarrow> nat \<Rightarrow> sqs_history \<Rightarrow> (go_error \<times> sqs_history) option" where
  "sqs_Consume env handle opts fuel h =
     map_option (\<lambda>(e, h'). (e, if co_OnDone opts then h' @ [DoneCalled] else h'))
       (sqs_consume_loop env handle (co_Producer opts) (co_Heartbeat opts)
          (defaultsForConsumer (co_Consumer opts)) fuel h)"

section \<open>The retry consumer\<close>

text \<open>Its handler moves one message back, keeping the retry count.\<close>

definition sqs_retry_opts :: "sqs_Message \<Rightarrow> sqs_PublishOpt list" where
  "sqs_retry_opts msg =
     sqs_forward_opts (SetStringAttribute (sqs_SanitizeForRepublish msg) HeaderRetryCount
       (itoa (sqs_RetryCount (Some msg))))"

definition sqs_retry_handler :: "sqs_env \<Rightarrow> string \<Rightarrow> sqs_handler" where
  "sqs_retry_handler env mainQueueURL h msg = sqs_Publish env h mainQueueURL (sqs_body msg) (sqs_retry_opts msg)"

definition sqs_retry_urls :: "SQSConsumerConfig \<Rightarrow> string \<times> string" where
  "sqs_retry_urls cfg =
     (let retryQueueURL = destQueueURL (sc_QueueURL cfg) (sc_RetrySuffix cfg) (sc_DLQSuffix cfg) False
      in (retryQueueURL, trim_suffix retryQueueURL (sc_RetrySuffix cfg)))"

definition sqs_ConsumeRetry ::
  "sqs_env \<Rightarrow> SQSConsumerConfig \<Rightarrow> bool \<Rightarrow> nat \<Rightarrow> sqs_history \<Rightarrow> (go_error \<times> sqs_history) option" where
  "sqs_ConsumeRetry env cfg has_heartbeat fuel h =
     (let cfg = defaultsForConsumer cfg;
          (retryQueueURL, mainQueueURL) = sqs_retry_urls cfg
      in sqs_Consume env (sqs_retry_handler env mainQueueURL)
           \<lparr>co_Consumer = cfg\<lparr>sc_QueueURL := retryQueueURL\<rparr>, co_Producer = False,
            co_Heartbeat = has_heartbeat, co_OnDone = False\<rparr> fuel h)"

end
