(* ===== verification/SqsCorrect.thy ===== *)
theory SqsCorrect
  imports SqsConsumer
begin

text \<open>
  Correctness of the SQS consumer: a message is deleted only once it is settled, the loop
  returns when the context is done, and what the defaults and queue names guarantee.
\<close>

section \<open>Reading a history\<close>

fun sent_of :: "sqs_history \<Rightarrow> (SendMessageInput \<times> go_error option) list" where
  "sent_of [] = []"
| "sent_of (Sent q x # t) = (q, x) # sent_of t"
| "sent_of (_ # t) = sent_of t"

fun sqs_handled_of :: "sqs_history \<Rightarrow> (sqs_Message \<times> go_error option) list" where
  "sqs_handled_of [] = []"
| "sqs_handled_of (SqsHandled m x # t) = (m, x) # sqs_handled_of t"
| "sqs_handled_of (_ # t) = sqs_handled_of t"

fun deleted_of :: "sqs_history \<Rightarrow> (string \<times> string) list" where
  "deleted_of [] = []"
| "deleted_of (Deleted url rh x # t) = (url, rh) # deleted_of t"
| "deleted_of (_ # t) = deleted_of t"

lemma sqs_history_append [hist_simps]:
  "sent_of (a @ b) = sent_of a @ sent_of b"
  "sqs_handled_of (a @ b) = sqs_handled_of a @ sqs_handled_of b"
  "deleted_of (a @ b) = deleted_of a @ deleted_of b"
proof -
  show "sent_of (a @ b) = sent_of a @ sent_of b" by (induction a rule: sent_of.induct) auto
  show "sqs_handled_of (a @ b) = sqs_handled_of a @ sqs_handled_of b"
    by (induction a rule: sqs_handled_of.induct) auto
  show "deleted_of (a @ b) = deleted_of a @ deleted_of b" by (induction a rule: deleted_of.induct) auto
qed

lemma deleted_of_mem: "Deleted url rh x \<in> set t \<Longrightarrow> (url, rh) \<in> set (deleted_of t)"
  by (induction t rule: deleted_of.induct) auto

section \<open>Publish attempts\<close>

lemma sqs_Publish_history:
  assumes "sqs_Publish env h dest body opts = (e, h')"
  shows "\<exists>t. h' = h @ t \<and> sqs_handled_of t = [] \<and> deleted_of t = []
    \<and> (\<forall>(q, x) \<in> set (sent_of t). \<exists>h1. q = sqs_publish_input env h1 dest body (sqs_publish_config opts))
    \<and> (e = None \<longleftrightarrow> (\<exists>q. (q, None) \<in> set (sent_of t)))"
  using assms by (auto simp: sqs_Publish_def Let_def split: if_splits)

lemma sqs_attempts_history:
  assumes "sqs_publish_attempts env dest body opts ds lastErr h = (e, h')"
    and "ds \<noteq> [] \<or> lastErr \<noteq> None"
  shows "\<exists>t. h' = h @ t \<and> sqs_handled_of t = [] \<and> deleted_of t = []
    \<and> (\<forall>(q, x) \<in> set (sent_of t). \<exists>h1. q = sqs_publish_input env h1 dest body (sqs_publish_config opts))
    \<and> (e = None \<longleftrightarrow> (\<exists>q. (q, None) \<in> set (sent_of t)))"
  using assms
proof (induction ds arbitrary: lastErr h)
  case Nil
  then show ?case by auto
next
  case (Cons d ds)
  obtain e1 h1 where pub: "sqs_Publish env h dest body opts = (e1, h1)" by fastforce
  from sqs_Publish_history [OF this] obtain t1 where t1: "h1 = h @ t1" "sqs_handled_of t1 = []" "deleted_of t1 = []"
    "\<forall>(q, x) \<in> set (sent_of t1). \<exists>h1. q = sqs_publish_input env h1 dest body (sqs_publish_config opts)"
    "e1 = None \<longleftrightarrow> (\<exists>q. (q, None) \<in> set (sent_of t1))" by blast
  show ?case
  proof (cases "e1 = None \<or> sqs_ctx_err env h1 \<noteq> None")
    case True
    with Cons.prems(1) pub have "e = e1" "h' = h1" by (auto split: option.splits)
    with t1 show ?thesis by blast
  next
    case False
    then obtain x where x: "e1 = Some x" by auto
    with False Cons.prems(1) pub
    have "sqs_publish_attempts env dest body opts ds (Some x) (h1 @ [SqsSlept d]) = (e, h')" by auto
    from Cons.IH [OF this] obtain t where t: "h' = (h1 @ [SqsSlept d]) @ t" "sqs_handled_of t = []" "deleted_of t = []"
      "\<forall>(q, x) \<in> set (sent_of t). \<exists>h1. q = sqs_publish_input env h1 dest body (sqs_publish_config opts)"
      "e = None \<longleftrightarrow> (\<exists>q. (q, None) \<in> set (sent_of t))" by auto
    let ?t = "t1 @ [SqsSlept d] @ t"
    have "h' = h @ ?t" using t(1) t1(1) by simp
    with t t1 x show ?thesis by (intro exI [of _ ?t]) (auto simp: hist_simps)
  qed
qed

lemma sqs_republish_history:
  assumes "sqs_republish env hp msg dest err cfg toDLQ h = (e, h')"
  shows "\<exists>t. h' = h @ t \<and> sqs_handled_of t = [] \<and> deleted_of t = []
    \<and> (\<forall>(q, x) \<in> set (sent_of t). \<exists>h1. q = sqs_publish_input env h1 dest (sqs_republish_body msg cfg toDLQ)
          (sqs_publish_config (sqs_republish_opts msg err cfg toDLQ)))
    \<and> (e = None \<longleftrightarrow> (\<exists>q. (q, None) \<in> set (sent_of t)))"
proof (cases hp)
  case False
  with assms show ?thesis by (auto simp: sqs_republish_def)
next
  case True
  with assms have "sqs_publish_attempts env dest (sqs_republish_body msg cfg toDLQ)
      (sqs_republish_opts msg err cfg toDLQ) sqs_republish_backoff None h = (e, h')"
    by (simp add: sqs_republish_def)
  from sqs_attempts_history [OF this] show ?thesis by (simp add: sqs_republish_backoff_def)
qed

section \<open>One message\<close>

definition sqs_handler_ok :: "sqs_handler \<Rightarrow> bool" where
  "sqs_handler_ok handle \<longleftrightarrow>
     (\<forall>h m. \<exists>t. snd (handle h m) = h @ t \<and> sqs_handled_of t = [] \<and> deleted_of t = [])"

text \<open>
  \<open>sqs_settled cfg t m\<close>: in \<open>t\<close> the handler accepted \<open>m\<close>, or it failed without the context
  being cancelled and the broker accepted a message with the body of \<open>m\<close> on the retry queue
  or, when the error is permanent or the retries are used up, on the dead-letter queue.
\<close>

definition sqs_routed :: "SQSConsumerConfig \<Rightarrow> sqs_Message \<Rightarrow> bool \<Rightarrow> SendMessageInput \<Rightarrow> bool" where
  "sqs_routed cfg m toDLQ q \<longleftrightarrow>
     in_QueueUrl q = destQueueURL (sc_QueueURL cfg) (sc_RetrySuffix cfg) (sc_DLQSuffix cfg) toDLQ
     \<and> in_MessageBody q = (if toDLQ \<and> int (length (sqs_body m)) > sc_DLQMaxPayloadBytes cfg
           then take (nat (sc_DLQMaxPayloadBytes cfg)) (sqs_body m) else sqs_body m)"

definition sqs_settled :: "SQSConsumerConfig \<Rightarrow> sqs_history \<Rightarrow> sqs_Message \<Rightarrow> bool" where
  "sqs_settled cfg t m \<longleftrightarrow>
     (m, None) \<in> set (sqs_handled_of t)
     \<or> (\<exists>e toDLQ q. (m, Some e) \<in> set (sqs_handled_of t) \<and> \<not> errors_is e ContextCanceled
          \<and> toDLQ = (errors_is e SqsErrNonRetryable \<or> sc_MaxRetries cfg \<le> sqs_RetryCount (Some m))
          \<and> (q, None) \<in> set (sent_of t) \<and> sqs_routed cfg m toDLQ q)"

lemma sqs_settled_mono: "sqs_settled cfg t m \<Longrightarrow> sqs_settled cfg (a @ t @ b) m"
  unfolding sqs_settled_def sqs_history_append by auto

lemma deleteMessage_history:
  "deleteMessage env url m h =
     h @ (case msg_ReceiptHandle m of None \<Rightarrow> [] | Some rh \<Rightarrow> [Deleted url rh (delete_message env h url rh)])"
  by (simp add: deleteMessage_def split: option.splits)

lemma sqs_publish_input_fields [simp]:
  "in_QueueUrl (sqs_publish_input env h url body cfg) = url"
  "in_MessageBody (sqs_publish_input env h url body cfg) = body"
  "in_DelaySeconds (sqs_publish_input env h url body cfg) = delay_seconds (sp_delay cfg)"
  by (simp_all add: sqs_publish_input_def Let_def)

text \<open>
  What \<open>processMessage\<close> does: the handler's outcome, then what it takes to settle the message,
  then - exactly when it is settled - the delete.
\<close>

text \<open>A republish settles the message its handler failed on exactly if it succeeds.\<close>

lemma sqs_republish_settles:
  assumes "sqs_republish env hp m (destQueueURL (sc_QueueURL cfg) (sc_RetrySuffix cfg) (sc_DLQSuffix cfg) toDLQ) (Some e) cfg toDLQ
      (h @ [SqsHandled m (Some e)]) = (perr, h')"
    and "toDLQ = (errors_is e SqsErrNonRetryable \<or> sc_MaxRetries cfg \<le> sqs_RetryCount (Some m))"
    and "\<not> errors_is e ContextCanceled"
  shows "\<exists>t. h' = h @ t \<and> sqs_handled_of t = [(m, Some e)] \<and> deleted_of t = [] \<and> (sqs_settled cfg t m \<longleftrightarrow> perr = None)"
proof -
  let ?dest = "destQueueURL (sc_QueueURL cfg) (sc_RetrySuffix cfg) (sc_DLQSuffix cfg) toDLQ"
  from sqs_republish_history [OF assms(1)] obtain t2 where t2: "h' = (h @ [SqsHandled m (Some e)]) @ t2"
    "sqs_handled_of t2 = []" "deleted_of t2 = []"
    "\<And>q x. (q, x) \<in> set (sent_of t2) \<Longrightarrow> \<exists>h1. q = sqs_publish_input env h1 ?dest (sqs_republish_body m cfg toDLQ)
        (sqs_publish_config (sqs_republish_opts m (Some e) cfg toDLQ))"
    "perr = None \<longleftrightarrow> (\<exists>q. (q, None) \<in> set (sent_of t2))" by blast
  have q: "in_QueueUrl q = ?dest \<and> in_MessageBody q = sqs_republish_body m cfg toDLQ" if "(q, x) \<in> set (sent_of t2)" for q x
    using t2(4) [OF that] by auto
  have "sqs_settled cfg (SqsHandled m (Some e) # t2) m \<longleftrightarrow> perr = None"
    unfolding sqs_settled_def t2(5) using q assms(2,3) t2(2) by (auto simp: sqs_routed_def sqs_republish_body_def Let_def)
  with t2(1-3) show ?thesis by (intro exI [of _ "SqsHandled m (Some e) # t2"]) simp
qed

lemma processMessage_history:
  assumes "sqs_handler_ok handle"
  shows "\<exists>t0 t d err. processMessage env handle hp cfg m h = h @ t0 @ t @ d
    \<and> sqs_handled_of t0 = [] \<and> deleted_of t0 = []
    \<and> sqs_handled_of t = [(m, err)] \<and> deleted_of t = []
    \<and> d = (if sqs_settled cfg t m
         then (case msg_ReceiptHandle m of None \<Rightarrow> []
           | Some rh \<Rightarrow> [Deleted (sc_QueueURL cfg) rh (delete_message env (h @ t0 @ t) (sc_QueueURL cfg) rh)]) else [])"
proof -
  obtain err h1 where handle: "handle h m = (err, h1)" by fastforce
  then obtain t0 where t0: "h1 = h @ t0" "sqs_handled_of t0 = []" "deleted_of t0 = []"
    using assms unfolding sqs_handler_ok_def by (metis snd_conv)
  define del where "del h = (case msg_ReceiptHandle m of None \<Rightarrow> []
    | Some rh \<Rightarrow> [Deleted (sc_QueueURL cfg) rh (delete_message env h (sc_QueueURL cfg) rh)])" for h
  have del: "deleteMessage env (sc_QueueURL cfg) m h = h @ del h" for h
    by (simp add: deleteMessage_history del_def)
  have "\<exists>t. processMessage env handle hp cfg m h = h @ t0 @ t @ (if sqs_settled cfg t m then del (h @ t0 @ t) else [])
    \<and> sqs_handled_of t = [(m, err)] \<and> deleted_of t = []"
  proof -
    consider "err = None" | e where "err = Some e" "errors_is e ContextCanceled"
      | e where "err = Some e" "\<not> errors_is e ContextCanceled" by (cases err) auto
    then show ?thesis
    proof cases
      case 3
      define toDLQ where "toDLQ = (errors_is e SqsErrNonRetryable \<or> sc_MaxRetries cfg \<le> sqs_RetryCount (Some m))"
      let ?dest = "destQueueURL (sc_QueueURL cfg) (sc_RetrySuffix cfg) (sc_DLQSuffix cfg) toDLQ"
      obtain perr h2 where rep: "sqs_republish env hp m ?dest (Some e) cfg toDLQ ((h @ t0) @ [SqsHandled m (Some e)]) = (perr, h2)"
        by fastforce
      have "sqs_decideRoute err (sqs_RetryCount (Some m)) (sc_MaxRetries cfg) = (if toDLQ then SqsRouteDLQ else SqsRouteRetry)"
        using 3 by (simp add: toDLQ_def)
      then have pm: "processMessage env handle hp cfg m h = (if perr \<noteq> None then h2 else h2 @ del h2)"
        using handle t0 rep 3 by (simp add: processMessage_def Let_def del split: if_splits)
      from sqs_republish_settles [OF rep toDLQ_def 3(2)] pm 3(1) show ?thesis by fastforce
    qed (use handle t0 in \<open>auto intro!: exI [of _ "[SqsHandled m err]"] simp: sqs_settled_def processMessage_def Let_def del\<close>)
  qed
  then show ?thesis unfolding del_def using t0 by blast
qed

section \<open>Runs of the loop\<close>

text \<open>Every delete in a history comes after what settles its message.\<close>

definition deletes_settled :: "SQSConsumerConfig \<Rightarrow> sqs_history \<Rightarrow> bool" where
  "deletes_settled cfg t \<longleftrightarrow>
     (\<forall>i < length t. \<forall>url rh x. t ! i = Deleted url rh x \<longrightarrow>
        url = sc_QueueURL cfg \<and> (\<exists>m. msg_ReceiptHandle m = Some rh \<and> sqs_settled cfg (take i t) m))"

lemma deletes_settled_append:
  assumes "deletes_settled cfg a" "deletes_settled cfg b"
  shows "deletes_settled cfg (a @ b)"
  unfolding deletes_settled_def
proof (intro allI impI)
  fix i url rh x
  assume i: "i < length (a @ b)" "(a @ b) ! i = Deleted url rh x"
  show "url = sc_QueueURL cfg \<and> (\<exists>m. msg_ReceiptHandle m = Some rh \<and> sqs_settled cfg (take i (a @ b)) m)"
  proof (cases "i < length a")
    case True
    with i assms(1) show ?thesis by (auto simp: deletes_settled_def nth_append)
  next
    case False
    with i have "i - length a < length b" "b ! (i - length a) = Deleted url rh x" by (auto simp: nth_append)
    with assms(2) obtain m where "url = sc_QueueURL cfg" "msg_ReceiptHandle m = Some rh"
      "sqs_settled cfg (take (i - length a) b) m"
      unfolding deletes_settled_def by blast
    with False show ?thesis using sqs_settled_mono [of cfg "take (i - length a) b" m a "[]"] by auto
  qed
qed

lemma deletes_settled_none: "deleted_of t = [] \<Longrightarrow> deletes_settled cfg t"
  unfolding deletes_settled_def by (metis deleted_of_mem empty_iff list.set(1) nth_mem)

lemma processMessage_settled:
  assumes "sqs_handler_ok handle"
  shows "\<exists>t. processMessage env handle hp cfg m h = h @ t \<and> t \<noteq> [] \<and> deletes_settled cfg t"
proof -
  from processMessage_history [OF assms, of env hp cfg m h] obtain t0 t d err where
    t: "processMessage env handle hp cfg m h = h @ t0 @ t @ d" "deleted_of t0 = []" "deleted_of t = []"
    "sqs_handled_of t = [(m, err)]"
    "d = (if sqs_settled cfg t m
         then (case msg_ReceiptHandle m of None \<Rightarrow> []
           | Some rh \<Rightarrow> [Deleted (sc_QueueURL cfg) rh (delete_message env (h @ t0 @ t) (sc_QueueURL cfg) rh)]) else [])"
    by blast
  have ne: "t \<noteq> []" using t(4) by auto
  have "deletes_settled cfg (t @ d)"
    using t(3,5) deletes_settled_none [of t cfg]
    by (auto simp: deletes_settled_def nth_append split: option.splits if_splits)
  then have "deletes_settled cfg (t0 @ t @ d)"
    using deletes_settled_none [OF t(2)] deletes_settled_append by blast
  with t(1) ne show ?thesis by blast
qed

lemma process_batch_settled:
  assumes "sqs_handler_ok handle"
  shows "\<exists>t. (case sqs_process_batch env handle hp cfg ms h of Inl (e, h') \<Rightarrow> h' = h @ t \<and> sqs_ctx_err env h' = Some e | Inr h' \<Rightarrow> h' = h @ t)
    \<and> deletes_settled cfg t"
proof (induction ms arbitrary: h)
  case Nil
  show ?case by (intro exI [of _ "[]"]) (simp add: deletes_settled_def)
next
  case (Cons m ms)
  from processMessage_settled [OF assms, of env hp cfg m h] obtain t1 where
    t1: "processMessage env handle hp cfg m h = h @ t1" "deletes_settled cfg t1" by blast
  show ?case
  proof (cases "sqs_ctx_err env (h @ t1)")
    case (Some e)
    with t1 show ?thesis by (intro exI [of _ t1]) simp
  next
    case None
    from Cons.IH [of "h @ t1"] obtain t2 where t2:
      "case sqs_process_batch env handle hp cfg ms (h @ t1) of Inl (e, h') \<Rightarrow> h' = (h @ t1) @ t2 \<and> sqs_ctx_err env h' = Some e
        | Inr h' \<Rightarrow> h' = (h @ t1) @ t2" "deletes_settled cfg t2" by blast
    then show ?thesis
      using t1 None deletes_settled_append [OF t1(2) t2(2)]
      by (intro exI [of _ "t1 @ t2"]) (auto split: sum.splits)
  qed
qed

text \<open>The outcome of a turn, returning or not, and what it did.\<close>

lemma consume_turn_settled:
  assumes "sqs_handler_ok handle"
  shows "case sqs_consume_turn env handle hp hb cfg h of
      Inl (e, h') \<Rightarrow> (\<exists>t. h' = h @ t \<and> deletes_settled cfg t)
        \<and> (sqs_ctx_err env h' = Some e \<or> errors_is e ContextCanceled \<or> (\<exists>h1. sqs_wait env h1 second = Some e))
    | Inr h' \<Rightarrow> \<exists>t. h' = h @ t \<and> t \<noteq> [] \<and> deletes_settled cfg t"
proof (cases "sqs_ctx_err env h")
  case (Some e)
  then show ?thesis by (auto simp: sqs_consume_turn_def intro!: exI [of _ "[]"] deletes_settled_none)
next
  case None
  let ?inp = "sqs_receive_input cfg"
  show ?thesis
  proof (cases "receive_message env h ?inp")
    case (Inl err)
    have n: "deletes_settled cfg [Received ?inp (Some err)]"
      "deletes_settled cfg [Received ?inp (Some err), SqsWaited second w]" for w
      by (auto intro!: deletes_settled_none)
    show ?thesis using None Inl n by (auto simp: sqs_consume_turn_def Let_def split: option.splits)
  next
    case (Inr ms)
    let ?b = "Received ?inp None # (if hb then [SqsHeartbeat] else [])"
    have turn: "sqs_consume_turn env handle hp hb cfg h = sqs_process_batch env handle hp cfg ms (h @ ?b)"
      using None Inr by (simp add: sqs_consume_turn_def Let_def)
    from process_batch_settled [OF assms, where env = env and hp = hp and cfg = cfg and ms = ms and h = "h @ ?b"] obtain t where
      t: "case sqs_process_batch env handle hp cfg ms (h @ ?b) of Inl (e, h') \<Rightarrow> h' = (h @ ?b) @ t \<and> sqs_ctx_err env h' = Some e
        | Inr h' \<Rightarrow> h' = (h @ ?b) @ t" "deletes_settled cfg t" by blast
    have "deletes_settled cfg (?b @ t)"
      by (intro deletes_settled_append t(2) deletes_settled_none) simp
    with t(1) show ?thesis
      unfolding turn by (auto split: sum.splits intro!: exI [of _ "?b @ t"])
  qed
qed

inductive sqs_runs ::
  "sqs_env \<Rightarrow> sqs_handler \<Rightarrow> bool \<Rightarrow> bool \<Rightarrow> SQSConsumerConfig \<Rightarrow> sqs_history \<Rightarrow> sqs_history \<Rightarrow> bool"
  for env handle hp hb cfg h0 where
  start: "sqs_runs env handle hp hb cfg h0 h0"
| turn: "sqs_runs env handle hp hb cfg h0 h \<Longrightarrow> sqs_consume_turn env handle hp hb cfg h = Inr h' \<Longrightarrow>
     sqs_runs env handle hp hb cfg h0 h'"
| return: "sqs_runs env handle hp hb cfg h0 h \<Longrightarrow> sqs_consume_turn env handle hp hb cfg h = Inl (e, h') \<Longrightarrow>
     sqs_runs env handle hp hb cfg h0 h'"

lemma sqs_runs_settled:
  assumes "sqs_runs env handle hp hb cfg h0 h" "sqs_handler_ok handle"
  shows "\<exists>t. h = h0 @ t \<and> deletes_settled cfg t"
  using assms(1)
proof (induction rule: sqs_runs.induct)
  case start
  then show ?case by (intro exI [of _ "[]"]) (simp add: deletes_settled_def)
next
  case (turn h h')
  with consume_turn_settled [OF assms(2), where env = env and hp = hp and hb = hb and cfg = cfg and h = h] obtain t1 t2
    where "h = h0 @ t1" "deletes_settled cfg t1" "h' = h @ t2" "deletes_settled cfg t2" by auto
  then show ?case using deletes_settled_append [of cfg t1 t2] by (intro exI [of _ "t1 @ t2"]) simp
next
  case (return h e h')
  with consume_turn_settled [OF assms(2), where env = env and hp = hp and hb = hb and cfg = cfg and h = h] obtain t1 t2
    where "h = h0 @ t1" "deletes_settled cfg t1" "h' = h @ t2" "deletes_settled cfg t2" by auto
  then show ?case using deletes_settled_append [of cfg t1 t2] by (intro exI [of _ "t1 @ t2"]) simp
qed

text \<open>
  C2: no message is lost by a delete. However the queue, the handler and the context behave,
  however many polls the loop has made and whether or not it has returned, every delete goes to
  the consumer's own queue and comes after the point where the message with that receipt handle
  was settled: its handler succeeded, or failed without the context being cancelled and
  the broker accepted it on the retry queue, its body whole, or on the dead-letter queue,
  its body cut to the configured size where it is longer, and the latter exactly when the error
  was permanent or the retries were used up.
\<close>

theorem sqs_delete_settled:
  assumes "sqs_runs env handle hp hb cfg h0 h" "sqs_handler_ok handle"
  shows "\<exists>t. h = h0 @ t
    \<and> (\<forall>i < length t. \<forall>url rh x. t ! i = Deleted url rh x \<longrightarrow>
         url = sc_QueueURL cfg \<and> (\<exists>m. msg_ReceiptHandle m = Some rh \<and> sqs_settled cfg (take i t) m))"
  using sqs_runs_settled [OF assms] by (simp add: deletes_settled_def)

text \<open>
  C37: one message, completely. \<open>processMessage\<close> hands the message to the handler once and then
  deletes it, once and last, if it has a receipt handle and is settled; if its handler was
  cancelled or its republish failed it is not deleted.
\<close>

theorem sqs_process_message_spec:
  assumes "sqs_handler_ok handle" "msg_ReceiptHandle m = Some rh"
  shows "\<exists>t0 t. sqs_handled_of t0 = [] \<and> deleted_of t0 = [] \<and> deleted_of t = []
    \<and> (\<exists>err. sqs_handled_of t = [(m, err)])
    \<and> processMessage env handle hp cfg m h = h @ t0 @ t @
        (if sqs_settled cfg t m
         then [Deleted (sc_QueueURL cfg) rh (delete_message env (h @ t0 @ t) (sc_QueueURL cfg) rh)] else [])"
  using processMessage_history [OF assms(1), of env hp cfg m h] assms(2) by fastforce

section \<open>The loop returns\<close>

lemma sqs_loop_return:
  assumes "sqs_handler_ok handle"
  shows "sqs_consume_loop env handle hp hb cfg fuel h = Some (e, h') \<Longrightarrow>
     (\<exists>t. h' = h @ t) \<and>
     (sqs_ctx_err env h' = Some e \<or> errors_is e ContextCanceled \<or> (\<exists>h1. sqs_wait env h1 second = Some e))"
proof (induction fuel arbitrary: h)
  case (Suc fuel)
  show ?case
  proof (cases "sqs_consume_turn env handle hp hb cfg h")
    case (Inl r)
    with Suc.prems consume_turn_settled [OF assms, where env = env and hp = hp and hb = hb and cfg = cfg and h = h] show ?thesis by auto
  next
    case (Inr h1)
    with Suc.prems Suc.IH [of h1] consume_turn_settled [OF assms, where env = env and hp = hp and hb = hb and cfg = cfg and h = h] show ?thesis by auto
  qed
qed simp

lemma sqs_loop_enough:
  assumes "sqs_handler_ok handle" "\<And>h. N \<le> length h \<Longrightarrow> sqs_ctx_err env h \<noteq> None" "N \<le> length h + fuel"
  shows "sqs_consume_loop env handle hp hb cfg (Suc fuel) h \<noteq> None"
  using assms(3)
proof (induction fuel arbitrary: h)
  case 0
  with assms(2) [of h] show ?case by (auto simp: sqs_consume_turn_def)
next
  case (Suc fuel)
  show ?case
  proof (cases "sqs_consume_turn env handle hp hb cfg h")
    case (Inr h1)
    then obtain t where "h1 = h @ t" "t \<noteq> []"
      using consume_turn_settled [OF assms(1), where env = env and hp = hp and hb = hb and cfg = cfg and h = h] by auto
    then have "length h + 1 \<le> length h1" by (cases t) auto
    with Suc.prems have "N \<le> length h1 + fuel" by simp
    then show ?thesis using Suc.IH [of h1] Inr by simp
  qed simp
qed

text \<open>
  Once the context is done, \<open>Consume\<close> returns, with the context's error or a cancellation,
  and \<open>OnDone\<close>, when set, is called last: if the context is done at every history of at least
  \<open>N\<close> events, \<open>N + 1\<close> polls are enough.
\<close>

theorem sqs_consume_returns:
  assumes "sqs_handler_ok handle" "\<forall>h. N \<le> length h \<longrightarrow> sqs_ctx_err env h \<noteq> None"
    and "\<forall>h d e. sqs_wait env h d = Some e \<longrightarrow> errors_is e ContextCanceled \<or> errors_is e DeadlineExceeded"
  shows "\<exists>e t. sqs_Consume env handle opts (Suc N) h
      = Some (e, h @ t @ (if co_OnDone opts then [DoneCalled] else []))
    \<and> (sqs_ctx_err env (h @ t) = Some e \<or> errors_is e ContextCanceled \<or> errors_is e DeadlineExceeded)"
proof -
  let ?c = "defaultsForConsumer (co_Consumer opts)"
  have "sqs_consume_loop env handle (co_Producer opts) (co_Heartbeat opts) ?c (Suc N) h \<noteq> None"
    using assms(1,2) by (intro sqs_loop_enough) auto
  then obtain e h' where l: "sqs_consume_loop env handle (co_Producer opts) (co_Heartbeat opts) ?c (Suc N) h = Some (e, h')"
    by auto
  from sqs_loop_return [OF assms(1) this] assms(3) obtain t where
    "h' = h @ t" "sqs_ctx_err env h' = Some e \<or> errors_is e ContextCanceled \<or> errors_is e DeadlineExceeded"
    by blast
  with l show ?thesis by (auto simp: sqs_Consume_def)
qed

section \<open>A concrete run\<close>

text \<open>
  A queue that delivers one good and one bad message at the first poll and accepts everything;
  the context is done after seven events.
\<close>

definition sample_message :: "string \<Rightarrow> sqs_Message" where
  "sample_message b = \<lparr>msg_MessageId = Some ''id'', msg_ReceiptHandle = Some (''rh-'' @ b),
     msg_Body = Some b, msg_Attributes = []\<rparr>"

definition two_message_env :: sqs_env where
  "two_message_env = sample_sqs_env\<lparr>receive_message := \<lambda>h _. Inr (if h = [] then [sample_message ''ok'', sample_message ''bad''] else [])\<rparr>"

definition sample_sqs_handler :: sqs_handler where
  "sample_sqs_handler h m = (if msg_Body m = Some ''bad'' then Some (NewError ''boom'') else None, h)"

definition sample_sqs_cfg :: SQSConsumerConfig where
  "sample_sqs_cfg = \<lparr>sc_QueueURL = ''http://q/1/events'', sc_MaxRetries = 3, sc_RetrySuffix = ''-retry'',
     sc_DLQSuffix = ''-dlq'', sc_VisibilityTimeoutSeconds = 30, sc_WaitTimeSeconds = 20, sc_MaxMessages = 10,
     sc_RetryBackoffBase = 5 * second, sc_RetryBackoffMax = 600 * second, sc_DLQMaxPayloadBytes = 65536\<rparr>"

definition sample_retry_input :: SendMessageInput where
  "sample_retry_input = \<lparr>in_QueueUrl = ''http://q/1/events-retry'', in_MessageBody = ''bad'',
     in_MessageAttributes =
       [(HeaderRetryCount, \<lparr>av_DataType = ''String'', av_StringValue = Some ''1'', av_BinaryValue = None\<rparr>),
        (HeaderIdempotencyKey, \<lparr>av_DataType = ''String'', av_StringValue = Some ''u'', av_BinaryValue = None\<rparr>)],
     in_DelaySeconds = 5\<rparr>"

definition sample_sqs_history :: sqs_history where
  "sample_sqs_history =
     [Received (sqs_receive_input sample_sqs_cfg) None,
      SqsHandled (sample_message ''ok'') None, Deleted ''http://q/1/events'' ''rh-ok'' None,
      SqsHandled (sample_message ''bad'') (Some (NewError ''boom'')), Sent sample_retry_input None,
      Deleted ''http://q/1/events'' ''rh-bad'' None]"

lemma sample_sqs_handler_ok: "sqs_handler_ok sample_sqs_handler"
  by (auto simp: sqs_handler_ok_def sample_sqs_handler_def)

lemma sample_sqs_turn:
  "sqs_consume_turn two_message_env sample_sqs_handler True False sample_sqs_cfg [] = Inr sample_sqs_history"
  by code_simp

theorem sqs_delete_settled_witness:
  "\<exists>m. msg_ReceiptHandle m = Some ''rh-bad'' \<and> sqs_settled sample_sqs_cfg (take 5 sample_sqs_history) m"
proof -
  have "sqs_runs two_message_env sample_sqs_handler True False sample_sqs_cfg [] sample_sqs_history"
    by (rule sqs_runs.turn [OF sqs_runs.start sample_sqs_turn])
  from sqs_delete_settled [OF this sample_sqs_handler_ok]
  have all: "\<forall>i < length sample_sqs_history. \<forall>url rh x. sample_sqs_history ! i = Deleted url rh x \<longrightarrow>
      url = sc_QueueURL sample_sqs_cfg
      \<and> (\<exists>m. msg_ReceiptHandle m = Some rh \<and> sqs_settled sample_sqs_cfg (take i sample_sqs_history) m)"
    by auto
  have five: "5 < length sample_sqs_history" "sample_sqs_history ! 5 = Deleted ''http://q/1/events'' ''rh-bad'' None"
    by (simp_all add: sample_sqs_history_def)
  from all [rule_format, OF five] show ?thesis by blast
qed

theorem sqs_process_message_spec_witness:
  "\<exists>t0 t. sqs_handled_of t0 = [] \<and> deleted_of t = []
    \<and> processMessage two_message_env sample_sqs_handler True sample_sqs_cfg (sample_message ''ok'') [] = t0 @ t @
        (if sqs_settled sample_sqs_cfg t (sample_message ''ok'')
         then [Deleted ''http://q/1/events'' ''rh-ok'' None] else [])"
proof -
  have m: "msg_ReceiptHandle (sample_message ''ok'') = Some ''rh-ok''" by (simp add: sample_message_def)
  have d: "delete_message two_message_env h url rh = None" for h url rh
    by (simp add: two_message_env_def sample_sqs_env_def)
  have u: "sc_QueueURL sample_sqs_cfg = ''http://q/1/events''" by (simp add: sample_sqs_cfg_def)
  from sqs_process_message_spec [OF sample_sqs_handler_ok m, of two_message_env True sample_sqs_cfg "[]"]
  obtain t0 t where "sqs_handled_of t0 = [] \<and> deleted_of t = []
    \<and> processMessage two_message_env sample_sqs_handler True sample_sqs_cfg (sample_message ''ok'') [] = t0 @ t @
        (if sqs_settled sample_sqs_cfg t (sample_message ''ok'')
         then [Deleted ''http://q/1/events'' ''rh-ok'' None] else [])"
    unfolding d u append_Nil by blast
  then show ?thesis by blast
qed

theorem sqs_consume_returns_witness:
  "\<exists>e t. sqs_Consume two_message_env sample_sqs_handler
      \<lparr>co_Consumer = sample_sqs_cfg, co_Producer = True, co_Heartbeat = False, co_OnDone = True\<rparr> 8 []
      = Some (e, t @ [DoneCalled])"
  using sqs_consume_returns [OF sample_sqs_handler_ok, of 7 two_message_env
      "\<lparr>co_Consumer = sample_sqs_cfg, co_Producer = True, co_Heartbeat = False, co_OnDone = True\<rparr>" "[]"]
  by (auto simp: two_message_env_def sample_sqs_env_def)

end
