(* ===== verification/SqsRetryFlow.thy ===== *)
theory SqsRetryFlow
  imports SqsCorrect
begin

text \<open>
  A message on its way through the retry queue and back: which queue it goes to, which retry
  count it carries, when the attribute budget stops it, and what the consumer defaults give.
\<close>

section \<open>Queue URLs\<close>

lemma destQueueURL_eq:
  assumes "CHR ''/'' \<notin> set name"
  shows "destQueueURL (p @ CHR ''/'' # name) rs ds toDLQ = p @ CHR ''/'' # trim_suffix name rs @ (if toDLQ then ds else rs)"
  by (simp add: destQueueURL_def last_index_app [OF assms] Let_def)

lemma trim_suffix_subset: "set (trim_suffix s t) \<subseteq> set s"
  by (auto simp: trim_suffix_def dest: in_set_takeD)

text \<open>
  Retry and dead-letter queue names do not pile up suffixes: a queue and its retry queue
  have the same retry queue and the same dead-letter queue, the name of the target is the
  trimmed base name with the suffix of the route, and the retry consumer of a queue reads its
  retry queue and writes back to the queue itself.
\<close>

theorem sqs_queue_names:
  assumes "CHR ''/'' \<notin> set name" "CHR ''/'' \<notin> set rs" "CHR ''/'' \<notin> set ds"
    and "url = p @ CHR ''/'' # name"
  shows "destQueueURL (destQueueURL url rs ds False) rs ds toDLQ = destQueueURL url rs ds toDLQ
    \<and> QueueName (destQueueURL url rs ds toDLQ) = Inr (trim_suffix name rs @ (if toDLQ then ds else rs))
    \<and> sqs_retry_urls (cfg\<lparr>sc_QueueURL := url, sc_RetrySuffix := rs\<rparr>)
        = (p @ CHR ''/'' # trim_suffix name rs @ rs, p @ CHR ''/'' # trim_suffix name rs)"
proof -
  let ?b = "trim_suffix name rs"
  have b: "CHR ''/'' \<notin> set ?b" using assms(1) trim_suffix_subset by blast
  have "CHR ''/'' \<notin> set (?b @ rs)" using b assms(2) by simp
  then have "destQueueURL (p @ CHR ''/'' # (?b @ rs)) rs ds toDLQ = p @ CHR ''/'' # ?b @ (if toDLQ then ds else rs)"
    unfolding destQueueURL_eq [OF \<open>CHR ''/'' \<notin> set (?b @ rs)\<close>] by (simp only: trim_suffix_append)
  moreover have "QueueName (p @ CHR ''/'' # (?b @ (if toDLQ then ds else rs))) = Inr (?b @ (if toDLQ then ds else rs))"
    using b assms(2,3) by (intro QueueName_slash) auto
  moreover have "trim_suffix (p @ CHR ''/'' # ?b @ rs) rs = p @ CHR ''/'' # ?b"
    using trim_suffix_append [of "p @ CHR ''/'' # ?b" rs] by simp
  ultimately show ?thesis
    by (simp add: assms(4) destQueueURL_eq [OF assms(1)] sqs_retry_urls_def)
qed

theorem sqs_queue_names_witness:
  "destQueueURL (destQueueURL ''http://q/1/events'' ''-retry'' ''-dlq'' False) ''-retry'' ''-dlq'' True
     = destQueueURL ''http://q/1/events'' ''-retry'' ''-dlq'' True
   \<and> QueueName (destQueueURL ''http://q/1/events'' ''-retry'' ''-dlq'' True) = Inr ''events-dlq''"
  using sqs_queue_names [of "''events''" "''-retry''" "''-dlq''" "''http://q/1/events''" "''http://q/1''" True]
  by (simp add: trim_suffix_def has_suffix_def)

section \<open>Defaults\<close>

lemma update_if:
  "(if b then c\<lparr>sc_MaxRetries := v\<rparr> else c) = c\<lparr>sc_MaxRetries := if b then v else sc_MaxRetries c\<rparr>"
  "(if b then c\<lparr>sc_RetrySuffix := s\<rparr> else c) = c\<lparr>sc_RetrySuffix := if b then s else sc_RetrySuffix c\<rparr>"
  "(if b then c\<lparr>sc_DLQSuffix := s\<rparr> else c) = c\<lparr>sc_DLQSuffix := if b then s else sc_DLQSuffix c\<rparr>"
  "(if b then c\<lparr>sc_VisibilityTimeoutSeconds := v\<rparr> else c)
     = c\<lparr>sc_VisibilityTimeoutSeconds := if b then v else sc_VisibilityTimeoutSeconds c\<rparr>"
  "(if b then c\<lparr>sc_WaitTimeSeconds := v\<rparr> else c) = c\<lparr>sc_WaitTimeSeconds := if b then v else sc_WaitTimeSeconds c\<rparr>"
  "(if b then c\<lparr>sc_MaxMessages := v\<rparr> else c) = c\<lparr>sc_MaxMessages := if b then v else sc_MaxMessages c\<rparr>"
  "(if b then c\<lparr>sc_DLQMaxPayloadBytes := v\<rparr> else c)
     = c\<lparr>sc_DLQMaxPayloadBytes := if b then v else sc_DLQMaxPayloadBytes c\<rparr>"
  "(if b then c\<lparr>sc_RetryBackoffBase := v\<rparr> else c) = c\<lparr>sc_RetryBackoffBase := if b then v else sc_RetryBackoffBase c\<rparr>"
  "(if b then c\<lparr>sc_RetryBackoffMax := v\<rparr> else c) = c\<lparr>sc_RetryBackoffMax := if b then v else sc_RetryBackoffMax c\<rparr>"
  by simp_all

lemma defaults_fields:
  "sc_QueueURL (defaultsForConsumer c) = sc_QueueURL c"
  "sc_MaxRetries (defaultsForConsumer c) = (if sc_MaxRetries c \<le> 0 then 3 else sc_MaxRetries c)"
  "sc_RetrySuffix (defaultsForConsumer c) = (if sc_RetrySuffix c = [] then ''-retry'' else sc_RetrySuffix c)"
  "sc_DLQSuffix (defaultsForConsumer c) = (if sc_DLQSuffix c = [] then ''-dlq'' else sc_DLQSuffix c)"
  "sc_VisibilityTimeoutSeconds (defaultsForConsumer c)
     = (if sc_VisibilityTimeoutSeconds c \<le> 0 then 30 else sc_VisibilityTimeoutSeconds c)"
  "sc_WaitTimeSeconds (defaultsForConsumer c) = (if sc_WaitTimeSeconds c \<le> 0 then 20 else sc_WaitTimeSeconds c)"
  "sc_MaxMessages (defaultsForConsumer c)
     = (if sc_MaxMessages c \<le> 0 \<or> sc_MaxMessages c > 10 then 10 else sc_MaxMessages c)"
  "sc_RetryBackoffBase (defaultsForConsumer c)
     = (if sc_RetryBackoffBase c \<le> 0 then 5 * second else sc_RetryBackoffBase c)"
  "sc_RetryBackoffMax (defaultsForConsumer c)
     = (if sc_RetryBackoffMax c \<le> 0 then SQSMaxDelay else sc_RetryBackoffMax c)"
  "sc_DLQMaxPayloadBytes (defaultsForConsumer c)
     = (if sc_DLQMaxPayloadBytes c \<le> 0 then 65536 else sc_DLQMaxPayloadBytes c)"
  by (simp_all add: defaultsForConsumer_def Let_def update_if cong: if_cong split del: if_split)

lemma defaults_idempotent: "defaultsForConsumer (defaultsForConsumer c) = defaultsForConsumer c"
  by (rule SQSConsumerConfig.equality) (simp_all add: defaults_fields time_units SQSMaxDelay_def)

text \<open>
  The consumer's defaults give a configuration every poll and every routing decision can
  work with, change no setting that was usable already, and applying them again (as the retry
  consumer does) changes nothing.
\<close>

theorem sqs_defaults_spec:
  "defaultsForConsumer (defaultsForConsumer c) = defaultsForConsumer c
   \<and> 0 < sc_MaxRetries (defaultsForConsumer c)
   \<and> sc_RetrySuffix (defaultsForConsumer c) \<noteq> [] \<and> sc_DLQSuffix (defaultsForConsumer c) \<noteq> []
   \<and> 0 < sc_VisibilityTimeoutSeconds (defaultsForConsumer c) \<and> 0 < sc_WaitTimeSeconds (defaultsForConsumer c)
   \<and> sc_MaxMessages (defaultsForConsumer c) \<in> {1..10}
   \<and> 0 < sc_RetryBackoffBase (defaultsForConsumer c) \<and> 0 < sc_RetryBackoffMax (defaultsForConsumer c)
   \<and> 0 < sc_DLQMaxPayloadBytes (defaultsForConsumer c)
   \<and> sc_QueueURL (defaultsForConsumer c) = sc_QueueURL c
   \<and> (0 < sc_MaxRetries c \<longrightarrow> sc_MaxRetries (defaultsForConsumer c) = sc_MaxRetries c)
   \<and> (sc_MaxMessages c \<in> {1..10} \<longrightarrow> sc_MaxMessages (defaultsForConsumer c) = sc_MaxMessages c)
   \<and> (0 < sc_RetryBackoffBase c \<longrightarrow> sc_RetryBackoffBase (defaultsForConsumer c) = sc_RetryBackoffBase c)
   \<and> (sc_RetrySuffix c \<noteq> [] \<longrightarrow> sc_RetrySuffix (defaultsForConsumer c) = sc_RetrySuffix c)"
  by (intro conjI defaults_idempotent) (simp_all add: defaults_fields time_units SQSMaxDelay_def)

theorem sqs_defaults_spec_witness:
  "sc_MaxMessages (defaultsForConsumer (sample_sqs_cfg\<lparr>sc_MaxMessages := 4\<rparr>)) = 4"
  using sqs_defaults_spec [of "sample_sqs_cfg\<lparr>sc_MaxMessages := 4\<rparr>"] by simp

section \<open>Attributes through a publish\<close>

text \<open>What the publish options forward of an attribute map: the string values of the custom keys.\<close>

definition custom_attrs :: "sqs_attrs \<Rightarrow> (string \<times> string) list" where
  "custom_attrs attrs =
     concat (map (\<lambda>(k, v).
         if k = HeaderTraceParent \<or> k = HeaderTraceState \<or> k = HeaderIdempotencyKey then []
         else (case av_StringValue v of Some s \<Rightarrow> [(k, s)] | None \<Rightarrow> [])) attrs)"

lemma forward_opts_map:
  "concat (map (\<lambda>(k, v).
       if k = HeaderTraceParent \<or> k = HeaderTraceState \<or> k = HeaderIdempotencyKey then []
       else (case av_StringValue v of Some s \<Rightarrow> [SqsWithAttribute k s] | None \<Rightarrow> [])) attrs)
   = map (\<lambda>(k, s). SqsWithAttribute k s) (custom_attrs attrs)"
  unfolding custom_attrs_def by (induction attrs) (auto split: option.splits)

lemma custom_attrs_mem:
  "(k, s) \<in> set (custom_attrs attrs) \<longleftrightarrow>
     (\<exists>v. (k, v) \<in> set attrs \<and> av_StringValue v = Some s)
     \<and> k \<noteq> HeaderTraceParent \<and> k \<noteq> HeaderTraceState \<and> k \<noteq> HeaderIdempotencyKey"
  unfolding custom_attrs_def by (auto split: option.splits if_splits) force

lemma custom_attrs_distinct: "distinct (map fst attrs) \<Longrightarrow> distinct (map fst (custom_attrs attrs))"
proof (induction attrs)
  case (Cons a attrs)
  obtain k v where a: "a = (k, v)" by (cases a)
  have "k \<notin> fst ` set (custom_attrs attrs)" using Cons.prems a by (force simp: custom_attrs_mem)
  moreover have "distinct (map fst (custom_attrs attrs))" using Cons by simp
  moreover have "custom_attrs (a # attrs) = (if k = HeaderTraceParent \<or> k = HeaderTraceState \<or> k = HeaderIdempotencyKey then []
      else (case av_StringValue v of Some s \<Rightarrow> [(k, s)] | None \<Rightarrow> [])) @ custom_attrs attrs"
    by (simp add: custom_attrs_def a)
  ultimately show ?case by (auto split: option.splits)
qed (simp add: custom_attrs_def)

lemma fold_with_attributes:
  "distinct (map fst (sp_extraAttrs c @ kvs)) \<Longrightarrow>
     sp_extraAttrs (fold sqs_apply_opt (map (\<lambda>(k, s). SqsWithAttribute k s) kvs) c) = sp_extraAttrs c @ kvs"
proof (induction kvs arbitrary: c)
  case (Cons kv kvs)
  obtain k s where kv: "kv = (k, s)" by (cases kv)
  have "k \<notin> set (map fst (sp_extraAttrs c))" using Cons.prems kv by simp
  then have e: "sp_extraAttrs (sqs_apply_opt (SqsWithAttribute k s) c) = sp_extraAttrs c @ [(k, s)]"
    by (simp add: alist_set_fresh)
  with Cons.prems kv have "distinct (map fst (sp_extraAttrs (sqs_apply_opt (SqsWithAttribute k s) c) @ kvs))" by simp
  from Cons.IH [OF this] e kv show ?case by simp
qed simp

lemma forward_extra:
  assumes "distinct (map fst attrs)" "list_all (\<lambda>opt. \<forall>k v. opt \<noteq> SqsWithAttribute k v) opts"
  shows "sp_extraAttrs (sqs_publish_config (sqs_forward_opts attrs @ opts)) = custom_attrs attrs"
proof -
  have rest: "sp_extraAttrs (fold sqs_apply_opt opts c) = sp_extraAttrs c" for c
    using assms(2)
  proof (induction opts arbitrary: c)
    case (Cons a opts)
    then show ?case by (cases a) auto
  qed simp
  let ?c0 = "\<lparr>sp_idempotencyKey = [], sp_extraAttrs = [], sp_delay = 0, sp_forceSample = False\<rparr>"
  let ?k = "let k = GetStringAttribute attrs HeaderIdempotencyKey in if k \<noteq> [] then [SqsWithIdempotencyKey k] else []"
  let ?c1 = "fold sqs_apply_opt (SqsForceSample # ?k) ?c0"
  have c1: "sp_extraAttrs ?c1 = []" by (simp add: Let_def)
  have "sp_extraAttrs (sqs_publish_config (sqs_forward_opts attrs @ opts)) =
      sp_extraAttrs (fold sqs_apply_opt (map (\<lambda>(k, s). SqsWithAttribute k s) (custom_attrs attrs)) ?c1)"
    by (simp only: sqs_publish_config_def sqs_forward_opts_def forward_opts_map fold_append o_apply rest
        append_Cons fold_Cons append_assoc)
  also have "\<dots> = custom_attrs attrs"
    by (subst fold_with_attributes) (simp_all only: c1 append_Nil custom_attrs_distinct assms(1))
  finally show ?thesis .
qed

text \<open>A retry count written over sanitised attributes is the one the next reader sees.\<close>

lemma published_count:
  assumes "sqs_trace_writes env" "distinct (map fst attrs)" "one_spelling attrs HeaderRetryCount"
    and "list_all (\<lambda>opt. \<forall>k v. opt \<noteq> SqsWithAttribute k v) opts"
  shows "attrCarrier_Get (in_MessageAttributes (sqs_publish_input env h url body
      (sqs_publish_config (sqs_forward_opts (attrCarrier_Set attrs HeaderRetryCount v) @ opts)))) HeaderRetryCount = v"
proof -
  let ?a = "attrCarrier_Set attrs HeaderRetryCount v"
  have d: "distinct (map fst ?a)" unfolding attrCarrier_Set_def using assms(2) by (rule distinct_alist_set)
  have "map_of ?a HeaderRetryCount = Some \<lparr>av_DataType = dataTypeString, av_StringValue = Some v, av_BinaryValue = None\<rparr>"
    by (simp add: attrCarrier_Set_def)
  then have m: "(HeaderRetryCount, v) \<in> set (custom_attrs ?a)"
    by (auto simp: custom_attrs_mem dest!: map_of_SomeD)
  have one: "one_spelling ?a HeaderRetryCount" using assms(3) by (simp add: one_spelling_set)
  have "attrCarrier_Get (fold (\<lambda>(k, v) m. attrCarrier_Set m k v) (custom_attrs ?a) []) HeaderRetryCount = v"
    by (rule sqs_carrier.get_fold_distinct [OF custom_attrs_distinct [OF d] m])
      (use one in \<open>force simp: one_spelling_def custom_attrs_mem\<close>)+
  then show ?thesis
    using forward_extra [OF d assms(4)] by (simp add: publish_input_get [OF assms(1)])
qed

definition sqs_deliver :: "SendMessageInput \<Rightarrow> string \<Rightarrow> string \<Rightarrow> sqs_Message" where
  "sqs_deliver q i rh = \<lparr>msg_MessageId = Some i, msg_ReceiptHandle = Some rh,
     msg_Body = Some (in_MessageBody q), msg_Attributes = in_MessageAttributes q\<rparr>"

lemma republished_count:
  assumes "sqs_trace_writes env" "distinct (map fst (msg_Attributes m))"
  shows "sqs_RetryCount (Some (sqs_deliver (sqs_publish_input env h url body
      (sqs_publish_config (sqs_republish_opts m err cfg False))) i rh)) = 1"
proof -
  let ?tl = "let retryCount = wrap64 (sqs_RetryCount (Some m) + 1);
               delay = sqs_backoffDelay (sc_RetryBackoffBase cfg) (sc_RetryBackoffMax cfg) (wrap64 (retryCount - 1))
           in if delay > 0 then [SqsWithDelay delay] else []"
  have o: "sqs_republish_opts m err cfg False =
      sqs_forward_opts (attrCarrier_Set (sqs_SanitizeForRepublish m) HeaderRetryCount (itoa 1)) @ ?tl"
    by (simp add: sqs_republish_opts_def sqs_republish_attrs_def sanitized_inc Let_def)
  have tl: "list_all (\<lambda>opt. \<forall>k v. opt \<noteq> SqsWithAttribute k v) ?tl" by (simp add: Let_def)
  have "attrCarrier_Get (in_MessageAttributes (sqs_publish_input env h url body
      (sqs_publish_config (sqs_republish_opts m err cfg False)))) HeaderRetryCount = itoa 1"
    unfolding o by (rule published_count [OF assms(1) distinct_sanitized [OF assms(2)] sanitized_one_spelling tl])
  then show ?thesis
    by (simp add: sqs_RetryCount_of [of "sqs_deliver _ _ _"]) (simp add: sqs_deliver_def retry_count_of_itoa int64_range_def)
qed

lemma moved_count:
  assumes "sqs_trace_writes env" "distinct (map fst (msg_Attributes m))"
  shows "sqs_RetryCount (Some (sqs_deliver (sqs_publish_input env h url body
      (sqs_publish_config (sqs_retry_opts m))) i rh)) = sqs_RetryCount (Some m)"
proof -
  have r: "int64_range (sqs_RetryCount (Some m))" "0 \<le> sqs_RetryCount (Some m)"
    using retry_count_of_range [of "attrCarrier_Get (msg_Attributes m) HeaderRetryCount"]
    by (simp_all add: sqs_RetryCount_of int64_range_def)
  have "attrCarrier_Get (in_MessageAttributes (sqs_publish_input env h url body
      (sqs_publish_config (sqs_retry_opts m)))) HeaderRetryCount = itoa (sqs_RetryCount (Some m))"
    using published_count [OF assms(1) distinct_sanitized [OF assms(2)] sanitized_one_spelling, of "[]" h url body]
    by (simp add: sqs_retry_opts_def SetStringAttribute_carrier)
  then show ?thesis
    by (simp add: sqs_RetryCount_of [of "sqs_deliver _ _ _"]) (simp add: sqs_deliver_def retry_count_of_itoa r)
qed

section \<open>A message that always fails\<close>

definition sqs_failing :: "go_error \<Rightarrow> sqs_handler" where
  "sqs_failing e h m = (Some e, h)"

lemma process_failing_republishes:
  assumes "processMessage env (sqs_failing e) hp cfg m h = h @ t" "\<not> errors_is e ContextCanceled"
    and "toDLQ = (errors_is e SqsErrNonRetryable \<or> sc_MaxRetries cfg \<le> sqs_RetryCount (Some m))"
  shows "\<exists>perr t2. sqs_republish env hp m (destQueueURL (sc_QueueURL cfg) (sc_RetrySuffix cfg) (sc_DLQSuffix cfg) toDLQ)
        (Some e) cfg toDLQ (h @ [SqsHandled m (Some e)]) = (perr, h @ [SqsHandled m (Some e)] @ t2)
      \<and> sent_of t = sent_of t2 \<and> (perr \<noteq> None \<longrightarrow> t = SqsHandled m (Some e) # t2)"
proof -
  let ?h1 = "h @ [SqsHandled m (Some e)]"
  let ?dest = "destQueueURL (sc_QueueURL cfg) (sc_RetrySuffix cfg) (sc_DLQSuffix cfg) toDLQ"
  obtain perr h2 where rep: "sqs_republish env hp m ?dest (Some e) cfg toDLQ ?h1 = (perr, h2)" by fastforce
  then obtain t2 where t2: "h2 = ?h1 @ t2" using sqs_republish_history by blast
  have "sqs_decideRoute (Some e) (sqs_RetryCount (Some m)) (sc_MaxRetries cfg) = (if toDLQ then SqsRouteDLQ else SqsRouteRetry)"
    using assms(2,3) by simp
  then have pm: "processMessage env (sqs_failing e) hp cfg m h =
      (if perr \<noteq> None then h2 else deleteMessage env (sc_QueueURL cfg) m h2)"
    using rep by (simp add: processMessage_def sqs_failing_def Let_def split: if_splits)
  obtain d where d: "deleteMessage env (sc_QueueURL cfg) m h2 = h2 @ d" "sent_of d = []"
    by (auto simp: deleteMessage_history split: option.splits)
  show ?thesis
    using rep t2 d pm assms(1)
    by (intro exI [of _ perr] exI [of _ t2]) (auto simp: hist_simps split: if_splits)
qed

lemma process_failing_sent:
  assumes "processMessage env (sqs_failing e) hp cfg m h = h @ t" "(q, x) \<in> set (sent_of t)"
    and "\<not> errors_is e ContextCanceled" "\<not> errors_is e SqsErrNonRetryable" "sqs_RetryCount (Some m) < sc_MaxRetries cfg"
  shows "\<exists>h1. q = sqs_publish_input env h1 (destQueueURL (sc_QueueURL cfg) (sc_RetrySuffix cfg) (sc_DLQSuffix cfg) False)
      (sqs_republish_body m cfg False) (sqs_publish_config (sqs_republish_opts m (Some e) cfg False))"
proof -
  have "False = (errors_is e SqsErrNonRetryable \<or> sc_MaxRetries cfg \<le> sqs_RetryCount (Some m))"
    using assms(4,5) by simp
  from process_failing_republishes [OF assms(1,3) this] obtain perr t2 where
    rep: "sqs_republish env hp m (destQueueURL (sc_QueueURL cfg) (sc_RetrySuffix cfg) (sc_DLQSuffix cfg) False)
        (Some e) cfg False (h @ [SqsHandled m (Some e)]) = (perr, h @ [SqsHandled m (Some e)] @ t2)"
    "sent_of t = sent_of t2" by blast
  from sqs_republish_history [OF rep(1)] obtain t3 where t3: "h @ [SqsHandled m (Some e)] @ t2 = (h @ [SqsHandled m (Some e)]) @ t3"
    "\<forall>(q, x) \<in> set (sent_of t3). \<exists>h1. q = sqs_publish_input env h1
       (destQueueURL (sc_QueueURL cfg) (sc_RetrySuffix cfg) (sc_DLQSuffix cfg) False)
       (sqs_republish_body m cfg False) (sqs_publish_config (sqs_republish_opts m (Some e) cfg False))" by blast
  then have "t3 = t2" by simp
  with t3(2) rep(2) assms(2) show ?thesis by auto
qed

text \<open>
  The deliveries of a message that fails with the same error every time: as it was first
  delivered, or moved to the retry queue by the consumer, received there, moved back by the
  retry consumer's handler, and received again.
\<close>

inductive sqs_redelivered ::
  "sqs_env \<Rightarrow> SQSConsumerConfig \<Rightarrow> string \<Rightarrow> go_error \<Rightarrow> sqs_Message \<Rightarrow> sqs_Message \<Rightarrow> bool"
  for env cfg mainURL e m0 where
  original: "sqs_redelivered env cfg mainURL e m0 m0"
| round_trip: "sqs_redelivered env cfg mainURL e m0 m \<Longrightarrow>
     processMessage env (sqs_failing e) True cfg m h = h @ t \<Longrightarrow> (q, None) \<in> set (sent_of t) \<Longrightarrow>
     sqs_retry_handler env mainURL h2 (sqs_deliver q i1 r1) = (None, h2 @ t2) \<Longrightarrow> (s, None) \<in> set (sent_of t2) \<Longrightarrow>
     sqs_redelivered env cfg mainURL e m0 (sqs_deliver s i2 r2)"

lemma retry_handler_sent:
  assumes "sqs_retry_handler env mainURL h m = (e, h @ t)" "(s, x) \<in> set (sent_of t)"
  shows "\<exists>h1. s = sqs_publish_input env h1 mainURL (sqs_body m) (sqs_publish_config (sqs_retry_opts m))"
proof -
  from sqs_Publish_history [of env h mainURL "sqs_body m" "sqs_retry_opts m" e "h @ t"] assms
  show ?thesis unfolding sqs_retry_handler_def by fastforce
qed

text \<open>
  C38: with a retry budget of two or more, a message whose handler always fails with a
  retryable error is routed to the retry queue on every delivery, for ever: each round trip
  resets its count to 1. It is never routed to the dead-letter queue.
\<close>

theorem sqs_poison_never_dlq:
  assumes "sqs_redelivered env cfg mainURL e m0 m" "sqs_trace_writes env" "distinct (map fst (msg_Attributes m0))"
    and "\<not> errors_is e ContextCanceled" "\<not> errors_is e SqsErrNonRetryable"
    and "2 \<le> sc_MaxRetries cfg" "sqs_RetryCount (Some m0) < sc_MaxRetries cfg"
  shows "sqs_decideRoute (Some e) (sqs_RetryCount (Some m)) (sc_MaxRetries cfg) = SqsRouteRetry
    \<and> (m = m0 \<or> sqs_RetryCount (Some m) = 1)"
proof -
  have "sqs_RetryCount (Some m) < sc_MaxRetries cfg \<and> distinct (map fst (msg_Attributes m))
      \<and> (m = m0 \<or> sqs_RetryCount (Some m) = 1)"
    using assms(1)
  proof (induction rule: sqs_redelivered.induct)
    case original
    show ?case using assms(3,7) by simp
  next
    case (round_trip m h t q h2 i1 r1 t2 s i2 r2)
    then have m: "sqs_RetryCount (Some m) < sc_MaxRetries cfg" "distinct (map fst (msg_Attributes m))" by auto
    from process_failing_sent [OF round_trip.hyps(2,3) assms(4,5) m(1)] obtain h1 where
      q: "q = sqs_publish_input env h1 (destQueueURL (sc_QueueURL cfg) (sc_RetrySuffix cfg) (sc_DLQSuffix cfg) False)
      (sqs_republish_body m cfg False) (sqs_publish_config (sqs_republish_opts m (Some e) cfg False))" by blast
    from retry_handler_sent [OF round_trip.hyps(4,5)] obtain h3 where
      s: "s = sqs_publish_input env h3 mainURL (sqs_body (sqs_deliver q i1 r1)) (sqs_publish_config (sqs_retry_opts (sqs_deliver q i1 r1)))"
      by blast
    have d: "distinct (map fst (msg_Attributes (sqs_deliver q i1 r1)))" "distinct (map fst (msg_Attributes (sqs_deliver s i2 r2)))"
      by (simp_all add: sqs_deliver_def q s publish_input_attrs)
    have "sqs_RetryCount (Some (sqs_deliver s i2 r2)) = sqs_RetryCount (Some (sqs_deliver q i1 r1))"
      unfolding s by (rule moved_count [OF assms(2) d(1)])
    also have "\<dots> = 1" unfolding q by (rule republished_count [OF assms(2) m(2)])
    finally show ?case using d(2) assms(6) by simp
  qed
  then show ?thesis using assms(4,5) by auto
qed

definition no_attr_env :: sqs_env where
  "no_attr_env = sample_sqs_env\<lparr>sqs_ctx_err := \<lambda>_. None\<rparr>"

definition sample_main_input :: SendMessageInput where
  "sample_main_input = sample_retry_input\<lparr>in_QueueUrl := ''http://q/1/events'', in_DelaySeconds := 0\<rparr>"

lemma sample_sqs_trip:
  "sqs_redelivered no_attr_env sample_sqs_cfg ''http://q/1/events'' (NewError ''boom'') (sample_message ''bad'')
     (sqs_deliver sample_main_input ''i'' ''r'')"
proof (rule sqs_redelivered.round_trip [OF sqs_redelivered.original])
  show "processMessage no_attr_env (sqs_failing (NewError ''boom'')) True sample_sqs_cfg (sample_message ''bad'') []
      = [] @ [SqsHandled (sample_message ''bad'') (Some (NewError ''boom'')), Sent sample_retry_input None,
           Deleted ''http://q/1/events'' ''rh-bad'' None]"
    by code_simp
  show "(sample_retry_input, None) \<in> set (sent_of
      [SqsHandled (sample_message ''bad'') (Some (NewError ''boom'')), Sent sample_retry_input None,
           Deleted ''http://q/1/events'' ''rh-bad'' None])" by simp
  show "sqs_retry_handler no_attr_env ''http://q/1/events'' [] (sqs_deliver sample_retry_input ''i'' ''r'')
      = (None, [] @ [Sent sample_main_input None])" by code_simp
  show "(sample_main_input, None) \<in> set (sent_of [Sent sample_main_input None])" by simp
qed

theorem sqs_poison_never_dlq_witness:
  "sqs_decideRoute (Some (NewError ''boom'')) (sqs_RetryCount (Some (sqs_deliver sample_main_input ''i'' ''r''))) 3
     = SqsRouteRetry"
proof -
  have t: "sqs_trace_writes no_attr_env" by (simp add: sqs_trace_writes_def no_attr_env_def sample_sqs_env_def)
  have c: "sc_MaxRetries sample_sqs_cfg = 3" "sqs_RetryCount (Some (sample_message ''bad'')) = 0" by code_simp+
  have d: "distinct (map fst (msg_Attributes (sample_message ''bad'')))" by (simp add: sample_message_def)
  from sqs_poison_never_dlq [OF sample_sqs_trip t d] c show ?thesis by simp
qed

section \<open>The attribute budget\<close>

lemma custom_attrs_set_fresh:
  assumes "k \<notin> fst ` set attrs" "k \<noteq> HeaderTraceParent" "k \<noteq> HeaderTraceState" "k \<noteq> HeaderIdempotencyKey"
  shows "custom_attrs (attrCarrier_Set attrs k v) = custom_attrs attrs @ [(k, v)]"
proof -
  have "attrCarrier_Set attrs k v =
      attrs @ [(k, \<lparr>av_DataType = dataTypeString, av_StringValue = Some v, av_BinaryValue = None\<rparr>)]"
    unfolding attrCarrier_Set_def using assms(1) by (simp add: alist_set_fresh)
  with assms(2-4) show ?thesis by (simp add: custom_attrs_def)
qed

lemma to_lower_reserved:
  "to_lower HeaderRetryCount = HeaderRetryCount" "to_lower HeaderErrorReason = HeaderErrorReason"
  by (simp_all add: header_names ascii_lower_def)

lemma sanitized_fresh:
  "HeaderRetryCount \<notin> fst ` set (sqs_SanitizeForRepublish m)"
  "HeaderErrorReason \<notin> fst ` set (sqs_SanitizeForRepublish m)"
  by (auto simp: sqs_SanitizeForRepublish_def keep_attr_def Let_def to_lower_reserved)

lemma republish_extra:
  assumes "distinct (map fst (msg_Attributes m))"
  shows "length (sp_extraAttrs (sqs_publish_config (sqs_republish_opts m err cfg toDLQ)))
    = Suc (length (custom_attrs (sqs_SanitizeForRepublish m)))"
proof -
  let ?tl = "if \<not> toDLQ then
          (let retryCount = wrap64 (sqs_RetryCount (Some m) + 1);
               delay = sqs_backoffDelay (sc_RetryBackoffBase cfg) (sc_RetryBackoffMax cfg) (wrap64 (retryCount - 1))
           in if delay > 0 then [SqsWithDelay delay] else [])
        else []"
  let ?k = "if toDLQ then HeaderErrorReason else HeaderRetryCount"
  obtain v where a: "sqs_republish_attrs m err toDLQ = attrCarrier_Set (sqs_SanitizeForRepublish m) ?k v"
    by (cases toDLQ) (auto simp: sqs_republish_attrs_def Let_def sanitized_inc sqs_SetErrorReason_def SetStringAttribute_carrier)
  have tl: "list_all (\<lambda>opt. \<forall>k v. opt \<noteq> SqsWithAttribute k v) ?tl" by (simp add: Let_def)
  have "distinct (map fst (attrCarrier_Set (sqs_SanitizeForRepublish m) ?k v))"
    unfolding attrCarrier_Set_def using distinct_sanitized [OF assms] by (rule distinct_alist_set)
  from forward_extra [OF this tl]
  have "sp_extraAttrs (sqs_publish_config (sqs_republish_opts m err cfg toDLQ))
      = custom_attrs (attrCarrier_Set (sqs_SanitizeForRepublish m) ?k v)"
    by (simp only: sqs_republish_opts_def a)
  moreover have "custom_attrs (attrCarrier_Set (sqs_SanitizeForRepublish m) ?k v)
      = custom_attrs (sqs_SanitizeForRepublish m) @ [(?k, v)]"
    by (rule custom_attrs_set_fresh) (simp_all add: sanitized_fresh)
  ultimately show ?thesis by simp
qed

lemma attempts_refused:
  assumes "length (sp_extraAttrs (sqs_publish_config opts)) > 7"
  shows "sqs_publish_attempts env dest body opts ds lastErr h = (e, h') \<Longrightarrow> ds \<noteq> [] \<or> lastErr \<noteq> None \<Longrightarrow>
    e \<noteq> None \<and> (\<exists>t. h' = h @ t \<and> sent_of t = [] \<and> deleted_of t = [])"
proof (induction ds arbitrary: lastErr h)
  case (Cons d ds)
  obtain e1 where pub: "sqs_Publish env h dest body opts = (Some e1, h)"
    using assms by (auto simp: sqs_Publish_def Let_def MaxCustomAttributes_eq)
  show ?case
  proof (cases "sqs_ctx_err env h = None")
    case False
    with Cons.prems pub show ?thesis by auto
  next
    case True
    with Cons.prems pub have "sqs_publish_attempts env dest body opts ds (Some e1) (h @ [SqsSlept d]) = (e, h')" by auto
    from Cons.IH [OF this] obtain t where "e \<noteq> None" "h' = (h @ [SqsSlept d]) @ t" "sent_of t = []" "deleted_of t = []"
      by auto
    then show ?thesis by (intro conjI exI [of _ "SqsSlept d # t"]) auto
  qed
qed auto

text \<open>
  C39: the attribute budget of \<open>Publish\<close> leaves no room for the platform's own retry header.
  A message that carries seven custom string attributes, which is as many as \<open>Publish\<close> lets a
  caller add, can be moved neither to the retry queue nor to the dead-letter queue: when its
  handler fails, nothing is sent and nothing is deleted, whatever the broker would have answered.
\<close>

theorem sqs_full_attributes_stuck:
  assumes "processMessage env (sqs_failing e) hp cfg m h = h @ t" "\<not> errors_is e ContextCanceled"
    and "distinct (map fst (msg_Attributes m))" "7 \<le> length (custom_attrs (sqs_SanitizeForRepublish m))"
  shows "sent_of t = [] \<and> deleted_of t = []"
proof -
  define toDLQ where "toDLQ = (errors_is e SqsErrNonRetryable \<or> sc_MaxRetries cfg \<le> sqs_RetryCount (Some m))"
  let ?dest = "destQueueURL (sc_QueueURL cfg) (sc_RetrySuffix cfg) (sc_DLQSuffix cfg) toDLQ"
  from process_failing_republishes [OF assms(1,2) toDLQ_def] obtain perr t2 where
    rep: "sqs_republish env hp m ?dest (Some e) cfg toDLQ (h @ [SqsHandled m (Some e)]) = (perr, h @ [SqsHandled m (Some e)] @ t2)"
    "sent_of t = sent_of t2" "perr \<noteq> None \<longrightarrow> t = SqsHandled m (Some e) # t2" by blast
  have "perr \<noteq> None \<and> sent_of t2 = [] \<and> deleted_of t2 = []"
  proof (cases hp)
    case False
    with rep(1) show ?thesis by (auto simp: sqs_republish_def)
  next
    case True
    then have "sqs_publish_attempts env ?dest (sqs_republish_body m cfg toDLQ) (sqs_republish_opts m (Some e) cfg toDLQ)
        sqs_republish_backoff None (h @ [SqsHandled m (Some e)]) = (perr, h @ [SqsHandled m (Some e)] @ t2)"
      using rep(1) by (simp add: sqs_republish_def)
    from attempts_refused [OF _ this] assms(4) show ?thesis
      by (auto simp: republish_extra [OF assms(3)] sqs_republish_backoff_def)
  qed
  with rep(2,3) show ?thesis by auto
qed

definition full_message :: sqs_Message where
  "full_message = (sample_message ''bad'')\<lparr>msg_Attributes :=
     map (\<lambda>k. ([k], \<lparr>av_DataType = ''String'', av_StringValue = Some ''v'', av_BinaryValue = None\<rparr>)) ''abcdefg''\<rparr>"

theorem sqs_full_attributes_stuck_witness:
  "sent_of (processMessage no_attr_env (sqs_failing (NewError ''boom'')) True sample_sqs_cfg full_message []) = []"
proof -
  have a: "processMessage no_attr_env (sqs_failing (NewError ''boom'')) True sample_sqs_cfg full_message []
      = [] @ processMessage no_attr_env (sqs_failing (NewError ''boom'')) True sample_sqs_cfg full_message []" by simp
  have d: "distinct (map fst (msg_Attributes full_message))" by (simp add: full_message_def)
  have l: "7 \<le> length (custom_attrs (sqs_SanitizeForRepublish full_message))" by code_simp
  show ?thesis using sqs_full_attributes_stuck [OF a _ d l] by simp
qed

section \<open>The retry consumer\<close>

text \<open>
  The retry consumer never loses a message. It has no producer for its own failures, so it
  sends at most one message, to the main queue, with the body and the retry count of the one it
  received; and it deletes that one exactly when the main queue accepted the copy, whatever error
  the broker answered otherwise.
\<close>

theorem sqs_retry_consumer_keeps:
  assumes "processMessage env (sqs_retry_handler env mainURL) False cfg m h = h @ t"
    and "msg_ReceiptHandle m = Some rh" "sqs_trace_writes env" "distinct (map fst (msg_Attributes m))"
  shows "length (sent_of t) \<le> 1
    \<and> deleted_of t = (if \<exists>q. (q, None) \<in> set (sent_of t) then [(sc_QueueURL cfg, rh)] else [])
    \<and> (\<forall>(q, x) \<in> set (sent_of t). in_QueueUrl q = mainURL \<and> in_MessageBody q = sqs_body m
          \<and> sqs_RetryCount (Some (sqs_deliver q i r)) = sqs_RetryCount (Some m))"
proof -
  let ?q = "sqs_publish_input env h mainURL (sqs_body m) (sqs_publish_config (sqs_retry_opts m))"
  have count: "sqs_RetryCount (Some (sqs_deliver ?q i r)) = sqs_RetryCount (Some m)"
    by (rule moved_count [OF assms(3,4)])
  obtain e h1 where pub: "sqs_Publish env h mainURL (sqs_body m) (sqs_retry_opts m) = (e, h1)" by fastforce
  then have h1: "(e \<noteq> None \<and> h1 = h) \<or> (\<exists>x. h1 = h @ [Sent ?q x] \<and> (e = None \<longleftrightarrow> x = None))"
    by (auto simp: sqs_Publish_def Let_def split: if_splits)
  show ?thesis
  proof (cases e)
    case None
    with h1 have "h1 = h @ [Sent ?q None]" by auto
    with None pub assms(1,2) have "t = [Sent ?q None, SqsHandled m None,
        Deleted (sc_QueueURL cfg) rh (delete_message env (h @ [Sent ?q None, SqsHandled m None]) (sc_QueueURL cfg) rh)]"
      by (simp add: processMessage_def sqs_retry_handler_def Let_def deleteMessage_def)
    then show ?thesis using count by simp
  next
    case (Some x)
    have r: "sqs_republish env False m dest err cfg b h' = (Some (NewError ''sqs: producer not configured for retry/DLQ''), h')"
      for dest err b h' by (simp add: sqs_republish_def)
    have "h1 @ [SqsHandled m (Some x)] = h @ t"
      using assms(1) pub Some r
      by (auto simp: processMessage_def sqs_retry_handler_def Let_def split: if_splits)
    with h1 Some count show ?thesis by auto
  qed
qed

lemma sample_move:
  "processMessage no_attr_env (sqs_retry_handler no_attr_env ''http://q/1/events'') False
     (sample_sqs_cfg\<lparr>sc_QueueURL := ''http://q/1/events-retry''\<rparr>) (sqs_deliver sample_retry_input ''i'' ''r'') []
   = [] @ [Sent sample_main_input None, SqsHandled (sqs_deliver sample_retry_input ''i'' ''r'') None,
        Deleted ''http://q/1/events-retry'' ''r'' None]"
  by code_simp

theorem sqs_retry_consumer_keeps_witness:
  "sqs_RetryCount (Some (sqs_deliver sample_main_input ''j'' ''s'')) = sqs_RetryCount (Some (sqs_deliver sample_retry_input ''i'' ''r''))"
proof -
  have t: "sqs_trace_writes no_attr_env" by (simp add: sqs_trace_writes_def no_attr_env_def sample_sqs_env_def)
  have d: "distinct (map fst (msg_Attributes (sqs_deliver sample_retry_input ''i'' ''r'')))"
    "msg_ReceiptHandle (sqs_deliver sample_retry_input ''i'' ''r'') = Some ''r''"
    by (simp_all add: sqs_deliver_def sample_retry_input_def)
  from sqs_retry_consumer_keeps [OF sample_move d(2) t d(1), of "''j''" "''s''"] show ?thesis by simp
qed

end
