(* ===== verification/Resilience.thy ===== *)
theory Resilience
  imports Prelude
begin

text \<open>
  internal/platform/resilience: the registry of circuit breakers, with its two lock phases as
  separate steps of concurrent callers, the jittered open timeout, and the retry settings. The
  breaker itself (gobreaker) and the retry loop (backoff) are third party: a breaker is the
  settings it was made with and an identity, a retry the options handed to the library.
\<close>

section \<open>Configurations\<close>

record BreakerConfig =
  bk_Name :: string
  bk_MaxRequests :: int
  bk_Interval :: duration
  bk_Timeout :: duration
  bk_FailureThreshold :: int

definition DefaultBreaker :: "string \<Rightarrow> BreakerConfig" where
  "DefaultBreaker name =
     \<lparr>bk_Name = name, bk_MaxRequests = 1, bk_Interval = 60 * second, bk_Timeout = 60 * second, bk_FailureThreshold = 5\<rparr>"

record RetryConfig =
  rt_MaxTries :: int
  rt_InitialInterval :: duration
  rt_MaxInterval :: duration
  rt_MaxElapsedTime :: duration

definition DefaultRetry :: RetryConfig where
  "DefaultRetry =
     \<lparr>rt_MaxTries = 3, rt_InitialInterval = 100 * millisecond, rt_MaxInterval = 2 * second, rt_MaxElapsedTime = 30 * second\<rparr>"

text \<open>
  \<open>Do\<close>: \<open>initial\<close> and \<open>maximal\<close> are the intervals of a fresh exponential backoff; the result is
  what \<open>backoff.Retry\<close> is called with (initial interval, largest interval, tries, elapsed time).
\<close>

definition retry_Do :: "duration \<Rightarrow> duration \<Rightarrow> RetryConfig \<Rightarrow> duration \<times> duration \<times> int \<times> duration" where
  "retry_Do initial maximal cfg =
     (if rt_InitialInterval cfg > 0 then rt_InitialInterval cfg else initial,
      if rt_MaxInterval cfg > 0 then rt_MaxInterval cfg else maximal,
      rt_MaxTries cfg, rt_MaxElapsedTime cfg)"

section \<open>Creating a breaker\<close>

text \<open>The settings handed to gobreaker; \<open>st_trip\<close> is the threshold \<open>ReadyToTrip\<close> compares with.\<close>

record breaker_settings =
  st_Name :: string
  st_MaxRequests :: int
  st_Interval :: duration
  st_Timeout :: duration
  st_trip :: int

text \<open>Go's integer division truncates towards zero.\<close>

definition quot64 :: "int \<Rightarrow> int \<Rightarrow> int" where
  "quot64 a b = sgn a * sgn b * (\<bar>a\<bar> div \<bar>b\<bar>)"

text \<open>\<open>rand n\<close> is \<open>rand.Int63n(n)\<close>, which panics (None here) unless \<open>n\<close> is positive.\<close>

definition breaker_timeout :: "(int \<Rightarrow> int) \<Rightarrow> duration \<Rightarrow> duration option" where
  "breaker_timeout rand timeout =
     (if timeout > 0 then
        (let n = quot64 timeout 5
         in if n \<le> 0 then None
            else let jitter = rand n in Some (wrap64 (timeout - quot64 timeout 10 + jitter)))
      else Some timeout)"

definition new_breaker :: "(int \<Rightarrow> int) \<Rightarrow> BreakerConfig \<Rightarrow> breaker_settings option" where
  "new_breaker rand cfg =
     map_option (\<lambda>timeout.
         \<lparr>st_Name = bk_Name cfg, st_MaxRequests = bk_MaxRequests cfg, st_Interval = bk_Interval cfg,
          st_Timeout = timeout, st_trip = (if bk_FailureThreshold cfg = 0 then 5 else bk_FailureThreshold cfg)\<rparr>)
       (breaker_timeout rand (bk_Timeout cfg))"

definition ready_to_trip :: "breaker_settings \<Rightarrow> int \<Rightarrow> bool" where
  "ready_to_trip s consecutiveFailures = (consecutiveFailures \<ge> st_trip s)"

section \<open>The registry under concurrent callers\<close>

text \<open>
  A breaker pointer is an identity, its result type \<open>T\<close> (here a name) and its settings. A caller
  of \<open>Breaker[T]\<close> first looks under the read lock; if it finds nothing it takes the write lock,
  looks again and creates. Between the two, others may run.
\<close>

record breaker =
  bx_id :: nat
  bx_type :: string
  bx_settings :: breaker_settings

record breaker_Registry =
  br_breakers :: "string \<rightharpoonup> breaker"
  br_next :: nat

definition breaker_NewRegistry :: breaker_Registry where
  "breaker_NewRegistry = \<lparr>br_breakers = Map.empty, br_next = 0\<rparr>"

datatype breaker_caller =
    Calling string BreakerConfig
  | Missed string BreakerConfig
  | Got string BreakerConfig breaker
  | Crashed string BreakerConfig

text \<open>The type assertion \<open>cb.(*CircuitBreaker[T])\<close> panics when the breaker has another type.\<close>

definition assert_type :: "string \<Rightarrow> BreakerConfig \<Rightarrow> breaker \<Rightarrow> breaker_caller" where
  "assert_type t cfg cb = (if bx_type cb = t then Got t cfg cb else Crashed t cfg)"

text \<open>The part under the read lock, and the part under the write lock.\<close>

definition breaker_fast :: "string \<Rightarrow> BreakerConfig \<Rightarrow> breaker_Registry \<Rightarrow> breaker_caller" where
  "breaker_fast t cfg r =
     (case br_breakers r (bk_Name cfg) of Some cb \<Rightarrow> assert_type t cfg cb | None \<Rightarrow> Missed t cfg)"

definition breaker_slow ::
  "(int \<Rightarrow> int) \<Rightarrow> string \<Rightarrow> BreakerConfig \<Rightarrow> breaker_Registry \<Rightarrow> breaker_caller \<times> breaker_Registry" where
  "breaker_slow rand t cfg r =
     (case br_breakers r (bk_Name cfg) of
        Some cb \<Rightarrow> (assert_type t cfg cb, r)
      | None \<Rightarrow>
         (case new_breaker rand cfg of
            None \<Rightarrow> (Crashed t cfg, r)
          | Some s \<Rightarrow>
             (let cb = \<lparr>bx_id = br_next r, bx_type = t, bx_settings = s\<rparr>
              in (Got t cfg cb,
                  r\<lparr>br_breakers := (br_breakers r)(bk_Name cfg \<mapsto> cb), br_next := Suc (br_next r)\<rparr>))))"

text \<open>Any caller that is not finished may take its next step; \<open>rand\<close> may answer anything each time.\<close>

inductive breaker_step ::
  "breaker_Registry \<times> breaker_caller list \<Rightarrow> breaker_Registry \<times> breaker_caller list \<Rightarrow> bool" where
  fast: "i < length cs \<Longrightarrow> cs ! i = Calling t cfg \<Longrightarrow> breaker_step (r, cs) (r, cs[i := breaker_fast t cfg r])"
| slow: "i < length cs \<Longrightarrow> cs ! i = Missed t cfg \<Longrightarrow> breaker_slow rand t cfg r = (c, r') \<Longrightarrow>
     breaker_step (r, cs) (r', cs[i := c])"

inductive_cases breaker_stepE: "breaker_step (r, cs) s'"

inductive breaker_reach ::
  "breaker_Registry \<times> breaker_caller list \<Rightarrow> breaker_Registry \<times> breaker_caller list \<Rightarrow> bool" for s0 where
  refl: "breaker_reach s0 s0"
| step: "breaker_reach s0 s \<Longrightarrow> breaker_step s s' \<Longrightarrow> breaker_reach s0 s'"

text \<open>What a caller holds is what the registry holds, and identities are used once.\<close>

definition breaker_inv :: "breaker_Registry \<times> breaker_caller list \<Rightarrow> bool" where
  "breaker_inv s \<longleftrightarrow>
     (\<forall>t cfg cb. Got t cfg cb \<in> set (snd s) \<longrightarrow> br_breakers (fst s) (bk_Name cfg) = Some cb \<and> bx_type cb = t)
     \<and> (\<forall>n cb. br_breakers (fst s) n = Some cb \<longrightarrow> st_Name (bx_settings cb) = n \<and> bx_id cb < br_next (fst s))
     \<and> (\<forall>n m cb cb'. br_breakers (fst s) n = Some cb \<and> br_breakers (fst s) m = Some cb' \<and> bx_id cb = bx_id cb' \<longrightarrow> n = m)"

lemma breaker_invD:
  assumes "breaker_inv (r, cs)"
  shows "Got t cfg cb \<in> set cs \<Longrightarrow> br_breakers r (bk_Name cfg) = Some cb \<and> bx_type cb = t"
    and "br_breakers r n = Some cb \<Longrightarrow> st_Name (bx_settings cb) = n \<and> bx_id cb < br_next r"
    and "br_breakers r n = Some cb \<Longrightarrow> br_breakers r m = Some cb' \<Longrightarrow> bx_id cb = bx_id cb' \<Longrightarrow> n = m"
proof -
  have inv: "(\<forall>t cfg cb. Got t cfg cb \<in> set cs \<longrightarrow> br_breakers r (bk_Name cfg) = Some cb \<and> bx_type cb = t)"
    "(\<forall>n cb. br_breakers r n = Some cb \<longrightarrow> st_Name (bx_settings cb) = n \<and> bx_id cb < br_next r)"
    "(\<forall>n m cb cb'. br_breakers r n = Some cb \<and> br_breakers r m = Some cb' \<and> bx_id cb = bx_id cb' \<longrightarrow> n = m)"
    using assms unfolding breaker_inv_def by simp_all
  show "Got t cfg cb \<in> set cs \<Longrightarrow> br_breakers r (bk_Name cfg) = Some cb \<and> bx_type cb = t" using inv(1) by blast
  show "br_breakers r n = Some cb \<Longrightarrow> st_Name (bx_settings cb) = n \<and> bx_id cb < br_next r" using inv(2) by blast
  show "br_breakers r n = Some cb \<Longrightarrow> br_breakers r m = Some cb' \<Longrightarrow> bx_id cb = bx_id cb' \<Longrightarrow> n = m"
    using inv(3) by blast
qed

lemma in_set_updateD: "x \<in> set (xs[i := y]) \<Longrightarrow> x \<in> set xs \<or> x = y"
  using set_update_subset_insert by fastforce

lemma new_breaker_name: "new_breaker rand cfg = Some s \<Longrightarrow> st_Name s = bk_Name cfg"
  by (auto simp: new_breaker_def)

text \<open>A caller that ends with a registered breaker of its type, and a breaker registered under a new name.\<close>

lemma breaker_inv_update:
  assumes "breaker_inv (r, cs)"
    and "\<And>t cfg cb. c = Got t cfg cb \<Longrightarrow> br_breakers r (bk_Name cfg) = Some cb \<and> bx_type cb = t"
  shows "breaker_inv (r, cs[i := c])"
proof -
  have "br_breakers r (bk_Name cfg) = Some cb \<and> bx_type cb = t" if "Got t cfg cb \<in> set (cs[i := c])" for t cfg cb
    using in_set_updateD [OF that] assms(2) breaker_invD(1) [OF assms(1)] by blast
  then show ?thesis using assms(1) unfolding breaker_inv_def by (simp only: fst_conv snd_conv) blast
qed

lemma breaker_inv_add:
  assumes "breaker_inv (r, cs)" "br_breakers r n = None" "st_Name (bx_settings cb) = n" "bx_id cb = br_next r"
  shows "breaker_inv (r\<lparr>br_breakers := (br_breakers r)(n \<mapsto> cb), br_next := Suc (br_next r)\<rparr>, cs)" (is "breaker_inv (?r, cs)")
proof -
  have got: "br_breakers ?r (bk_Name cfg) = Some cb' \<and> bx_type cb' = t" if "Got t cfg cb' \<in> set cs" for t cfg cb'
    using breaker_invD(1) [OF assms(1) that] assms(2) by auto
  have named: "st_Name (bx_settings cb') = m \<and> bx_id cb' < br_next ?r" if "br_breakers ?r m = Some cb'" for m cb'
    using that breaker_invD(2) [OF assms(1), of m cb'] assms(3,4) by (auto split: if_splits)
  have "m = m'" if "br_breakers ?r m = Some b" "br_breakers ?r m' = Some b'" "bx_id b = bx_id b'" for m m' b b'
  proof -
    have old: "br_breakers r k = Some b''" if "br_breakers ?r k = Some b''" "k \<noteq> n" for k b'' using that by simp
    have lt: "bx_id b'' < br_next r" if "br_breakers ?r k = Some b''" "k \<noteq> n" for k b''
      using breaker_invD(2) [OF assms(1) old [OF that]] by simp
    show ?thesis
    proof (cases "m = n \<or> m' = n")
      case True
      then show ?thesis using that lt [of m b] lt [of m' b'] assms(4) by (cases "m = n"; cases "m' = n") simp_all
    next
      case False
      then have "br_breakers r m = Some b" "br_breakers r m' = Some b'" using old that(1,2) by blast+
      then show ?thesis using that(3) by (rule breaker_invD(3) [OF assms(1)])
    qed
  qed
  with got named show ?thesis unfolding breaker_inv_def by (simp only: fst_conv snd_conv) blast
qed

lemma breaker_inv_step:
  assumes "breaker_step s s'" "breaker_inv s"
  shows "breaker_inv s'"
  using assms(1)
proof cases
  case (fast i cs t cfg r)
  then have inv: "breaker_inv (r, cs)" using assms(2) by simp
  show ?thesis unfolding fast
    by (rule breaker_inv_update [OF inv]) (auto simp: breaker_fast_def assert_type_def split: option.splits if_splits)
next
  case (slow i cs t cfg rand r c r')
  then have inv: "breaker_inv (r, cs)" using assms(2) by simp
  show ?thesis
  proof (cases "br_breakers r (bk_Name cfg) = None \<and> new_breaker rand cfg \<noteq> None")
    case False
    with slow have "r' = r" "\<And>t' cfg' cb. c = Got t' cfg' cb \<Longrightarrow> br_breakers r (bk_Name cfg') = Some cb \<and> bx_type cb = t'"
      by (auto simp: breaker_slow_def assert_type_def split: option.splits if_splits)
    with breaker_inv_update [OF inv] slow show ?thesis by simp
  next
    case True
    then obtain st where st: "new_breaker rand cfg = Some st" by blast
    let ?cb = "\<lparr>bx_id = br_next r, bx_type = t, bx_settings = st\<rparr>"
    from st slow True have r': "c = Got t cfg ?cb"
      "r' = r\<lparr>br_breakers := (br_breakers r)(bk_Name cfg \<mapsto> ?cb), br_next := Suc (br_next r)\<rparr>"
      by (auto simp: breaker_slow_def Let_def)
    have "breaker_inv (r', cs)" unfolding r'(2)
      by (rule breaker_inv_add [OF inv]) (use True new_breaker_name [OF st] in auto)
    then show ?thesis unfolding slow(2) by (rule breaker_inv_update) (auto simp: r')
  qed
qed

lemma breaker_reach_inv: "breaker_reach s0 s \<Longrightarrow> breaker_inv s0 \<Longrightarrow> breaker_inv s"
  by (induction rule: breaker_reach.induct) (auto intro: breaker_inv_step)

text \<open>
  A breaker is a singleton per name. However many callers race, in whatever order their
  lock phases interleave, two callers that returned hold the same breaker if they asked for the
  same name, and different breakers if they asked for different names, and each holds the one
  the registry keeps.
\<close>

theorem breaker_singleton:
  assumes "breaker_reach (breaker_NewRegistry, map (\<lambda>(t, cfg). Calling t cfg) calls) (r, cs)"
    and "Got t cfg cb \<in> set cs" "Got t' cfg' cb' \<in> set cs"
  shows "(bx_id cb = bx_id cb') = (bk_Name cfg = bk_Name cfg')
    \<and> (bk_Name cfg = bk_Name cfg' \<longrightarrow> cb = cb' \<and> t = t')
    \<and> br_breakers r (bk_Name cfg) = Some cb \<and> st_Name (bx_settings cb) = bk_Name cfg"
proof -
  have "breaker_inv (breaker_NewRegistry, map (\<lambda>(t, cfg). Calling t cfg) calls)"
    by (auto simp: breaker_inv_def breaker_NewRegistry_def)
  with breaker_reach_inv [OF assms(1)] have inv: "breaker_inv (r, cs)" by blast
  have a: "br_breakers r (bk_Name cfg) = Some cb" "bx_type cb = t" "br_breakers r (bk_Name cfg') = Some cb'" "bx_type cb' = t'"
    using breaker_invD(1) [OF inv assms(2)] breaker_invD(1) [OF inv assms(3)] by auto
  moreover have "st_Name (bx_settings cb) = bk_Name cfg" using breaker_invD(2) [OF inv a(1)] by blast
  moreover have "bx_id cb = bx_id cb' \<Longrightarrow> bk_Name cfg = bk_Name cfg'"
    by (rule breaker_invD(3) [OF inv a(1,3)])
  ultimately show ?thesis by auto
qed

section \<open>The jitter\<close>

lemma quot64_pos: "0 \<le> a \<Longrightarrow> 0 < b \<Longrightarrow> quot64 a b = a div b"
  by (cases "a = 0") (simp_all add: quot64_def)

text \<open>
  C40: the jittered timeout of a breaker lies in [90%, 110%) of the configured one, up to
  rounding, and creating a breaker panics exactly for the timeouts of one to four nanoseconds,
  where the random generator is asked for a number below zero.
\<close>

theorem breaker_jitter_bounds:
  assumes "\<forall>n. 0 < n \<longrightarrow> 0 \<le> rand n \<and> rand n < n" "0 < timeout" "timeout < 2 ^ 62"
  shows "(breaker_timeout rand timeout = None) = (timeout < 5)
    \<and> (5 \<le> timeout \<longrightarrow> (\<exists>d. breaker_timeout rand timeout = Some d
          \<and> timeout - timeout div 10 \<le> d \<and> d < timeout - timeout div 10 + timeout div 5
          \<and> 9 * timeout \<le> 10 * d \<and> 10 * d < 11 * timeout + 10))"
proof -
  have q: "quot64 timeout 5 = timeout div 5" "quot64 timeout 10 = timeout div 10"
    using assms(2) by (simp_all add: quot64_pos)
  have z: "timeout div 5 \<le> 0 \<longleftrightarrow> timeout < 5" using assms(2) by linarith
  show ?thesis
  proof (cases "timeout < 5")
    case True
    then show ?thesis using assms(2) z by (simp add: breaker_timeout_def q)
  next
    case False
    then have j: "0 \<le> rand (timeout div 5)" "rand (timeout div 5) < timeout div 5" using assms(1) z by auto
    let ?d = "timeout - timeout div 10 + rand (timeout div 5)"
    have "0 \<le> ?d" using j assms(2) by linarith
    moreover have "?d < 2 ^ 63" using j assms(2,3) by simp
    ultimately have "int64_range ?d" by (simp add: int64_range_def)
    then have "wrap64 ?d = ?d" by simp
    then have "breaker_timeout rand timeout = Some ?d"
      using False assms(2) z by (simp add: breaker_timeout_def q Let_def)
    moreover have m: "10 * (timeout div 10) \<le> timeout" "timeout < 10 * (timeout div 10) + 10" "5 * (timeout div 5) \<le> timeout"
      by (presburger, presburger, presburger)
    have "9 * timeout \<le> 10 * ?d" using j(1) m(1) unfolding ring_distribs by linarith
    moreover have "10 * ?d < 11 * timeout + 10" using j(2) m(2,3) unfolding ring_distribs by linarith
    ultimately show ?thesis using False j by simp
  qed
qed

theorem breaker_jitter_bounds_witness:
  "breaker_timeout (\<lambda>n. n - 1) 4 = None \<and> (\<exists>d. breaker_timeout (\<lambda>n. n - 1) (60 * second) = Some d \<and> 54 * second \<le> d)"
proof -
  have "\<forall>n :: int. 0 < n \<longrightarrow> 0 \<le> n - 1 \<and> n - 1 < n" by auto
  from breaker_jitter_bounds [OF this, of 4] breaker_jitter_bounds [OF this, of "60 * second"]
  show ?thesis by (auto simp: second_def)
qed

theorem breaker_singleton_witness:
  "\<exists>cb. breaker_reach (breaker_NewRegistry, [Calling ''s'' (DefaultBreaker ''a''), Calling ''s'' (DefaultBreaker ''a'')])
       (\<lparr>br_breakers = [''a'' \<mapsto> cb], br_next = 1\<rparr>, [Got ''s'' (DefaultBreaker ''a'') cb, Got ''s'' (DefaultBreaker ''a'') cb])
     \<and> st_Name (bx_settings cb) = ''a''"
proof -
  let ?c = "DefaultBreaker ''a''"
  define st where "st = the (new_breaker (\<lambda>n. 0) ?c)"
  have st: "new_breaker (\<lambda>n. 0) ?c = Some st"
    by (simp add: st_def new_breaker_def breaker_timeout_def DefaultBreaker_def second_def quot64_def)
  let ?cb = "\<lparr>bx_id = 0, bx_type = ''s'', bx_settings = st\<rparr>" and ?r0 = breaker_NewRegistry
  let ?r1 = "\<lparr>br_breakers = [''a'' \<mapsto> ?cb], br_next = 1\<rparr>"
  have n: "bk_Name ?c = ''a''" by (simp add: DefaultBreaker_def)
  have s1: "breaker_step (?r0, [Calling ''s'' ?c, Calling ''s'' ?c]) (?r0, [Missed ''s'' ?c, Calling ''s'' ?c])"
    using breaker_step.fast [of 0 "[Calling ''s'' ?c, Calling ''s'' ?c]" "''s''" ?c ?r0]
    by (simp add: breaker_fast_def breaker_NewRegistry_def)
  have s2: "breaker_step (?r0, [Missed ''s'' ?c, Calling ''s'' ?c]) (?r0, [Missed ''s'' ?c, Missed ''s'' ?c])"
    using breaker_step.fast [of 1 "[Missed ''s'' ?c, Calling ''s'' ?c]" "''s''" ?c ?r0]
    by (simp add: breaker_fast_def breaker_NewRegistry_def)
  have s3: "breaker_step (?r0, [Missed ''s'' ?c, Missed ''s'' ?c]) (?r1, [Got ''s'' ?c ?cb, Missed ''s'' ?c])"
    using breaker_step.slow [of 0 "[Missed ''s'' ?c, Missed ''s'' ?c]" "''s''" ?c "\<lambda>n. 0" ?r0 "Got ''s'' ?c ?cb" ?r1] st n
    by (simp add: breaker_slow_def breaker_NewRegistry_def Let_def)
  have s4: "breaker_step (?r1, [Got ''s'' ?c ?cb, Missed ''s'' ?c]) (?r1, [Got ''s'' ?c ?cb, Got ''s'' ?c ?cb])"
    using breaker_step.slow [of 1 "[Got ''s'' ?c ?cb, Missed ''s'' ?c]" "''s''" ?c "\<lambda>n. 0" ?r1 "Got ''s'' ?c ?cb" ?r1] n
    by (simp add: breaker_slow_def assert_type_def)
  have reach: "breaker_reach (?r0, [Calling ''s'' ?c, Calling ''s'' ?c]) (?r1, [Got ''s'' ?c ?cb, Got ''s'' ?c ?cb])"
    by (rule breaker_reach.step [OF breaker_reach.step [OF breaker_reach.step [OF breaker_reach.step [OF breaker_reach.refl s1] s2] s3] s4])
  have "map (\<lambda>(t, cfg). Calling t cfg) [(''s'', ?c), (''s'', ?c)] = [Calling ''s'' ?c, Calling ''s'' ?c]" by simp
  note r = reach [folded this]
  have "st_Name (bx_settings ?cb) = ''a''"
    using breaker_singleton [OF r, of "''s''" ?c ?cb "''s''" ?c ?cb] n by simp
  with reach show ?thesis by blast
qed

end
