(* ===== verification/HttpClient.thy ===== *)
theory HttpClient
  imports Config
begin

text \<open>
  internal/platform/httpclient/client.go: the address policy of the external client, its dialer,
  the redirect cap and the defaults. Name resolution and dialling are parameters; an address is
  Go's \<open>net.IP\<close>, a list of 4 or 16 bytes.
\<close>

unbundle bit_operations_syntax

section \<open>net.IP and net.IPNet\<close>

type_synonym net_IP = "8 word list"

text \<open>\<open>To4\<close>: the four bytes of an IPv4 address, also when it is written in 16 (\<open>::ffff:a.b.c.d\<close>).\<close>

definition To4 :: "net_IP \<Rightarrow> net_IP option" where
  "To4 ip =
     (if length ip = 4 then Some ip
      else if length ip = 16 \<and> take 10 ip = replicate 10 0 \<and> ip ! 10 = 255 \<and> ip ! 11 = 255 then Some (drop 12 ip)
      else None)"

text \<open>\<open>Equal\<close> identifies an IPv4 address with its 16-byte form.\<close>

definition ip_Equal :: "net_IP \<Rightarrow> net_IP \<Rightarrow> bool" where
  "ip_Equal a b =
     (if length a = length b then a = b
      else if length a = 4 \<and> length b = 16 then take 12 b = replicate 10 0 @ [255, 255] \<and> a = drop 12 b
      else if length a = 16 \<and> length b = 4 then take 12 a = replicate 10 0 @ [255, 255] \<and> drop 12 a = b
      else False)"

text \<open>\<open>net.IPv4zero\<close> is stored in 16 bytes.\<close>

definition IPv4zero :: net_IP where "IPv4zero = replicate 10 0 @ [255, 255, 0, 0, 0, 0]"
definition IPv6unspecified :: net_IP where "IPv6unspecified = replicate 16 0"

definition IsUnspecified :: "net_IP \<Rightarrow> bool" where
  "IsUnspecified ip = (ip_Equal ip IPv4zero \<or> ip_Equal ip IPv6unspecified)"

definition IsMulticast :: "net_IP \<Rightarrow> bool" where
  "IsMulticast ip =
     (case To4 ip of
        Some ip4 \<Rightarrow> (ip4 ! 0) AND 0xF0 = 0xE0
      | None \<Rightarrow> length ip = 16 \<and> ip ! 0 = 0xFF)"

text \<open>A network is its (masked) address and mask; \<open>Contains\<close> compares the masked bytes.\<close>

type_synonym net_IPNet = "net_IP \<times> 8 word list"

definition IPNet_Contains :: "net_IPNet \<Rightarrow> net_IP \<Rightarrow> bool" where
  "IPNet_Contains n ip =
     (let x = (case To4 ip of Some ip4 \<Rightarrow> ip4 | None \<Rightarrow> ip)
      in length x = length (fst n)
         \<and> list_all (\<lambda>((nn, m), b). nn AND m = b AND m) (zip (zip (fst n) (snd n)) x))"

section \<open>The policy\<close>

text \<open>The nine networks \<open>ParseCIDR\<close> reads from the list in the source, in its order.\<close>

definition blockedCIDRs :: "net_IPNet list" where
  "blockedCIDRs =
     [([127, 0, 0, 0], [255, 0, 0, 0]),
      (replicate 15 0 @ [1], replicate 16 255),
      ([10, 0, 0, 0], [255, 0, 0, 0]),
      ([172, 16, 0, 0], [255, 0xF0, 0, 0]),
      ([192, 168, 0, 0], [255, 255, 0, 0]),
      ([169, 254, 0, 0], [255, 255, 0, 0]),
      (0xFC # replicate 15 0, 0xFE # replicate 15 0),
      (0xFE # 0x80 # replicate 14 0, 0xFF # 0xC0 # replicate 14 0),
      ([0, 0, 0, 0], [255, 0, 0, 0])]"

definition isBlocked :: "net_IP \<Rightarrow> bool" where
  "isBlocked ip =
     (if IsUnspecified ip \<or> IsMulticast ip then True
      else list_ex (\<lambda>n. IPNet_Contains n ip) blockedCIDRs)"

section \<open>The external dialer\<close>

text \<open>
  \<open>split_addr\<close> is \<open>net.SplitHostPort\<close>, \<open>lookup\<close> the resolver, \<open>dial\<close> one connection attempt over a
  network and port to an address, given the attempts made before it. The result comes with the addresses dialled.
\<close>

fun dial_each ::
  "(net_IP list \<Rightarrow> net_IP \<Rightarrow> go_error + 'c) \<Rightarrow> net_IP list \<Rightarrow> net_IP list \<Rightarrow> (go_error + 'c) \<times> net_IP list" where
  "dial_each dial [] tried = (Inl (NewError ''httpclient: all addresses failed''), tried)"
| "dial_each dial (ip # ips) tried =
     (case dial tried ip of
        Inr conn \<Rightarrow> (Inr conn, tried @ [ip])
      | Inl derr \<Rightarrow>
          if errors_is derr ECONNREFUSED then dial_each dial ips (tried @ [ip])
          else (Inl derr, tried @ [ip]))"

definition external_dial ::
  "(string \<Rightarrow> go_error + string \<times> string) \<Rightarrow> (string \<Rightarrow> go_error + net_IP list)
     \<Rightarrow> (string \<Rightarrow> string \<Rightarrow> net_IP list \<Rightarrow> net_IP \<Rightarrow> go_error + 'c) \<Rightarrow> string \<Rightarrow> string \<Rightarrow> (go_error + 'c) \<times> net_IP list" where
  "external_dial split_addr lookup dial network addr =
     (case split_addr addr of
        Inl e \<Rightarrow> (Inl e, [])
      | Inr (host, port) \<Rightarrow>
         (case lookup host of
            Inl e \<Rightarrow> (Inl e, [])
          | Inr ips \<Rightarrow>
             (if list_ex isBlocked ips
              then (Inl (WrapError (''dial '' @ network @ '': '') (Sentinel ErrBlockedAddress) []), [])
              else dial_each (dial network port) ips [])))"

section \<open>Defaults and redirects\<close>

definition timeoutOr :: "duration \<Rightarrow> duration \<Rightarrow> duration" where
  "timeoutOr d fallback = (if d \<le> 0 then fallback else d)"

definition maxOr :: "int \<Rightarrow> int \<Rightarrow> int" where
  "maxOr n fallback = (if n \<le> 0 then fallback else n)"

text \<open>True is \<open>http.ErrUseLastResponse\<close>: stop and use the response at hand.\<close>

definition capRedirects :: "int \<Rightarrow> nat \<Rightarrow> bool" where
  "capRedirects mx via = (int via \<ge> mx)"

datatype http_dialer = PlainDialer | ExternalDialer

record http_client =
  cl_Dial :: http_dialer
  cl_DialTimeout :: duration
  cl_MaxIdleConns :: int
  cl_IdleConnTimeout :: duration
  cl_TLSHandshakeTimeout :: duration
  cl_ExpectContinueTimeout :: duration
  cl_ForceHTTP2 :: bool
  cl_MinTLS12 :: bool
  cl_Timeout :: duration
  cl_MaxRedirects :: int

definition baseTransport :: "HTTPClientConfig \<Rightarrow> http_dialer \<Rightarrow> http_client" where
  "baseTransport cfg dialCtx =
     \<lparr>cl_Dial = dialCtx, cl_DialTimeout = 5 * second, cl_MaxIdleConns = maxOr (hc_MaxIdleConns cfg) 100,
      cl_IdleConnTimeout = 90 * second, cl_TLSHandshakeTimeout = 5 * second, cl_ExpectContinueTimeout = second,
      cl_ForceHTTP2 = True, cl_MinTLS12 = True, cl_Timeout = 0, cl_MaxRedirects = 0\<rparr>"

definition NewInternalClient :: "HTTPClientConfig \<Rightarrow> http_client" where
  "NewInternalClient cfg =
     (baseTransport cfg PlainDialer)
       \<lparr>cl_Timeout := timeoutOr (hc_Timeout cfg) (10 * second), cl_MaxRedirects := maxOr (hc_MaxRedirects cfg) 5\<rparr>"

definition NewExternalClient :: "HTTPClientConfig \<Rightarrow> http_client" where
  "NewExternalClient cfg =
     (baseTransport cfg ExternalDialer)
       \<lparr>cl_Timeout := timeoutOr (hc_Timeout cfg) (10 * second), cl_MaxRedirects := maxOr (hc_MaxRedirects cfg) 5\<rparr>"

text \<open>
  A fetch that would follow \<open>n\<close> redirects: how many the client follows before it stops. It has
  made \<open>via\<close> requests when it asks.
\<close>

fun follow_redirects :: "int \<Rightarrow> nat \<Rightarrow> nat \<Rightarrow> nat" where
  "follow_redirects mx via 0 = 0"
| "follow_redirects mx via (Suc n) = (if capRedirects mx via then 0 else Suc (follow_redirects mx (Suc via) n))"

section \<open>What the policy blocks\<close>

text \<open>Statements about a byte are checked on all 256 values.\<close>

lemma all_bytes:
  assumes "list_all P [0..255]"
  shows "P (uint (b :: 8 word))"
proof -
  have "uint b < 2 ^ LENGTH(8)" "0 \<le> uint b" by (rule unsigned_less, simp)
  then have "uint b \<in> set [0..255]" by simp
  with assms show ?thesis by (metis list_all_iff)
qed
lemma byte_masks:
  "(b AND 0xF0 = 0x10) = (b \<in> {16..31})" "(b AND 0xF0 = 0xE0) = (b \<in> {224..239})"
  "(b AND 0xFE = 0xFC) = (b \<in> {0xFC..0xFD})" "(b AND 0xC0 = 0x80) = (b \<in> {0x80..0xBF})"
  "b AND 255 = b"
  for b :: "8 word"
proof -
  have m: "(b AND m = v) = (uint b AND uint m = uint v)" for m v
    by (metis unsigned_and_eq word_eq_iff_unsigned)
  have i: "(b \<in> {l..u}) = (uint l \<le> uint b \<and> uint b \<le> uint u)" for l u
    by (simp add: word_le_def)
  show "(b AND 0xF0 = 0x10) = (b \<in> {16..31})"
    unfolding m i by (rule all_bytes [where P = "\<lambda>b. (b AND uint (0xF0::8 word) = uint (0x10::8 word)) = (uint (16::8 word) \<le> b \<and> b \<le> uint (31::8 word))"]) (simp add: upto.simps)
  show "(b AND 0xF0 = 0xE0) = (b \<in> {224..239})"
    unfolding m i by (rule all_bytes [where P = "\<lambda>b. (b AND uint (0xF0::8 word) = uint (0xE0::8 word)) = (uint (224::8 word) \<le> b \<and> b \<le> uint (239::8 word))"]) (simp add: upto.simps)
  show "(b AND 0xFE = 0xFC) = (b \<in> {0xFC..0xFD})"
    unfolding m i by (rule all_bytes [where P = "\<lambda>b. (b AND uint (0xFE::8 word) = uint (0xFC::8 word)) = (uint (0xFC::8 word) \<le> b \<and> b \<le> uint (0xFD::8 word))"]) (simp add: upto.simps)
  show "(b AND 0xC0 = 0x80) = (b \<in> {0x80..0xBF})"
    unfolding m i by (rule all_bytes [where P = "\<lambda>b. (b AND uint (0xC0::8 word) = uint (0x80::8 word)) = (uint (0x80::8 word) \<le> b \<and> b \<le> uint (0xBF::8 word))"]) (simp add: upto.simps)
  show "b AND 255 = b"
    unfolding m by (rule all_bytes [where P = "\<lambda>b. b AND uint (255::8 word) = b"]) (simp add: upto.simps)
qed

lemmas ip_defs = isBlocked_def IsUnspecified_def IsMulticast_def ip_Equal_def IPv4zero_def IPv6unspecified_def
  blockedCIDRs_def IPNet_Contains_def To4_def

lemma eval_replicate:
  "replicate 16 (x :: 8 word) = [x, x, x, x, x, x, x, x, x, x, x, x, x, x, x, x]"
  "replicate 15 (x :: 8 word) = [x, x, x, x, x, x, x, x, x, x, x, x, x, x, x]"
  "replicate 14 (x :: 8 word) = [x, x, x, x, x, x, x, x, x, x, x, x, x, x]"
  "replicate 10 (x :: 8 word) = [x, x, x, x, x, x, x, x, x, x]"
  by (simp_all add: numeral_eq_Suc)

definition blocked_v4 :: "8 word \<Rightarrow> 8 word \<Rightarrow> bool" where
  "blocked_v4 a b \<longleftrightarrow> a \<in> {0, 10, 127} \<or> (a = 172 \<and> b \<in> {16..31}) \<or> (a = 192 \<and> b = 168)
     \<or> (a = 169 \<and> b = 254) \<or> a \<in> {224..239}"

lemma isBlocked_v4: "isBlocked [a, b, c, d] = blocked_v4 a b"
  by (auto simp: ip_defs eval_replicate blocked_v4_def byte_masks)

lemma isBlocked_mapped: "isBlocked (replicate 10 0 @ [255, 255, a, b, c, d]) = blocked_v4 a b"
  by (auto simp: ip_defs eval_replicate blocked_v4_def byte_masks)

lemma len16:
  assumes "length ip = 16"
  obtains x0 x1 x2 x3 x4 x5 x6 x7 x8 x9 x10 x11 x12 x13 x14 x15
    where "ip = [x0, x1, x2, x3, x4, x5, x6, x7, x8, x9, x10, x11, x12, x13, x14, x15]"
  using assms by (auto simp: numeral_eq_Suc length_Suc_conv)

lemma isBlocked_v6:
  assumes "length ip = 16" "To4 ip = None"
  shows "isBlocked ip \<longleftrightarrow> ip = replicate 16 0 \<or> ip = replicate 15 0 @ [1] \<or> ip ! 0 \<in> {0xFC..0xFD} \<or> ip ! 0 = 0xFF
     \<or> (ip ! 0 = 0xFE \<and> ip ! 1 \<in> {0x80..0xBF})"
proof -
  obtain x0 x1 x2 x3 x4 x5 x6 x7 x8 x9 x10 x11 x12 x13 x14 x15
    where ip: "ip = [x0, x1, x2, x3, x4, x5, x6, x7, x8, x9, x10, x11, x12, x13, x14, x15]"
    by (rule len16 [OF assms(1)])
  have to4: "To4 ip = None" by (rule assms(2))
  have not4: "\<not> (x0 = 0 \<and> x1 = 0 \<and> x2 = 0 \<and> x3 = 0 \<and> x4 = 0 \<and> x5 = 0 \<and> x6 = 0 \<and> x7 = 0 \<and> x8 = 0 \<and> x9 = 0
      \<and> x10 = 255 \<and> x11 = 255)"
    using to4 by (auto simp: To4_def ip eval_replicate)
  have x: "(case To4 ip of Some ip4 \<Rightarrow> ip4 | None \<Rightarrow> ip) = ip" by (simp add: to4)
  have un: "IsUnspecified ip \<longleftrightarrow> ip = replicate 16 0"
    using not4 by (auto simp: IsUnspecified_def ip_Equal_def IPv4zero_def IPv6unspecified_def ip eval_replicate)
  have mc: "IsMulticast ip \<longleftrightarrow> ip ! 0 = 0xFF"
    by (simp add: IsMulticast_def to4 assms(1))
  have n4: "\<not> IPNet_Contains ([a, b, c, d], m) ip" for a b c d m
    by (simp add: IPNet_Contains_def x assms(1) Let_def)
  have n1: "IPNet_Contains (replicate 15 0 @ [1], replicate 16 255) ip \<longleftrightarrow> ip = replicate 15 0 @ [1]"
    unfolding IPNet_Contains_def x Let_def by (auto simp: ip eval_replicate byte_masks)
  have nfc: "IPNet_Contains (0xFC # replicate 15 0, 0xFE # replicate 15 0) ip \<longleftrightarrow> ip ! 0 AND 0xFE = 0xFC"
    unfolding IPNet_Contains_def x Let_def by (auto simp: ip eval_replicate)
  have nfe: "IPNet_Contains (0xFE # 0x80 # replicate 14 0, 0xFF # 0xC0 # replicate 14 0) ip
      \<longleftrightarrow> ip ! 0 = 0xFE \<and> ip ! 1 AND 0xC0 = 0x80"
    unfolding IPNet_Contains_def x Let_def by (auto simp: ip eval_replicate byte_masks)
  show ?thesis
    unfolding isBlocked_def un mc blockedCIDRs_def n1 nfc nfe byte_masks
    using n1 nfc nfe byte_masks n4 by auto
qed

text \<open>
  C24: the addresses the external client refuses are exactly these. IPv4: 0/8, 10/8, 127/8,
  172.16/12, 192.168/16, 169.254/16 and multicast, in four bytes or written as
  \<open>::ffff:a.b.c.d\<close>. IPv6: the unspecified and the loopback address, fc00::/7, fe80::/10 and
  multicast.
\<close>

theorem http_isBlocked_spec:
  "isBlocked [a, b, c, d] = blocked_v4 a b
   \<and> isBlocked (replicate 10 0 @ [255, 255, a, b, c, d]) = blocked_v4 a b
   \<and> (length ip = 16 \<and> To4 ip = None \<longrightarrow>
        isBlocked ip = (ip = replicate 16 0 \<or> ip = replicate 15 0 @ [1] \<or> ip ! 0 \<in> {0xFC..0xFD} \<or> ip ! 0 = 0xFF
          \<or> (ip ! 0 = 0xFE \<and> ip ! 1 \<in> {0x80..0xBF})))"
  by (simp only: isBlocked_v4 isBlocked_mapped isBlocked_v6 simp_thms) (simp add: isBlocked_v6)

theorem http_isBlocked_spec_witness:
  "isBlocked (0xFE # 0x80 # replicate 13 0 @ [1]) \<and> isBlocked [169, 254, 169, 254] \<and> \<not> isBlocked [8, 8, 8, 8]"
proof -
  have "To4 (0xFE # 0x80 # replicate 13 0 @ [1]) = None" by (simp add: To4_def eval_replicate)
  then have "isBlocked (0xFE # 0x80 # replicate 13 0 @ [1])"
    using http_isBlocked_spec [where ip = "0xFE # 0x80 # replicate 13 0 @ [1]"] by simp
  moreover have "blocked_v4 169 254" "\<not> blocked_v4 8 8" by (simp_all add: blocked_v4_def)
  ultimately show ?thesis using http_isBlocked_spec by blast
qed

section \<open>What the dialer reaches\<close>

text \<open>
  The connection to the \<open>i\<close>-th address, attempted after those before it, is refused; and
  what dialling a list comes to: all were refused, or the first that was not settles the result.
\<close>

definition refused :: "(net_IP list \<Rightarrow> net_IP \<Rightarrow> go_error + 'c) \<Rightarrow> net_IP list \<Rightarrow> nat \<Rightarrow> bool" where
  "refused dial ips i \<longleftrightarrow> (case dial (take i ips) (ips ! i) of Inl e \<Rightarrow> errors_is e ECONNREFUSED | Inr conn \<Rightarrow> False)"

definition dial_outcome ::
  "(net_IP list \<Rightarrow> net_IP \<Rightarrow> go_error + 'c) \<Rightarrow> net_IP list \<Rightarrow> (go_error + 'c) \<Rightarrow> net_IP list \<Rightarrow> bool" where
  "dial_outcome dial ips r dialled \<longleftrightarrow>
     (\<forall>i < length ips. refused dial ips i) \<and> r = Inl (NewError ''httpclient: all addresses failed'') \<and> dialled = ips
     \<or> (\<exists>k < length ips. (\<forall>i < k. refused dial ips i) \<and> \<not> refused dial ips k
          \<and> r = dial (take k ips) (ips ! k) \<and> dialled = take (Suc k) ips)"

lemma refused_Cons:
  "refused dial (ip # ips) 0 \<longleftrightarrow> (\<exists>e. dial [] ip = Inl e \<and> errors_is e ECONNREFUSED)"
  "refused dial (ip # ips) (Suc i) \<longleftrightarrow> refused (\<lambda>t. dial (ip # t)) ips i"
  by (auto simp: refused_def split: sum.splits)

lemma dial_outcome_refused:
  assumes "refused dial (ip # ips) 0" "dial_outcome (\<lambda>t. dial (ip # t)) ips r dialled"
  shows "dial_outcome dial (ip # ips) r (ip # dialled)"
proof -
  have all: "(\<forall>i < Suc n. refused dial (ip # ips) i) \<longleftrightarrow> (\<forall>i < n. refused (\<lambda>t. dial (ip # t)) ips i)" for n
    using assms(1) by (simp add: All_less_Suc2 refused_Cons)
  from assms(2) consider "\<forall>i < length ips. refused (\<lambda>t. dial (ip # t)) ips i"
      "r = Inl (NewError ''httpclient: all addresses failed'')" "dialled = ips"
    | k where "k < length ips" "\<forall>i < k. refused (\<lambda>t. dial (ip # t)) ips i" "\<not> refused (\<lambda>t. dial (ip # t)) ips k"
      "r = dial (ip # take k ips) (ips ! k)" "dialled = take (Suc k) ips"
    unfolding dial_outcome_def by blast
  then show ?thesis
  proof cases
    case 1
    then show ?thesis using all unfolding dial_outcome_def by simp
  next
    case (2 k)
    then show ?thesis using all [of k] unfolding dial_outcome_def
      by (intro disjI2 exI [of _ "Suc k"]) (simp add: refused_Cons)
  qed
qed

lemma dial_each_spec:
  "\<exists>dialled. snd (dial_each dial ips tried) = tried @ dialled
     \<and> dial_outcome (\<lambda>t. dial (tried @ t)) ips (fst (dial_each dial ips tried)) dialled"
proof (induction ips arbitrary: tried)
  case Nil
  show ?case by (simp add: dial_outcome_def)
next
  case (Cons ip ips)
  let ?dial = "\<lambda>t. dial (tried @ t)"
  show ?case
  proof (cases "refused ?dial (ip # ips) 0")
    case True
    then obtain e where "dial tried ip = Inl e" "errors_is e ECONNREFUSED" by (auto simp: refused_Cons)
    then have d: "dial_each dial (ip # ips) tried = dial_each dial ips (tried @ [ip])" by simp
    from Cons.IH [of "tried @ [ip]"] obtain dialled where "snd (dial_each dial ips (tried @ [ip])) = tried @ ip # dialled"
      "dial_outcome (\<lambda>t. ?dial (ip # t)) ips (fst (dial_each dial ips (tried @ [ip]))) dialled" by auto
    with dial_outcome_refused [OF True] d show ?thesis by auto
  next
    case False
    then have "dial_each dial (ip # ips) tried = (dial tried ip, tried @ [ip])"
      by (auto simp: refused_Cons split: sum.splits)
    with False show ?thesis unfolding dial_outcome_def by (intro exI [of _ "[ip]"]) auto
  qed
qed

lemma dial_outcome_subset: "dial_outcome dial ips r dialled \<Longrightarrow> set dialled \<subseteq> set ips"
  by (auto simp: dial_outcome_def dest: in_set_takeD)

text \<open>
  C23: the external client never dials a blocked address, whatever the resolver answers. When the
  address cannot be split or the host not resolved it dials none and passes the error on. If any
  address of the host is blocked it dials none and fails with \<open>ErrBlockedAddress\<close>. Otherwise it
  dials the resolved addresses in order as long as connections are refused; the first attempt that
  ends otherwise, with a connection or another error, is its result and no further address is
  dialled; when every one was refused, it fails.
\<close>

theorem http_external_never_dials_blocked:
  assumes "external_dial split_addr lookup dial network addr = (r, dialled)"
  shows "(\<forall>ip \<in> set dialled. \<not> isBlocked ip)
    \<and> (case split_addr addr of
         Inl e \<Rightarrow> dialled = [] \<and> r = Inl e
       | Inr (host, port) \<Rightarrow>
          (case lookup host of
             Inl e \<Rightarrow> dialled = [] \<and> r = Inl e
           | Inr ips \<Rightarrow>
              if \<exists>ip \<in> set ips. isBlocked ip
              then dialled = [] \<and> (\<exists>e. r = Inl e \<and> errors_is e ErrBlockedAddress)
              else dial_outcome (dial network port) ips r dialled))"
proof (cases "\<exists>host port ips. split_addr addr = Inr (host, port) \<and> lookup host = Inr ips")
  case False
  then show ?thesis using assms by (auto simp: external_dial_def split: sum.splits prod.splits)
next
  case True
  then obtain host port ips where h: "split_addr addr = Inr (host, port)" "lookup host = Inr ips" by blast
  show ?thesis
  proof (cases "\<exists>ip \<in> set ips. isBlocked ip")
    case True
    then have "dialled = []" "r = Inl (WrapError (''dial '' @ network @ '': '') (Sentinel ErrBlockedAddress) [])"
      using assms h by (auto simp: external_dial_def list_ex_iff)
    with True h show ?thesis by auto
  next
    case False
    then have "dial_each (dial network port) ips [] = (r, dialled)"
      using assms h by (auto simp: external_dial_def list_ex_iff)
    with dial_each_spec [of "dial network port" ips "[]"] have "dial_outcome (dial network port) ips r dialled" by auto
    with False h dial_outcome_subset [OF this] show ?thesis by auto
  qed
qed

definition sample_split :: "string \<Rightarrow> go_error + string \<times> string" where
  "sample_split a = Inr (a, ''80'')"

theorem http_external_never_dials_blocked_witness:
  "snd (external_dial sample_split (\<lambda>_. Inr [[8, 8, 8, 8], [10, 0, 0, 1]]) (\<lambda>_ _ _ ip. Inr ip) ''tcp'' ''h'') = []"
proof -
  have "isBlocked [10, 0, 0, 1]" unfolding isBlocked_v4 by (simp add: blocked_v4_def)
  with http_external_never_dials_blocked [OF prod.collapse [symmetric], of sample_split
      "\<lambda>_. Inr [[8, 8, 8, 8], [10, 0, 0, 1]]" "\<lambda>_ _ _ ip. Inr ip" "''tcp''" "''h''"]
  show ?thesis by (auto simp: sample_split_def split: if_splits)
qed

text \<open>
  A client follows at most the configured number of redirects (five by default), and always
  has a positive timeout and TLS 1.2 or later; only the external client carries the address policy.
\<close>

lemma follow_redirects_eq: "int via \<le> mx \<Longrightarrow> follow_redirects mx via n = min n (nat (mx - int via))"
proof (induction n arbitrary: via)
  case (Suc n)
  show ?case
  proof (cases "int via = mx")
    case False
    then have "follow_redirects mx (Suc via) n = min n (nat (mx - int (Suc via)))" using Suc by simp
    with False Suc.prems show ?thesis by (auto simp: capRedirects_def)
  qed (simp add: capRedirects_def)
qed simp

lemma http_clients_bounded:
  "0 < cl_Timeout (NewExternalClient cfg) \<and> 0 < cl_Timeout (NewInternalClient cfg)
   \<and> follow_redirects (cl_MaxRedirects (NewExternalClient cfg)) 0 n = min n (nat (maxOr (hc_MaxRedirects cfg) 5))
   \<and> cl_MinTLS12 (NewExternalClient cfg) \<and> cl_Dial (NewExternalClient cfg) = ExternalDialer
   \<and> cl_Dial (NewInternalClient cfg) = PlainDialer"
proof -
  have "int 0 \<le> maxOr (hc_MaxRedirects cfg) 5" by (simp add: maxOr_def)
  from follow_redirects_eq [OF this] show ?thesis
    by (simp add: NewExternalClient_def NewInternalClient_def baseTransport_def timeoutOr_def second_def)
qed

end
