(* ===== verification/Health.thy ===== *)
theory Health
  imports GoStd
begin

text \<open>
  internal/platform/health: the registry of checkers with its cached results, the refresher's
  steps interleaved with registrations, the liveness and readiness handlers, and the checkers.
  Instants are nanoseconds since the Unix epoch. What a check returns and what the clock shows
  are functions of the history.
\<close>

section \<open>JSON bodies\<close>

text \<open>What the handlers give \<open>c.JSON\<close>; an instant is one formatted as RFC 3339.\<close>

datatype json =
    JNull
  | JString string
  | JBool bool
  | JInt int
  | JTime int
  | JArray "json list"
  | JObject "(string \<times> json) list"

definition StatusOK :: int where "StatusOK = 200"
definition StatusServiceUnavailable :: int where "StatusServiceUnavailable = 503"

section \<open>The registry\<close>

type_synonym Severity = int

definition SeverityCritical :: Severity where "SeverityCritical = 0"
definition SeverityDegraded :: Severity where "SeverityDegraded = 1"

datatype health_event =
    Registered string Severity
  | Checked string "go_error option"

type_synonym health_history = "health_event list"

text \<open>\<open>Check\<close> gets the timeout its context carries.\<close>

record Checker =
  ck_Name :: string
  ck_Severity :: Severity
  ck_Check :: "health_history \<Rightarrow> duration \<Rightarrow> go_error option"

record Result =
  res_Name :: string
  res_Severity :: Severity
  res_Err :: "go_error option"
  res_UpdatedAt :: int
  res_ConsecutiveFails :: int

record Registry =
  reg_checkers :: "Checker list"
  reg_cacheTTL :: duration
  reg_failureLimit :: int
  reg_timeout :: duration
  reg_results :: "(string \<times> Result) list"
  reg_started :: bool

datatype registry_Option = WithCacheTTL duration | WithFailureLimit int | WithCheckTimeout duration

fun registry_apply_opt :: "registry_Option \<Rightarrow> Registry \<Rightarrow> Registry" where
  "registry_apply_opt (WithCacheTTL d) r = r\<lparr>reg_cacheTTL := d\<rparr>"
| "registry_apply_opt (WithFailureLimit n) r = r\<lparr>reg_failureLimit := n\<rparr>"
| "registry_apply_opt (WithCheckTimeout d) r = r\<lparr>reg_timeout := d\<rparr>"

definition NewRegistry :: "registry_Option list \<Rightarrow> Registry" where
  "NewRegistry opts =
     fold registry_apply_opt opts
       \<lparr>reg_checkers = [], reg_cacheTTL = 5 * second, reg_failureLimit = 3, reg_timeout = 2 * second,
        reg_results = [], reg_started = False\<rparr>"

text \<open>The zero \<open>time.Time\<close>, 1 January of year 1.\<close>

definition zero_time :: int where "zero_time = - 62135596800 * second"

definition Register :: "Checker \<Rightarrow> Registry \<Rightarrow> Registry" where
  "Register c r =
     r\<lparr>reg_checkers := reg_checkers r @ [c],
       reg_results := alist_set (ck_Name c)
         \<lparr>res_Name = ck_Name c, res_Severity = ck_Severity c, res_Err = None, res_UpdatedAt = zero_time,
          res_ConsecutiveFails = 0\<rparr> (reg_results r)\<rparr>"

text \<open>\<open>Start\<close> spawns the refresher only the first time; the flag says whether it did.\<close>

definition registry_Start :: "Registry \<Rightarrow> Registry \<times> bool" where
  "registry_Start r = (if reg_started r then (r, False) else (r\<lparr>reg_started := True\<rparr>, True))"

text \<open>
  One iteration of \<open>runAll\<close>'s loop; None is the nil dereference of a result that is missing.
  \<open>now\<close> is the clock.
\<close>

definition run_check ::
  "(health_history \<Rightarrow> int) \<Rightarrow> Checker \<Rightarrow> Registry \<Rightarrow> health_history \<Rightarrow> (Registry \<times> health_history) option" where
  "run_check now c r h =
     (let err = ck_Check c h (reg_timeout r)
      in case map_of (reg_results r) (ck_Name c) of
           None \<Rightarrow> None
         | Some res \<Rightarrow>
             (let res = res\<lparr>res_UpdatedAt := now h, res_Err := err\<rparr>;
                  res = (if err = None then res\<lparr>res_ConsecutiveFails := 0\<rparr>
                         else res\<lparr>res_ConsecutiveFails := wrap64 (res_ConsecutiveFails res + 1)\<rparr>)
              in Some (r\<lparr>reg_results := alist_set (ck_Name c) res (reg_results r)\<rparr>,
                       h @ [Checked (ck_Name c) err])))"

fun run_checkers ::
  "(health_history \<Rightarrow> int) \<Rightarrow> Checker list \<Rightarrow> Registry \<Rightarrow> health_history \<Rightarrow> (Registry \<times> health_history) option" where
  "run_checkers now [] r h = Some (r, h)"
| "run_checkers now (c # cs) r h =
     (case run_check now c r h of None \<Rightarrow> None | Some (r', h') \<Rightarrow> run_checkers now cs r' h')"

text \<open>\<open>runAll\<close> when nothing registers meanwhile.\<close>

definition runAll :: "(health_history \<Rightarrow> int) \<Rightarrow> Registry \<Rightarrow> health_history \<Rightarrow> (Registry \<times> health_history) option" where
  "runAll now r h = run_checkers now (reg_checkers r) r h"

definition Snapshot :: "Registry \<Rightarrow> Result list" where
  "Snapshot r = map snd (reg_results r)"

definition registry_ready :: "Registry \<Rightarrow> bool" where
  "registry_ready r =
     (\<not> list_ex (\<lambda>(_, res). res_Severity res = SeverityCritical
           \<and> res_Err res \<noteq> None \<and> res_ConsecutiveFails res \<ge> reg_failureLimit r) (reg_results r))"

definition severityName :: "Severity \<Rightarrow> string" where
  "severityName s =
     (if s = SeverityCritical then ''critical'' else if s = SeverityDegraded then ''degraded'' else ''unknown'')"

section \<open>Handlers\<close>

definition Liveness :: "Registry \<Rightarrow> int \<times> json" where
  "Liveness r = (StatusOK, JObject [(''status'', JString ''ok'')])"

definition Readiness :: "Registry \<Rightarrow> int \<times> json" where
  "Readiness r =
     (if registry_ready r then (StatusOK, JObject [(''status'', JString ''ok'')])
      else (StatusServiceUnavailable, JObject [(''status'', JString ''not_ready'')]))"

definition check_entry :: "Result \<Rightarrow> json" where
  "check_entry res =
     JObject ([(''name'', JString (res_Name res)),
               (''severity'', JString (severityName (res_Severity res))),
               (''ok'', JBool (res_Err res = None)),
               (''consecutive_fails'', JInt (res_ConsecutiveFails res)),
               (''updated_at'', JTime (res_UpdatedAt res))]
              @ (case res_Err res of None \<Rightarrow> [] | Some e \<Rightarrow> [(''error'', JString (error_text e))]))"

definition DetailedReadiness :: "Registry \<Rightarrow> int \<times> json" where
  "DetailedReadiness r =
     (let checks = JArray (map check_entry (Snapshot r))
      in if \<not> registry_ready r
         then (StatusServiceUnavailable, JObject [(''status'', JString ''not_ready''), (''checks'', checks)])
         else (StatusOK, JObject [(''status'', JString ''ok''), (''checks'', checks)]))"

section \<open>Interleavings\<close>

text \<open>
  The refresher takes a copy of the checkers and then runs them one by one, taking the lock only
  to store each result, so registrations fall between its steps. \<open>health_reach opts now r p h\<close>:
  from a new registry, the steps made so far led to registry \<open>r\<close>, with the checkers \<open>p\<close> of the
  current round still to run and the history \<open>h\<close>.
\<close>

inductive health_reach ::
  "registry_Option list \<Rightarrow> (health_history \<Rightarrow> int) \<Rightarrow> Registry \<Rightarrow> Checker list \<Rightarrow> health_history \<Rightarrow> bool"
  for opts now where
  new: "health_reach opts now (NewRegistry opts) [] []"
| register: "health_reach opts now r p h \<Longrightarrow>
     health_reach opts now (Register c r) p (h @ [Registered (ck_Name c) (ck_Severity c)])"
| round_start: "health_reach opts now r [] h \<Longrightarrow> health_reach opts now r (reg_checkers r) h"
| check: "health_reach opts now r (c # p) h \<Longrightarrow> run_check now c r h = Some (r', h') \<Longrightarrow> health_reach opts now r' p h'"

inductive_cases health_reach_checkE: "health_reach opts now r (c # p) h"

text \<open>What a history says of a name: its latest severity, and its failures since the last success.\<close>

fun severity_in :: "health_history \<Rightarrow> string \<Rightarrow> Severity option \<Rightarrow> Severity option" where
  "severity_in [] n s = s"
| "severity_in (Registered m v # h) n s = severity_in h n (if m = n then Some v else s)"
| "severity_in (Checked m x # h) n s = severity_in h n s"

fun streak_in :: "health_history \<Rightarrow> string \<Rightarrow> nat \<Rightarrow> nat" where
  "streak_in [] n k = k"
| "streak_in (Registered m v # h) n k = streak_in h n (if m = n then 0 else k)"
| "streak_in (Checked m x # h) n k = streak_in h n (if m = n then (if x = None then 0 else Suc k) else k)"

lemma severity_in_append: "severity_in (a @ b) n s = severity_in b n (severity_in a n s)"
  by (induction a n s rule: severity_in.induct) auto

lemma streak_in_append: "streak_in (a @ b) n k = streak_in b n (streak_in a n k)"
  by (induction a n k rule: streak_in.induct) auto

lemma streak_in_le: "streak_in h n k \<le> k + length h"
proof (induction h n k rule: streak_in.induct)
  case (3 m x h n k)
  then show ?case by (auto split: if_splits)
qed (auto split: if_splits)

text \<open>The invariant: results mirror the history, names are unique, nothing pending is unknown.\<close>

definition result_ok :: "health_history \<Rightarrow> string \<Rightarrow> Result option \<Rightarrow> bool" where
  "result_ok h n x =
     (case x of
        None \<Rightarrow> severity_in h n None = None
      | Some res \<Rightarrow> res_Name res = n \<and> severity_in h n None = Some (res_Severity res)
          \<and> (int (length h) < 2 ^ 63 \<longrightarrow> res_ConsecutiveFails res = int (streak_in h n 0))
          \<and> (res_Err res \<noteq> None \<longleftrightarrow> 0 < streak_in h n 0))"

definition health_inv :: "registry_Option list \<Rightarrow> Registry \<Rightarrow> Checker list \<Rightarrow> health_history \<Rightarrow> bool" where
  "health_inv opts r p h \<longleftrightarrow>
     distinct (map fst (reg_results r))
     \<and> ck_Name ` set (reg_checkers r) = fst ` set (reg_results r)
     \<and> ck_Name ` set p \<subseteq> fst ` set (reg_results r)
     \<and> reg_failureLimit r = reg_failureLimit (NewRegistry opts)
     \<and> (\<forall>n. result_ok h n (map_of (reg_results r) n))"

text \<open>An event about another name leaves a result right.\<close>

lemma result_ok_other:
  "result_ok h n x \<Longrightarrow> m \<noteq> n \<Longrightarrow> result_ok (h @ [Registered m v]) n x \<and> result_ok (h @ [Checked m e]) n x"
  by (auto simp: result_ok_def severity_in_append streak_in_append split: option.splits)

lemma fst_alist_set: "fst ` set (alist_set k v m) = insert k (fst ` set m)"
  using keys_alist_set [of k v m] by simp

lemma NewRegistry_empty [simp]: "reg_results (NewRegistry opts) = []" "reg_checkers (NewRegistry opts) = []"
proof -
  have "reg_results (fold registry_apply_opt opts r) = reg_results r
      \<and> reg_checkers (fold registry_apply_opt opts r) = reg_checkers r" for r
  proof (induction opts arbitrary: r)
    case (Cons a opts)
    then show ?case by (cases a) auto
  qed simp
  then show "reg_results (NewRegistry opts) = []" "reg_checkers (NewRegistry opts) = []"
    by (simp_all add: NewRegistry_def)
qed

lemma inv_register:
  assumes "health_inv opts r p h"
  shows "health_inv opts (Register c r) p (h @ [Registered (ck_Name c) (ck_Severity c)])"
proof -
  let ?n = "ck_Name c" and ?h = "h @ [Registered (ck_Name c) (ck_Severity c)]"
  have "result_ok ?h n (map_of (reg_results (Register c r)) n)" for n
  proof (cases "n = ?n")
    case True
    then show ?thesis by (simp add: Register_def result_ok_def severity_in_append streak_in_append)
  next
    case False
    then show ?thesis
      using assms result_ok_other [of h n "map_of (reg_results r) n" ?n]
      by (simp add: Register_def health_inv_def)
  qed
  then show ?thesis
    using assms unfolding health_inv_def
    by (auto simp: Register_def fst_alist_set intro: distinct_alist_set)
qed

lemma inv_check:
  assumes "health_inv opts r (c # p) h" "run_check now c r h = Some (r', h')"
  shows "health_inv opts r' p h'"
proof -
  let ?n = "ck_Name c" and ?err = "ck_Check c h (reg_timeout r)"
  obtain res where res: "map_of (reg_results r) ?n = Some res"
    using assms(2) by (auto simp: run_check_def Let_def split: option.splits)
  define res' where "res' = (let res = res\<lparr>res_UpdatedAt := now h, res_Err := ?err\<rparr>
    in if ?err = None then res\<lparr>res_ConsecutiveFails := 0\<rparr>
       else res\<lparr>res_ConsecutiveFails := wrap64 (res_ConsecutiveFails res + 1)\<rparr>)"
  have r': "r' = r\<lparr>reg_results := alist_set ?n res' (reg_results r)\<rparr>" "h' = h @ [Checked ?n ?err]"
    using assms(2) res by (auto simp: run_check_def Let_def res'_def)
  have old: "result_ok h ?n (Some res)" using assms(1) res by (metis health_inv_def)
  have "int64_range (int (streak_in h ?n 0) + 1)" if "int (length h') < 2 ^ 63"
    using that r'(2) streak_in_le [of h ?n 0] by (simp add: int64_range_def)
  then have "result_ok h' ?n (Some res')"
    using old r'(2) by (auto simp: result_ok_def res'_def Let_def severity_in_append streak_in_append)
  then have "result_ok h' n (map_of (reg_results r') n)" for n
    using assms(1) r' result_ok_other [of h n "map_of (reg_results r) n" ?n]
    by (cases "n = ?n") (auto simp: health_inv_def)
  moreover have "?n \<in> fst ` set (reg_results r)" using res by (force dest: map_of_SomeD)
  ultimately show ?thesis
    using assms(1) r'(1) unfolding health_inv_def
    by (auto simp: fst_alist_set insert_absorb intro: distinct_alist_set)
qed

lemma health_reach_inv: "health_reach opts now r p h \<Longrightarrow> health_inv opts r p h"
proof (induction rule: health_reach.induct)
  case new
  then show ?case by (simp add: health_inv_def result_ok_def)
next
  case (register r p h c)
  then show ?case by (rule_tac inv_register)
next
  case (round_start r h)
  then show ?case by (simp add: health_inv_def)
next
  case (check r c p h r' h')
  then show ?case by (rule_tac inv_check)
qed

section \<open>Readiness\<close>

lemma ready_iff:
  assumes "health_inv opts r p h" "int (length h) < 2 ^ 63"
  shows "registry_ready r \<longleftrightarrow>
    (\<forall>n. severity_in h n None = Some SeverityCritical \<longrightarrow>
       streak_in h n 0 = 0 \<or> int (streak_in h n 0) < reg_failureLimit (NewRegistry opts))"
proof -
  let ?bad = "\<lambda>res. res_Severity res = SeverityCritical \<and> res_Err res \<noteq> None \<and> res_ConsecutiveFails res \<ge> reg_failureLimit r"
  have limit: "reg_failureLimit r = reg_failureLimit (NewRegistry opts)" using assms(1) by (simp add: health_inv_def)
  have ok: "result_ok h n (map_of (reg_results r) n)" for n using assms(1) by (simp add: health_inv_def)
  have "(\<exists>(n, res) \<in> set (reg_results r). ?bad res) \<longleftrightarrow> (\<exists>n res. map_of (reg_results r) n = Some res \<and> ?bad res)"
    using assms(1) by (auto simp: health_inv_def)
  also have "\<dots> \<longleftrightarrow> (\<exists>n. severity_in h n None = Some SeverityCritical \<and> 0 < streak_in h n 0
      \<and> reg_failureLimit (NewRegistry opts) \<le> int (streak_in h n 0))"
  proof
    assume "\<exists>n res. map_of (reg_results r) n = Some res \<and> ?bad res"
    then obtain n res where "map_of (reg_results r) n = Some res" "?bad res" by blast
    with ok [of n] assms(2) limit show "\<exists>n. severity_in h n None = Some SeverityCritical \<and> 0 < streak_in h n 0
      \<and> reg_failureLimit (NewRegistry opts) \<le> int (streak_in h n 0)"
      by (intro exI [of _ n]) (auto simp: result_ok_def)
  next
    assume "\<exists>n. severity_in h n None = Some SeverityCritical \<and> 0 < streak_in h n 0
      \<and> reg_failureLimit (NewRegistry opts) \<le> int (streak_in h n 0)"
    then obtain n where n: "severity_in h n None = Some SeverityCritical" "0 < streak_in h n 0"
      "reg_failureLimit (NewRegistry opts) \<le> int (streak_in h n 0)" by blast
    then obtain res where res: "map_of (reg_results r) n = Some res"
      using ok [of n] by (cases "map_of (reg_results r) n") (auto simp: result_ok_def)
    with ok [of n] assms(2) limit n show "\<exists>n res. map_of (reg_results r) n = Some res \<and> ?bad res"
      by (intro exI [of _ n] exI [of _ res]) (auto simp: result_ok_def)
  qed
  finally show ?thesis
    unfolding registry_ready_def list_ex_iff by (auto simp: not_le)
qed

text \<open>
  C25: readiness is what the history of checks says it should be. Whatever was registered and
  checked, in whatever interleaving, the readiness endpoint answers 200 exactly when every name
  last registered as critical has fewer failures since its last success than the limit (or
  none), 503 otherwise; failing degraded checkers never matter; and the detailed endpoint always
  answers with the same status.
\<close>

theorem health_readiness_spec:
  assumes "health_reach opts now r p h" "int (length h) < 2 ^ 63"
  shows "fst (Readiness r) =
      (if \<forall>n. severity_in h n None = Some SeverityCritical \<longrightarrow>
            streak_in h n 0 = 0 \<or> int (streak_in h n 0) < reg_failureLimit (NewRegistry opts)
       then StatusOK else StatusServiceUnavailable)
    \<and> fst (DetailedReadiness r) = fst (Readiness r)"
proof -
  have "fst (Readiness r) = (if registry_ready r then StatusOK else StatusServiceUnavailable)"
    "fst (DetailedReadiness r) = fst (Readiness r)"
    by (simp_all add: Readiness_def DetailedReadiness_def Let_def)
  then show ?thesis unfolding ready_iff [OF health_reach_inv [OF assms(1)] assms(2)] by blast
qed

lemma run_checkers_reach:
  "health_reach opts now r p h \<Longrightarrow>
     \<exists>r' t. run_checkers now p r h = Some (r', h @ t) \<and> health_reach opts now r' [] (h @ t)
       \<and> length t = length p \<and> (\<forall>i < length p. \<exists>e. t ! i = Checked (ck_Name (p ! i)) e)"
proof (induction p arbitrary: r h)
  case (Cons c p)
  have inv: "health_inv opts r (c # p) h" by (rule health_reach_inv [OF Cons.prems])
  then have "ck_Name c \<in> fst ` set (reg_results r)" by (simp add: health_inv_def)
  then obtain res where "map_of (reg_results r) (ck_Name c) = Some res"
    by (metis (no_types, lifting) list.set_map map_of_eq_None_iff not_None_eq)
  then obtain r1 where step: "run_check now c r h = Some (r1, h @ [Checked (ck_Name c) (ck_Check c h (reg_timeout r))])"
    by (auto simp: run_check_def Let_def)
  from Cons.IH [OF health_reach.check [OF Cons.prems this]] obtain r' t where
    t: "run_checkers now p r1 (h @ [Checked (ck_Name c) (ck_Check c h (reg_timeout r))])
        = Some (r', (h @ [Checked (ck_Name c) (ck_Check c h (reg_timeout r))]) @ t)"
    "health_reach opts now r' [] ((h @ [Checked (ck_Name c) (ck_Check c h (reg_timeout r))]) @ t)"
    "length t = length p" "\<forall>i < length p. \<exists>e. t ! i = Checked (ck_Name (p ! i)) e" by blast
  then show ?case
    using step by (intro exI [of _ r'] exI [of _ "Checked (ck_Name c) (ck_Check c h (reg_timeout r)) # t"])
      (auto simp: nth_Cons less_Suc_eq_0_disj split: nat.splits)
qed auto

text \<open>
  The refresher never dereferences a missing result, even when registrations fall between
  its steps: from any reachable point, the checkers still to run in the round all run, each once
  and in order. The snapshot then lists every registered name exactly once, with the outcome
  and the failure count the history gives.
\<close>

theorem health_round_completes:
  assumes "health_reach opts now r p h" "int (length h + length p) < 2 ^ 63"
  shows "\<exists>r' t. run_checkers now p r h = Some (r', h @ t)
    \<and> length t = length p \<and> (\<forall>i < length p. \<exists>e. t ! i = Checked (ck_Name (p ! i)) e)
    \<and> distinct (map res_Name (Snapshot r'))
    \<and> set (map res_Name (Snapshot r')) = ck_Name ` set (reg_checkers r')
    \<and> (\<forall>res \<in> set (Snapshot r'). res_ConsecutiveFails res = int (streak_in (h @ t) (res_Name res) 0)
          \<and> (res_Err res = None \<longleftrightarrow> streak_in (h @ t) (res_Name res) 0 = 0))"
proof -
  from run_checkers_reach [OF assms(1)] obtain r' t where
    t: "run_checkers now p r h = Some (r', h @ t)" "health_reach opts now r' [] (h @ t)"
    "length t = length p" "\<forall>i < length p. \<exists>e. t ! i = Checked (ck_Name (p ! i)) e" by blast
  note inv = health_reach_inv [OF t(2)]
  have len: "int (length (h @ t)) < 2 ^ 63" using assms(2) t(3) by simp
  have ok: "result_ok (h @ t) n (Some res)" if "(n, res) \<in> set (reg_results r')" for n res
    using inv that unfolding health_inv_def by (metis map_of_is_SomeI)
  have names: "map res_Name (Snapshot r') = map fst (reg_results r')"
    using ok by (auto simp: Snapshot_def result_ok_def)
  have "res_ConsecutiveFails res = int (streak_in (h @ t) (res_Name res) 0)
      \<and> (res_Err res = None \<longleftrightarrow> streak_in (h @ t) (res_Name res) 0 = 0)" if "res \<in> set (Snapshot r')" for res
  proof -
    from that obtain n where "(n, res) \<in> set (reg_results r')" by (auto simp: Snapshot_def)
    from ok [OF this] len show ?thesis by (auto simp: result_ok_def)
  qed
  moreover have "distinct (map res_Name (Snapshot r'))" "set (map res_Name (Snapshot r')) = ck_Name ` set (reg_checkers r')"
    using inv names by (auto simp: health_inv_def)
  ultimately show ?thesis using t(1,3,4) by blast
qed

definition sample_checker :: "string \<Rightarrow> Severity \<Rightarrow> go_error option \<Rightarrow> Checker" where
  "sample_checker n s e = \<lparr>ck_Name = n, ck_Severity = s, ck_Check = \<lambda>_ _. e\<rparr>"

definition sample_registry :: Registry where
  "sample_registry = Register (sample_checker ''mongo'' SeverityCritical (Some (NewError ''down''))) (NewRegistry [WithFailureLimit 1])"

lemma sample_reach:
  "health_reach [WithFailureLimit 1] (\<lambda>_. 0) sample_registry (reg_checkers sample_registry) [Registered ''mongo'' SeverityCritical]"
  using health_reach.round_start [OF health_reach.register [OF health_reach.new, of "[WithFailureLimit 1]" "\<lambda>_. 0"
      "sample_checker ''mongo'' SeverityCritical (Some (NewError ''down''))"]]
  by (simp add: sample_registry_def sample_checker_def)

definition sample_failed :: Registry where
  "sample_failed = fst (the (runAll (\<lambda>_. 0) sample_registry [Registered ''mongo'' SeverityCritical]))"

lemma sample_failed_reach:
  "health_reach [WithFailureLimit 1] (\<lambda>_. 0) sample_failed []
     [Registered ''mongo'' SeverityCritical, Checked ''mongo'' (Some (NewError ''down''))]"
proof -
  have "reg_checkers sample_registry = [sample_checker ''mongo'' SeverityCritical (Some (NewError ''down''))]"
    by (simp add: sample_registry_def Register_def)
  note step = health_reach.check [OF sample_reach [unfolded this], of sample_failed]
  show ?thesis
    by (rule step)
      (simp add: sample_failed_def runAll_def sample_registry_def Register_def sample_checker_def run_check_def
        NewRegistry_def Let_def)
qed

theorem health_readiness_spec_witness:
  "fst (Readiness sample_failed) = 503"
proof -
  have "reg_failureLimit (NewRegistry [WithFailureLimit 1]) = 1" by (simp add: NewRegistry_def)
  then show ?thesis
    using health_readiness_spec [OF sample_failed_reach]
    by (auto simp: StatusServiceUnavailable_def dest!: spec [of _ "''mongo''"])
qed

theorem health_round_completes_witness:
  "\<exists>r' t. run_checkers (\<lambda>_. 0) (reg_checkers sample_registry) sample_registry [Registered ''mongo'' SeverityCritical]
     = Some (r', [Registered ''mongo'' SeverityCritical] @ t) \<and> distinct (map res_Name (Snapshot r'))"
proof -
  have "length (reg_checkers sample_registry) = 1" by (simp add: sample_registry_def Register_def)
  with health_round_completes [OF sample_reach] show ?thesis by fastforce
qed

section \<open>The checkers\<close>

text \<open>The Mongo checker pings (driver); its failures are critical.\<close>

definition MongoChecker :: "(health_history \<Rightarrow> duration \<Rightarrow> go_error option) \<Rightarrow> Checker" where
  "MongoChecker ping = \<lparr>ck_Name = ''mongo'', ck_Severity = SeverityCritical, ck_Check = ping\<rparr>"

text \<open>\<open>time.Since\<close>: a difference of instants, saturating at the bounds of \<open>time.Duration\<close>.\<close>

definition time_since :: "int \<Rightarrow> int \<Rightarrow> duration" where
  "time_since now t = max (- (2 ^ 63)) (min (2 ^ 63 - 1) (now - t))"

record KafkaChecker =
  kck_lastPollUnixNano :: int
  kck_staleAfter :: duration

definition NewKafkaChecker :: "duration \<Rightarrow> KafkaChecker" where
  "NewKafkaChecker staleAfter =
     \<lparr>kck_lastPollUnixNano = 0, kck_staleAfter = (if staleAfter \<le> 0 then 30 * second else staleAfter)\<rparr>"

definition KafkaChecker_Heartbeat :: "int \<Rightarrow> KafkaChecker \<Rightarrow> KafkaChecker" where
  "KafkaChecker_Heartbeat now k = k\<lparr>kck_lastPollUnixNano := now\<rparr>"

definition KafkaChecker_Check :: "int \<Rightarrow> KafkaChecker \<Rightarrow> go_error option" where
  "KafkaChecker_Check now k =
     (let last = kck_lastPollUnixNano k
      in if last = 0 then Some (NewError ''kafka: no poll observed yet'')
         else if time_since now last > kck_staleAfter k then Some (NewError ''kafka: poll heartbeat stale'')
         else None)"

record SQSChecker =
  sck_lastPollUnixNano :: int
  sck_staleAfter :: duration

definition NewSQSChecker :: "duration \<Rightarrow> SQSChecker" where
  "NewSQSChecker staleAfter =
     \<lparr>sck_lastPollUnixNano = 0, sck_staleAfter = (if staleAfter \<le> 0 then 30 * second else staleAfter)\<rparr>"

definition SQSChecker_Heartbeat :: "int \<Rightarrow> SQSChecker \<Rightarrow> SQSChecker" where
  "SQSChecker_Heartbeat now k = k\<lparr>sck_lastPollUnixNano := now\<rparr>"

definition SQSChecker_Check :: "int \<Rightarrow> SQSChecker \<Rightarrow> go_error option" where
  "SQSChecker_Check now k =
     (let last = sck_lastPollUnixNano k
      in if last = 0 then Some (NewError ''sqs: no poll observed yet'')
         else if time_since now last > sck_staleAfter k then Some (NewError ''sqs: poll heartbeat stale'')
         else None)"

text \<open>As registered checkers, over the heartbeats so far and the clock.\<close>

definition KafkaChecker_checker :: "(health_history \<Rightarrow> int) \<Rightarrow> (health_history \<Rightarrow> KafkaChecker) \<Rightarrow> Checker" where
  "KafkaChecker_checker now k =
     \<lparr>ck_Name = ''kafka'', ck_Severity = SeverityDegraded, ck_Check = \<lambda>h _. KafkaChecker_Check (now h) (k h)\<rparr>"

definition SQSChecker_checker :: "(health_history \<Rightarrow> int) \<Rightarrow> (health_history \<Rightarrow> SQSChecker) \<Rightarrow> Checker" where
  "SQSChecker_checker now k =
     \<lparr>ck_Name = ''sqs'', ck_Severity = SeverityDegraded, ck_Check = \<lambda>h _. SQSChecker_Check (now h) (k h)\<rparr>"

text \<open>What a heartbeat checker promises the worker that beats it and the registry that asks it.\<close>

locale heartbeat_checker =
  fixes fresh :: "duration \<Rightarrow> 'c"
    and beat :: "int \<Rightarrow> 'c \<Rightarrow> 'c"
    and check :: "int \<Rightarrow> 'c \<Rightarrow> go_error option"
    and window :: "'c \<Rightarrow> duration"
  assumes fresh_fails: "check now (fresh d) \<noteq> None"
    and fresh_window: "window (fresh d) = (if d \<le> 0 then 30 * second else d)"
    and beat_window: "window (beat t c) = window c"
    and beat_beat: "beat t (beat u c) = beat t c"
    and check_beat: "check now (beat t c) = None \<longleftrightarrow> t \<noteq> 0 \<and> time_since now t \<le> window c"
begin

lemma window_fold: "window (fold beat ts c) = window c"
  by (induction ts arbitrary: c) (simp_all add: beat_window)

lemma healthy_iff:
  "check now (fold beat ts (fresh d)) = None \<longleftrightarrow>
     ts \<noteq> [] \<and> last ts \<noteq> 0 \<and> time_since now (last ts) \<le> (if d \<le> 0 then 30 * second else d)"
proof (cases ts rule: rev_cases)
  case Nil
  then show ?thesis using fresh_fails by simp
next
  case (snoc us t)
  then show ?thesis by (simp add: check_beat window_fold fresh_window)
qed

text \<open>Beats that do not run backwards: healthy exactly if one of them is within the window.\<close>

lemma recent_iff:
  assumes "sorted ts" "\<forall>t \<in> set ts. 0 < t \<and> t \<le> now" "now < 2 ^ 63"
  shows "check now (fold beat ts (fresh d)) = None \<longleftrightarrow> (\<exists>t \<in> set ts. now - t \<le> (if d \<le> 0 then 30 * second else d))"
proof (cases ts rule: rev_cases)
  case Nil
  then show ?thesis using healthy_iff [of now ts d] by simp
next
  case (snoc us t)
  with assms have "0 < t" "\<forall>u \<in> set us. u \<le> t" "time_since now t = now - t" by (auto simp: sorted_append time_since_def)
  then show ?thesis using healthy_iff [of now ts d] snoc by fastforce
qed

end

interpretation kafka_heartbeat: heartbeat_checker NewKafkaChecker KafkaChecker_Heartbeat KafkaChecker_Check kck_staleAfter
  by unfold_locales
    (auto simp: NewKafkaChecker_def KafkaChecker_Heartbeat_def KafkaChecker_Check_def Let_def)

interpretation sqs_heartbeat: heartbeat_checker NewSQSChecker SQSChecker_Heartbeat SQSChecker_Check sck_staleAfter
  by unfold_locales
    (auto simp: NewSQSChecker_def SQSChecker_Heartbeat_def SQSChecker_Check_def Let_def)

text \<open>
  A broker checker is healthy exactly when a poll was ever observed and the last one is no
  older than the window, 30 seconds unless a positive one was configured; earlier polls do not
  matter.
\<close>

theorem heartbeat_healthy_iff:
  "(KafkaChecker_Check now (fold KafkaChecker_Heartbeat ts (NewKafkaChecker d)) = None) =
     (ts \<noteq> [] \<and> last ts \<noteq> 0 \<and> time_since now (last ts) \<le> (if d \<le> 0 then 30 * second else d))
   \<and> (SQSChecker_Check now (fold SQSChecker_Heartbeat ts (NewSQSChecker d)) = None) =
     (ts \<noteq> [] \<and> last ts \<noteq> 0 \<and> time_since now (last ts) \<le> (if d \<le> 0 then 30 * second else d))"
  by (simp only: kafka_heartbeat.healthy_iff sqs_heartbeat.healthy_iff simp_thms)

end
