(* ===== verification/RateLimitStore.thy ===== *)
theory RateLimitStore
  imports Prelude
begin

text \<open>
  The LRU store of per-key limiters in internal/middleware/rate_limit.go. List elements and
  limiters are pointers in the code: an element has an identity here, the map from keys holds
  element identities, and the limiters live in a heap the entries point into. The limiter itself
  (golang.org/x/time/rate) is a parameter. Instants are nanoseconds.
\<close>

section \<open>Definitions\<close>

record rateLimitEntry =
  rle_key :: string
  rle_limiter :: nat
  rle_lastSeen :: int

text \<open>\<open>order\<close> lists its elements from front to back; \<open>next\<close> is an identity not used yet.\<close>

record 'l rateLimiterStore =
  rls_limit :: rat
  rls_burst :: int
  rls_maxSize :: int
  rls_ttl :: duration
  rls_entries :: "string \<rightharpoonup> nat"
  rls_order :: "(nat \<times> rateLimitEntry) list"
  rls_next :: nat
  rls_heap :: "'l list"

definition newRateLimiterStore :: "rat \<Rightarrow> int \<Rightarrow> int \<Rightarrow> duration \<Rightarrow> 'l rateLimiterStore" where
  "newRateLimiterStore rps burst maxSize ttl =
     \<lparr>rls_limit = rps, rls_burst = burst, rls_maxSize = maxSize, rls_ttl = ttl,
      rls_entries = Map.empty, rls_order = [], rls_next = 0, rls_heap = []\<rparr>"

text \<open>\<open>time.Time.Sub\<close> saturates.\<close>

definition time_sub :: "int \<Rightarrow> int \<Rightarrow> duration" where
  "time_sub t u = max (- (2 ^ 63)) (min (2 ^ 63 - 1) (t - u))"

definition remove_back :: "'l rateLimiterStore \<Rightarrow> 'l rateLimiterStore" where
  "remove_back s =
     s\<lparr>rls_order := butlast (rls_order s),
       rls_entries := (rls_entries s)(rle_key (snd (last (rls_order s))) := None)\<rparr>"

lemma length_remove_back: "rls_order s \<noteq> [] \<Longrightarrow> length (rls_order (remove_back s)) < length (rls_order s)"
  by (simp add: remove_back_def)

text \<open>The eviction loop of a miss.\<close>

function evict :: "int \<Rightarrow> 'l rateLimiterStore \<Rightarrow> 'l rateLimiterStore" where
  "evict now s =
     (if rls_order s = [] then s
      else if 0 < rls_ttl s \<and> time_sub now (rle_lastSeen (snd (last (rls_order s)))) > rls_ttl s
        then evict now (remove_back s)
      else if rls_maxSize s \<le> int (length (rls_order s)) then evict now (remove_back s)
      else s)"
  by pat_completeness auto
termination
  by (relation "measure (\<lambda>(now, s). length (rls_order s))") (auto simp: length_remove_back)

declare evict.simps [simp del]

text \<open>\<open>MoveToFront\<close> of the element with identity \<open>el\<close>, whose entry was just stamped.\<close>

definition touch :: "int \<Rightarrow> nat \<Rightarrow> (nat \<times> rateLimitEntry) list \<Rightarrow> (nat \<times> rateLimitEntry) list" where
  "touch now el xs =
     (case find (\<lambda>(i, e). i = el) xs of
        None \<Rightarrow> xs
      | Some (i, e) \<Rightarrow> (i, e\<lparr>rle_lastSeen := now\<rparr>) # filter (\<lambda>(i, e). i \<noteq> el) xs)"

definition limiter_of :: "(nat \<times> rateLimitEntry) list \<Rightarrow> nat \<Rightarrow> nat option" where
  "limiter_of xs el = map_option rle_limiter (map_of xs el)"

text \<open>\<open>get\<close>: the pointer of the limiter, and the store. \<open>new_limiter\<close> is \<open>rate.NewLimiter\<close>.\<close>

definition store_get ::
  "(rat \<Rightarrow> int \<Rightarrow> 'l) \<Rightarrow> int \<Rightarrow> string \<Rightarrow> 'l rateLimiterStore \<Rightarrow> nat option \<times> 'l rateLimiterStore" where
  "store_get new_limiter now key s =
     (case rls_entries s key of
        Some el \<Rightarrow> (limiter_of (rls_order s) el, s\<lparr>rls_order := touch now el (rls_order s)\<rparr>)
      | None \<Rightarrow>
         (let s = evict now s;
              l = length (rls_heap s);
              el = rls_next s
          in (Some l,
              s\<lparr>rls_heap := rls_heap s @ [new_limiter (rls_limit s) (rls_burst s)],
                rls_order := (el, \<lparr>rle_key = key, rle_limiter = l, rle_lastSeen = now\<rparr>) # rls_order s,
                rls_entries := (rls_entries s)(key \<mapsto> el), rls_next := Suc el\<rparr>)))"

section \<open>Invariant\<close>

text \<open>
  The map and the list agree, identities and limiters are not shared, the list is within the cap
  and ordered by when its keys were last seen, none of them after \<open>now\<close>.
\<close>

definition store_inv :: "int \<Rightarrow> 'l rateLimiterStore \<Rightarrow> bool" where
  "store_inv now s \<longleftrightarrow>
     0 < rls_maxSize s
     \<and> distinct (map fst (rls_order s))
     \<and> distinct (map (rle_key \<circ> snd) (rls_order s))
     \<and> distinct (map (rle_limiter \<circ> snd) (rls_order s))
     \<and> (\<forall>k el. rls_entries s k = Some el \<longleftrightarrow> (\<exists>e. (el, e) \<in> set (rls_order s) \<and> rle_key e = k))
     \<and> (\<forall>(i, e) \<in> set (rls_order s). i < rls_next s \<and> rle_limiter e < length (rls_heap s))
     \<and> int (length (rls_order s)) \<le> rls_maxSize s
     \<and> sorted_wrt (\<lambda>a b. rle_lastSeen (snd b) \<le> rle_lastSeen (snd a)) (rls_order s)
     \<and> (\<forall>(i, e) \<in> set (rls_order s). rle_lastSeen e \<le> now)"

lemma store_inv_new: "0 < maxSize \<Longrightarrow> store_inv now (newRateLimiterStore rps burst maxSize ttl)"
  by (simp add: store_inv_def newRateLimiterStore_def)

lemma store_inv_later: "store_inv now s \<Longrightarrow> now \<le> now' \<Longrightarrow> store_inv now' s"
  by (force simp: store_inv_def)

lemma store_inv_entry:
  "store_inv now s \<Longrightarrow> rls_entries s k = Some el \<longleftrightarrow> (\<exists>e. (el, e) \<in> set (rls_order s) \<and> rle_key e = k)"
  by (simp add: store_inv_def)

lemma store_inv_keys:
  "store_inv now s \<Longrightarrow> dom (rls_entries s) = (rle_key \<circ> snd) ` set (rls_order s)"
proof -
  assume inv: "store_inv now s"
  show ?thesis
  proof (intro equalityI subsetI)
    fix k assume "k \<in> dom (rls_entries s)"
    then obtain el e where "(el, e) \<in> set (rls_order s)" "rle_key e = k"
      using store_inv_entry [OF inv] by (auto simp: dom_def)
    then show "k \<in> (rle_key \<circ> snd) ` set (rls_order s)" by force
  next
    fix k assume "k \<in> (rle_key \<circ> snd) ` set (rls_order s)"
    then obtain el e where "(el, e) \<in> set (rls_order s)" "rle_key e = k" by auto
    then have "rls_entries s k = Some el" using store_inv_entry [OF inv] by blast
    then show "k \<in> dom (rls_entries s)" by blast
  qed
qed

lemma inv_remove_back:
  assumes "store_inv now s" "rls_order s \<noteq> []"
  shows "store_inv now (remove_back s)"
proof -
  obtain xs b where xs: "rls_order s = xs @ [b]" using assms(2) by (metis append_butlast_last_id)
  obtain i e where b: "b = (i, e)" by (cases b)
  have "distinct (map (rle_key \<circ> snd) (xs @ [b]))" using assms(1) xs by (simp add: store_inv_def)
  then have k: "rle_key e' \<noteq> rle_key e" if "(j, e') \<in> set xs" for j e'
    using that b by force
  have m: "rls_entries s k = Some el \<longleftrightarrow> (\<exists>e'. ((el, e') \<in> set xs \<or> (el, e') = b) \<and> rle_key e' = k)" for k el
    using assms(1) xs by (simp add: store_inv_def) blast
  have "((rls_entries s)(rle_key e := None)) k = Some el \<longleftrightarrow> (\<exists>e'. (el, e') \<in> set xs \<and> rle_key e' = k)" for k el
  proof (cases "k = rle_key e")
    case True
    then show ?thesis using k by auto
  next
    case False
    then show ?thesis using m [of k el] b by auto
  qed
  then show ?thesis
    using assms(1) unfolding store_inv_def remove_back_def
    by (simp add: xs b sorted_wrt_append)
qed

text \<open>Eviction removes a suffix: what remains is the front of the list.\<close>

lemma evict_spec:
  "store_inv now s \<Longrightarrow>
     store_inv now (evict now s) \<and> (\<exists>ys. rls_order s = rls_order (evict now s) @ ys)
     \<and> rls_heap (evict now s) = rls_heap s \<and> rls_next (evict now s) = rls_next s
     \<and> rls_maxSize (evict now s) = rls_maxSize s \<and> rls_ttl (evict now s) = rls_ttl s
     \<and> rls_limit (evict now s) = rls_limit s \<and> rls_burst (evict now s) = rls_burst s
     \<and> int (length (rls_order (evict now s))) < rls_maxSize s
     \<and> (rls_order (evict now s) \<noteq> [] \<longrightarrow>
          \<not> (0 < rls_ttl s \<and> time_sub now (rle_lastSeen (snd (last (rls_order (evict now s))))) > rls_ttl s))"
proof (induction now s rule: evict.induct)
  case (1 now s)
  let ?expired = "0 < rls_ttl s \<and> time_sub now (rle_lastSeen (snd (last (rls_order s)))) > rls_ttl s"
  show ?case
  proof (cases "rls_order s \<noteq> [] \<and> (?expired \<or> rls_maxSize s \<le> int (length (rls_order s)))")
    case False
    then have e: "evict now s = s" by (subst evict.simps) auto
    have "0 < rls_maxSize s" using "1.prems" by (simp add: store_inv_def)
    then show ?thesis using False "1.prems" by (simp add: e) force
  next
    case True
    then have e: "evict now s = evict now (remove_back s)" by (subst evict.simps) auto
    have r: "store_inv now (remove_back s)" using inv_remove_back [OF "1.prems"] True by simp
    have b: "rls_order s = rls_order (remove_back s) @ [last (rls_order s)]"
      "rls_heap (remove_back s) = rls_heap s" "rls_next (remove_back s) = rls_next s"
      "rls_maxSize (remove_back s) = rls_maxSize s" "rls_ttl (remove_back s) = rls_ttl s"
      "rls_limit (remove_back s) = rls_limit s" "rls_burst (remove_back s) = rls_burst s"
      using True by (simp_all add: remove_back_def)
    have ih: "store_inv now (evict now (remove_back s)) \<and> (\<exists>ys. rls_order (remove_back s) = rls_order (evict now (remove_back s)) @ ys)
     \<and> rls_heap (evict now (remove_back s)) = rls_heap (remove_back s) \<and> rls_next (evict now (remove_back s)) = rls_next (remove_back s)
     \<and> rls_maxSize (evict now (remove_back s)) = rls_maxSize (remove_back s) \<and> rls_ttl (evict now (remove_back s)) = rls_ttl (remove_back s)
     \<and> rls_limit (evict now (remove_back s)) = rls_limit (remove_back s) \<and> rls_burst (evict now (remove_back s)) = rls_burst (remove_back s)
     \<and> int (length (rls_order (evict now (remove_back s)))) < rls_maxSize (remove_back s)
     \<and> (rls_order (evict now (remove_back s)) \<noteq> [] \<longrightarrow>
          \<not> (0 < rls_ttl (remove_back s)
             \<and> time_sub now (rle_lastSeen (snd (last (rls_order (evict now (remove_back s)))))) > rls_ttl (remove_back s)))"
    proof (cases ?expired)
      case True
      with \<open>rls_order s \<noteq> [] \<and> _\<close> "1.IH"(1) r show ?thesis by blast
    next
      case False
      with \<open>rls_order s \<noteq> [] \<and> _\<close> "1.IH"(2) r show ?thesis by blast
    qed
    then obtain ys where "rls_order (remove_back s) = rls_order (evict now (remove_back s)) @ ys" by blast
    with b(1) have "rls_order s = rls_order (evict now (remove_back s)) @ (ys @ [last (rls_order s)])" by simp
    with ih show ?thesis unfolding e b(2-) by blast
  qed
qed

section \<open>One lookup\<close>

lemma inv_lookup:
  assumes "store_inv now s" "rls_entries s key = Some el"
  obtains xs e ys where "rls_order s = xs @ (el, e) # ys" "rle_key e = key"
proof -
  from assms obtain e where "(el, e) \<in> set (rls_order s)" "rle_key e = key" by (auto simp: store_inv_def)
  then show thesis using that by (metis split_list)
qed

lemma touch_eq:
  assumes "distinct (map fst (xs @ (el, e) # ys))"
  shows "touch now el (xs @ (el, e) # ys) = (el, e\<lparr>rle_lastSeen := now\<rparr>) # xs @ ys"
    and "limiter_of (xs @ (el, e) # ys) el = Some (rle_limiter e)"
proof -
  have n: "el \<notin> fst ` set xs" "el \<notin> fst ` set ys" using assms by auto
  have "find (\<lambda>(i, e). i = el) (xs @ (el, e) # ys) = Some (el, e)"
    using n(1) by (induction xs) auto
  moreover have "filter (\<lambda>(i, e). i \<noteq> el) xs = xs" "filter (\<lambda>(i, e). i \<noteq> el) ys = ys"
    using n by (force simp: filter_id_conv)+
  ultimately show "touch now el (xs @ (el, e) # ys) = (el, e\<lparr>rle_lastSeen := now\<rparr>) # xs @ ys"
    by (simp add: touch_def)
  show "limiter_of (xs @ (el, e) # ys) el = Some (rle_limiter e)"
  proof -
    have "map_of xs el = None" using n(1) by (simp add: map_of_eq_None_iff)
    then show ?thesis by (simp add: limiter_of_def map_add_def)
  qed
qed

lemma store_get_hit:
  assumes "store_inv now0 s" "rls_order s = xs @ (el, e) # ys" "rle_key e = key"
  shows "store_get mk now key s = (Some (rle_limiter e), s\<lparr>rls_order := (el, e\<lparr>rle_lastSeen := now\<rparr>) # xs @ ys\<rparr>)"
proof -
  have "rls_entries s key = Some el" using assms(2,3) store_inv_entry [OF assms(1)] by auto
  moreover have "distinct (map fst (xs @ (el, e) # ys))" using assms(1) unfolding assms(2) [symmetric] by (simp add: store_inv_def)
  ultimately show ?thesis using touch_eq [of xs el e ys] by (simp add: store_get_def assms(2))
qed

text \<open>What a miss adds to the store left by the eviction.\<close>

definition inserted :: "(rat \<Rightarrow> int \<Rightarrow> 'l) \<Rightarrow> int \<Rightarrow> string \<Rightarrow> 'l rateLimiterStore \<Rightarrow> 'l rateLimiterStore" where
  "inserted mk now key s =
     s\<lparr>rls_heap := rls_heap s @ [mk (rls_limit s) (rls_burst s)],
       rls_order := (rls_next s, \<lparr>rle_key = key, rle_limiter = length (rls_heap s), rle_lastSeen = now\<rparr>) # rls_order s,
       rls_entries := (rls_entries s)(key \<mapsto> rls_next s), rls_next := Suc (rls_next s)\<rparr>"

lemma store_get_miss:
  "rls_entries s key = None \<Longrightarrow> store_get mk now key s = (Some (length (rls_heap (evict now s))), inserted mk now key (evict now s))"
  by (simp add: store_get_def inserted_def Let_def)

lemma inserted_inv:
  assumes "store_inv now s" "rls_entries s key = None" "int (length (rls_order s)) < rls_maxSize s"
  shows "store_inv now (inserted mk now key s)"
proof -
  let ?s = "inserted mk now key s"
  have fresh: "rle_key e \<noteq> key" if "(i, e) \<in> set (rls_order s)" for i e
    using that assms(2) store_inv_entry [OF assms(1), of key i] by auto
  have lt: "\<And>i e. (i, e) \<in> set (rls_order s) \<Longrightarrow> i < rls_next s \<and> rle_limiter e < length (rls_heap s) \<and> rle_lastSeen e \<le> now"
    using assms(1) by (auto simp: store_inv_def)
  have new: "rls_next s \<notin> fst ` set (rls_order s)" "key \<notin> (rle_key \<circ> snd) ` set (rls_order s)"
    "length (rls_heap s) \<notin> (rle_limiter \<circ> snd) ` set (rls_order s)"
    using lt fresh by force+
  have map: "rls_entries ?s k = Some el \<longleftrightarrow> (\<exists>e. (el, e) \<in> set (rls_order ?s) \<and> rle_key e = k)" for k el
    using fresh store_inv_entry [OF assms(1), of k el] by (cases "k = key") (auto simp: inserted_def)
  show ?thesis
    unfolding store_inv_def
  proof (intro conjI)
    show "\<forall>k el. rls_entries ?s k = Some el \<longleftrightarrow> (\<exists>e. (el, e) \<in> set (rls_order ?s) \<and> rle_key e = k)"
      using map by blast
    show "\<forall>(i, e) \<in> set (rls_order ?s). i < rls_next ?s \<and> rle_limiter e < length (rls_heap ?s)"
      using lt by (fastforce simp: inserted_def)
    show "\<forall>(i, e) \<in> set (rls_order ?s). rle_lastSeen e \<le> now" using lt by (fastforce simp: inserted_def)
    show "sorted_wrt (\<lambda>a b. rle_lastSeen (snd b) \<le> rle_lastSeen (snd a)) (rls_order ?s)"
      using lt assms(1) by (fastforce simp: inserted_def store_inv_def)
  qed (use assms new in \<open>auto simp: inserted_def store_inv_def\<close>)
qed

lemma evict_absent:
  assumes "store_inv now s" "rls_entries s key = None"
  shows "rls_entries (evict now s) key = None"
proof -
  note ev = evict_spec [OF assms(1)]
  then obtain zs where "rls_order s = rls_order (evict now s) @ zs" by blast
  then have "dom (rls_entries (evict now s)) \<subseteq> dom (rls_entries s)"
    using store_inv_keys [of now "evict now s"] store_inv_keys [OF assms(1)] ev by auto
  with assms(2) show ?thesis by blast
qed

lemma store_get_inv:
  assumes "store_inv now s"
  shows "store_inv now (snd (store_get mk now key s)) \<and> fst (store_get mk now key s) \<noteq> None
    \<and> rls_maxSize (snd (store_get mk now key s)) = rls_maxSize s \<and> rls_ttl (snd (store_get mk now key s)) = rls_ttl s"
proof (cases "rls_entries s key")
  case (Some el)
  obtain xs e ys where o: "rls_order s = xs @ (el, e) # ys" "rle_key e = key" by (rule inv_lookup [OF assms Some])
  have "store_inv now (s\<lparr>rls_order := (el, e\<lparr>rle_lastSeen := now\<rparr>) # xs @ ys\<rparr>)"
    using assms o unfolding store_inv_def by (auto simp: sorted_wrt_append o_def)
  with store_get_hit [OF assms o, of mk now] show ?thesis by simp
next
  case None
  note ev = evict_spec [OF assms]
  have "store_inv now (inserted mk now key (evict now s))"
    using ev evict_absent [OF assms None] by (intro inserted_inv) auto
  with ev show ?thesis by (simp add: store_get_miss [OF None]) (simp add: inserted_def)
qed

text \<open>What an eviction leaves is within the time to live.\<close>

lemma sorted_wrt_last:
  assumes "sorted_wrt R xs" "x \<in> set xs" "\<And>x. R x x"
  shows "R x (last xs)"
  using assms by (cases xs rule: rev_cases) (auto simp: sorted_wrt_append)

lemma evict_fresh:
  assumes "store_inv now s" "(i, e) \<in> set (rls_order (evict now s))"
  shows "\<not> (0 < rls_ttl s \<and> time_sub now (rle_lastSeen e) > rls_ttl s)"
proof -
  let ?o = "rls_order (evict now s)"
  note ev = evict_spec [OF assms(1)]
  have "sorted_wrt (\<lambda>a b. rle_lastSeen (snd b) \<le> rle_lastSeen (snd a)) ?o" using ev by (simp add: store_inv_def)
  from sorted_wrt_last [OF this assms(2)] have "rle_lastSeen (snd (last ?o)) \<le> rle_lastSeen e" by simp
  moreover have "\<not> (0 < rls_ttl s \<and> time_sub now (rle_lastSeen (snd (last ?o))) > rls_ttl s)" using ev assms(2) by force
  ultimately show ?thesis by (auto simp: time_sub_def)
qed

section \<open>Sequences of lookups\<close>

fun store_gets :: "(rat \<Rightarrow> int \<Rightarrow> 'l) \<Rightarrow> (int \<times> string) list \<Rightarrow> 'l rateLimiterStore \<Rightarrow> 'l rateLimiterStore" where
  "store_gets mk [] s = s"
| "store_gets mk ((now, key) # ops) s = store_gets mk ops (snd (store_get mk now key s))"

lemma store_gets_inv:
  "store_inv now s \<Longrightarrow> sorted (now # map fst ops) \<Longrightarrow>
     store_inv (last (now # map fst ops)) (store_gets mk ops s) \<and> rls_maxSize (store_gets mk ops s) = rls_maxSize s
     \<and> rls_ttl (store_gets mk ops s) = rls_ttl s"
proof (induction ops arbitrary: now s)
  case (Cons op ops)
  obtain t k where op: "op = (t, k)" by (cases op)
  have "store_inv t s" using Cons.prems op store_inv_later [of now s t] by simp
  from store_get_inv [OF this, of mk k] have
    "store_inv t (snd (store_get mk t k s))" "rls_maxSize (snd (store_get mk t k s)) = rls_maxSize s"
    "rls_ttl (snd (store_get mk t k s)) = rls_ttl s" by auto
  with Cons.IH [of t "snd (store_get mk t k s)"] Cons.prems op show ?case by simp
qed simp

lemma store_gets_new:
  assumes "0 < maxSize" "sorted (map fst ops @ [t])"
  shows "store_inv t (store_gets mk ops (newRateLimiterStore rps burst maxSize ttl))
    \<and> rls_maxSize (store_gets mk ops (newRateLimiterStore rps burst maxSize ttl)) = maxSize
    \<and> rls_ttl (store_gets mk ops (newRateLimiterStore rps burst maxSize ttl)) = ttl"
proof -
  let ?s0 = "newRateLimiterStore rps burst maxSize ttl" and ?t0 = "hd (map fst ops @ [t])"
  have "sorted (?t0 # map fst ops)" using assms(2) by (cases ops) (simp_all add: sorted_append)
  moreover have "last (?t0 # map fst ops) \<le> t"
    using assms(2) last_in_set [of "map fst ops"] by (cases "ops = []") (auto simp: sorted_append)
  moreover have "store_inv ?t0 ?s0" by (rule store_inv_new [OF assms(1)])
  moreover have "rls_maxSize ?s0 = maxSize" "rls_ttl ?s0 = ttl" by (simp_all add: newRateLimiterStore_def)
  ultimately show ?thesis using store_gets_inv [of ?t0 ?s0 ops mk] store_inv_later [of _ _ t] by auto
qed

text \<open>A lookup leaves the key in front; a hit keeps the others in order, a miss a front part of the list.\<close>

definition in_front :: "int \<Rightarrow> string \<Rightarrow> 'l rateLimiterStore \<Rightarrow> nat option \<times> 'l rateLimiterStore \<Rightarrow> bool" where
  "in_front t key s r \<longleftrightarrow>
     (\<exists>el e rest. rls_order (snd r) = (el, e) # rest \<and> rle_key e = key \<and> rle_lastSeen e = t \<and> fst r = Some (rle_limiter e)
        \<and> (if rls_entries s key = None then \<exists>n. rest = take n (rls_order s)
            else rest = filter (\<lambda>(i, e). rle_key e \<noteq> key) (rls_order s)))"

lemma store_get_front:
  assumes "store_inv t s"
  shows "in_front t key s (store_get mk t key s)"
proof (cases "rls_entries s key")
  case (Some el)
  obtain xs e ys where o: "rls_order s = xs @ (el, e) # ys" "rle_key e = key" by (rule inv_lookup [OF assms Some])
  have "distinct (map (rle_key \<circ> snd) (xs @ (el, e) # ys))" using assms unfolding store_inv_def o(1) [symmetric] by blast
  then have "key \<notin> (rle_key \<circ> snd) ` set xs" "key \<notin> (rle_key \<circ> snd) ` set ys" using o(2) by auto
  then have "filter (\<lambda>(i, e). rle_key e \<noteq> key) xs = xs" "filter (\<lambda>(i, e). rle_key e \<noteq> key) ys = ys"
    by (force simp: filter_id_conv)+
  then have "filter (\<lambda>(i, e). rle_key e \<noteq> key) (rls_order s) = xs @ ys" using o by simp
  with store_get_hit [OF assms o, of mk t] Some o show ?thesis by (simp add: in_front_def)
next
  case None
  obtain ys where "rls_order s = rls_order (evict t s) @ ys" using evict_spec [OF assms] by blast
  then have "rls_order (evict t s) = take (length (rls_order (evict t s))) (rls_order s)" by simp
  with None show ?thesis by (simp add: store_get_miss in_front_def) (auto simp: inserted_def)
qed

text \<open>
  C26: the store never grows past its cap, whatever keys arrive, and keeps its entries newest
  first. After any lookups at times that do not run backwards, the list is ordered by when its
  keys were last seen, the map and the list hold the same keys and no two keys share a limiter. The
  next lookup answers with the limiter of its key's entry, which is now the front of the list,
  stamped with the time of the lookup: after a hit the other entries follow in the order they had,
  after a miss a front part of the list does, each of them seen within the time to live.
\<close>

theorem rate_limit_store_inv:
  assumes "0 < maxSize" "sorted (map fst ops @ [t])"
    and "s = store_gets mk ops (newRateLimiterStore rps burst maxSize ttl)"
  shows "int (length (rls_order s)) \<le> maxSize
    \<and> sorted_wrt (\<lambda>a b. rle_lastSeen (snd b) \<le> rle_lastSeen (snd a)) (rls_order s)
    \<and> dom (rls_entries s) = (rle_key \<circ> snd) ` set (rls_order s)
    \<and> distinct (map (rle_key \<circ> snd) (rls_order s)) \<and> distinct (map (rle_limiter \<circ> snd) (rls_order s))
    \<and> in_front t key s (store_get mk t key s)
    \<and> (rls_entries s key = None \<and> 0 < ttl \<longrightarrow>
         (\<forall>(i, e) \<in> set (rls_order (snd (store_get mk t key s))). time_sub t (rle_lastSeen e) \<le> ttl))"
proof -
  have s: "store_inv t s \<and> rls_maxSize s = maxSize \<and> rls_ttl s = ttl"
    unfolding assms(3) by (rule store_gets_new [OF assms(1,2)])
  have "time_sub t (rle_lastSeen e) \<le> ttl"
    if miss: "rls_entries s key = None" "0 < ttl" and e: "(i, e) \<in> set (rls_order (snd (store_get mk t key s)))" for i e
  proof -
    have "time_sub t t \<le> ttl" using miss(2) by (simp add: time_sub_def)
    moreover have "(i, e) \<in> set (rls_order (evict t s)) \<or> rle_lastSeen e = t"
      using e by (auto simp: store_get_miss [OF miss(1)] inserted_def)
    ultimately show ?thesis using evict_fresh [of t s i e] s miss(2) by fastforce
  qed
  moreover have "in_front t key s (store_get mk t key s)" using store_get_front s by blast
  ultimately show ?thesis using s store_inv_keys [of t s] by (auto simp: store_inv_def)
qed

text \<open>Entries near the front and still fresh survive an eviction.\<close>

lemma evict_keeps:
  "rls_order s = xs @ b # ys \<Longrightarrow> int (length xs) + 1 < rls_maxSize s \<Longrightarrow>
     \<not> (0 < rls_ttl s \<and> time_sub now (rle_lastSeen (snd b)) > rls_ttl s) \<Longrightarrow>
     \<exists>zs. rls_order (evict now s) = xs @ b # zs"
proof (induction ys arbitrary: s rule: rev_induct)
  case Nil
  then have "evict now s = s" by (subst evict.simps) auto
  with Nil.prems(1) show ?case by auto
next
  case (snoc y ys)
  show ?case
  proof (cases "evict now s = s")
    case True
    with snoc.prems(1) show ?thesis by auto
  next
    case False
    then have "evict now s = evict now (remove_back s)" by (subst evict.simps) (metis evict.simps)
    moreover have "rls_order (remove_back s) = xs @ b # ys" "rls_maxSize (remove_back s) = rls_maxSize s"
      "rls_ttl (remove_back s) = rls_ttl s"
      using snoc.prems(1) by (simp_all add: remove_back_def butlast_append)
    ultimately show ?thesis using snoc.IH [of "remove_back s"] snoc.prems(2,3) by simp
  qed
qed

text \<open>The key's entry is still there, behind only keys that came since.\<close>

definition tracked :: "string \<Rightarrow> nat \<Rightarrow> int \<Rightarrow> string set \<Rightarrow> 'l rateLimiterStore \<Rightarrow> bool" where
  "tracked key l t0 K s \<longleftrightarrow>
     (\<exists>xs el e ys. rls_order s = xs @ (el, e) # ys \<and> rle_key e = key \<and> rle_limiter e = l
        \<and> t0 \<le> rle_lastSeen e \<and> (rle_key \<circ> snd) ` set xs \<subseteq> K - {key})"

lemma trackedI:
  assumes "rls_order s = xs @ (el, e) # ys" "rle_key e = key" "rle_limiter e = l" "t0 \<le> rle_lastSeen e"
    and "(rle_key \<circ> snd) ` set xs \<subseteq> K - {key}"
  shows "tracked key l t0 K s"
  using assms unfolding tracked_def by blast

lemma tracked_hit:
  assumes "tracked key l t0 K s" "store_inv now s" "t0 \<le> now" "rls_entries s k = Some el2"
  shows "tracked key l t0 (insert k K) (snd (store_get mk now k s))"
proof -
  from assms(1) obtain xs el e ys where o: "rls_order s = xs @ (el, e) # ys" "rle_key e = key" "rle_limiter e = l"
    "t0 \<le> rle_lastSeen e" "(rle_key \<circ> snd) ` set xs \<subseteq> K - {key}" by (auto simp: tracked_def)
  obtain xs2 e2 ys2 where o2: "rls_order s = xs2 @ (el2, e2) # ys2" "rle_key e2 = k"
    by (rule inv_lookup [OF assms(2,4)])
  let ?top = "(el2, e2\<lparr>rle_lastSeen := now\<rparr>)"
  have get: "rls_order (snd (store_get mk now k s)) = ?top # xs2 @ ys2"
    using store_get_hit [OF assms(2) o2, of mk now] by simp
  have split: "xs @ (el, e) # ys = xs2 @ (el2, e2) # ys2" using o(1) o2(1) by simp
  show ?thesis
  proof (cases "k = key")
    case True
    have "rls_entries s key = Some el" using o(1,2) store_inv_entry [OF assms(2)] by auto
    with True assms(4) have "el2 = el" by simp
    moreover have "distinct (map fst (rls_order s))" using assms(2) by (simp add: store_inv_def)
    ultimately have "e2 = e" using o(1) o2(1) by (metis eq_key_imp_eq_value in_set_conv_decomp)
    then show ?thesis
      using get o(3) True o2(2) assms(3)
      by (intro trackedI [of _ "[]" el2 "e2\<lparr>rle_lastSeen := now\<rparr>" "xs2 @ ys2"]) auto
  next
    case False
    then have ne: "(el, e) \<noteq> (el2, e2)" using o(2) o2(2) by auto
    from split ne consider us where "xs = xs2 @ (el2, e2) # us" "ys2 = us @ (el, e) # ys"
      | us where "xs2 = xs @ (el, e) # us" "ys = us @ (el2, e2) # ys2"
      by (auto simp: append_eq_append_conv2 Cons_eq_append_conv append_eq_Cons_conv)
    then show ?thesis
    proof cases
      case 1
      then show ?thesis using get o o2(2) False by (intro trackedI [of _ "?top # xs2 @ us"]) auto
    next
      case 2
      then show ?thesis using get o o2(2) False by (intro trackedI [of _ "?top # xs"]) auto
    qed
  qed
qed

lemma tracked_miss:
  assumes "tracked key l t0 K s" "store_inv now s" "finite K" "rls_entries s k = None"
    and "int (card (insert key (insert k K))) \<le> rls_maxSize s"
    and "\<not> (0 < rls_ttl s \<and> time_sub now t0 > rls_ttl s)"
  shows "tracked key l t0 (insert k K) (snd (store_get mk now k s))"
proof -
  from assms(1) obtain xs el e ys where o: "rls_order s = xs @ (el, e) # ys" "rle_key e = key" "rle_limiter e = l"
    "t0 \<le> rle_lastSeen e" "(rle_key \<circ> snd) ` set xs \<subseteq> K - {key}" by (auto simp: tracked_def)
  let ?ks = "(rle_key \<circ> snd) ` set xs"
  have "insert key ?ks \<subseteq> dom (rls_entries s)" using o(1,2) by (auto simp: store_inv_keys [OF assms(2)])
  with assms(4) have k: "k \<noteq> key" "k \<notin> ?ks" by blast+
  have "distinct (map (rle_key \<circ> snd) xs)" using assms(2) o(1) by (simp add: store_inv_def)
  then have "card ?ks = length xs" using distinct_card by fastforce
  moreover have "key \<notin> ?ks" using o(5) by blast
  ultimately have "card (insert key (insert k ?ks)) = length xs + 2" using k by simp
  moreover have "card (insert key (insert k ?ks)) \<le> card (insert key (insert k K))"
    using o(5) assms(3) by (intro card_mono) auto
  ultimately have len: "int (length xs) + 1 < rls_maxSize s" using assms(5) by linarith
  have "\<not> (0 < rls_ttl s \<and> time_sub now (rle_lastSeen (snd (el, e))) > rls_ttl s)"
    using assms(6) o(4) by (auto simp: time_sub_def)
  from evict_keeps [OF o(1) len this] obtain zs where zs: "rls_order (evict now s) = xs @ (el, e) # zs" by blast
  let ?n = "(rls_next (evict now s), \<lparr>rle_key = k, rle_limiter = length (rls_heap (evict now s)), rle_lastSeen = now\<rparr>)"
  have "rls_order (snd (store_get mk now k s)) = (?n # xs) @ (el, e) # zs"
    using zs by (simp add: store_get_miss [OF assms(4)]) (simp add: inserted_def)
  then show ?thesis using o k by (intro trackedI [of _ "?n # xs" el e zs]) auto
qed

lemma tracked_get:
  assumes "tracked key l t0 K s" "store_inv now s" "t0 \<le> now" "finite K"
    and "int (card (insert key (insert k K))) \<le> rls_maxSize s"
    and "\<not> (0 < rls_ttl s \<and> time_sub now t0 > rls_ttl s)"
  shows "tracked key l t0 (insert k K) (snd (store_get mk now k s))"
proof (cases "rls_entries s k")
  case None
  show ?thesis by (rule tracked_miss [OF assms(1,2,4) None assms(5,6)])
next
  case (Some el)
  show ?thesis by (rule tracked_hit [OF assms(1-3) Some])
qed

lemma tracked_gets:
  "tracked key l t0 K s \<Longrightarrow> store_inv now s \<Longrightarrow> t0 \<le> now \<Longrightarrow> finite K \<Longrightarrow> sorted (now # map fst ops @ [t]) \<Longrightarrow>
     int (card (insert key (K \<union> snd ` set ops))) \<le> rls_maxSize s \<Longrightarrow>
     \<not> (0 < rls_ttl s \<and> time_sub t t0 > rls_ttl s) \<Longrightarrow>
     tracked key l t0 (K \<union> snd ` set ops) (store_gets mk ops s)"
proof (induction ops arbitrary: K s now)
  case (Cons op ops)
  obtain t1 k where op: "op = (t1, k)" by (cases op)
  have t1: "now \<le> t1" "t1 \<le> t" "sorted (t1 # map fst ops @ [t])" using Cons.prems(5) op by auto
  have inv: "store_inv t1 s" using Cons.prems(2) t1(1) by (rule store_inv_later)
  have "card (insert key (insert k K)) \<le> card (insert key (K \<union> snd ` set (op # ops)))"
    using Cons.prems(4) op by (intro card_mono) auto
  then have c: "int (card (insert key (insert k K))) \<le> rls_maxSize s" using Cons.prems(6) by linarith
  have f: "\<not> (0 < rls_ttl s \<and> time_sub t1 t0 > rls_ttl s)"
    using Cons.prems(7) t1(2) by (auto simp: time_sub_def)
  let ?s = "snd (store_get mk t1 k s)"
  have tr: "tracked key l t0 (insert k K) ?s"
    by (rule tracked_get [OF Cons.prems(1) inv _ Cons.prems(4) c f]) (use Cons.prems(3) t1(1) in simp)
  note i = store_get_inv [OF inv, of mk k]
  have eq: "insert k K \<union> snd ` set ops = K \<union> snd ` set (op # ops)" using op by auto
  have "tracked key l t0 (insert k K \<union> snd ` set ops) (store_gets mk ops ?s)"
  proof (rule Cons.IH [OF tr])
    show "store_inv t1 ?s" using i by blast
    show "int (card (insert key (insert k K \<union> snd ` set ops))) \<le> rls_maxSize ?s" using Cons.prems(6) i eq by simp
    show "\<not> (0 < rls_ttl ?s \<and> time_sub t t0 > rls_ttl ?s)" using Cons.prems(7) i by simp
  qed (use Cons.prems(3,4) t1 in auto)
  then show ?case unfolding eq by (simp add: op)
qed simp

text \<open>
  A client keeps its token bucket. If, since a client was last seen, no more different keys
  came in than the cap has room for, itself included, and no more than the time to live has
  passed, the next lookup returns the very limiter it had, whatever the others did.
\<close>

theorem rate_limit_bucket_kept:
  assumes "store_inv t0 s" "store_get mk t0 key s = (p, s1)"
    and "sorted (t0 # map fst ops @ [t])"
    and "int (card (insert key (snd ` set ops))) \<le> rls_maxSize s"
    and "rls_ttl s \<le> 0 \<or> time_sub t t0 \<le> rls_ttl s"
  shows "p \<noteq> None \<and> fst (store_get mk t key (store_gets mk ops s1)) = p"
proof -
  note i = store_get_inv [OF assms(1), of mk key]
  have s1: "store_inv t0 s1" "rls_maxSize s1 = rls_maxSize s" "rls_ttl s1 = rls_ttl s" "p \<noteq> None"
    using i assms(2) by auto
  then obtain l where l: "p = Some l" by auto
  have "tracked key l t0 {} s1"
  proof (cases "rls_entries s key")
    case (Some el)
    obtain xs e ys where o: "rls_order s = xs @ (el, e) # ys" "rle_key e = key" by (rule inv_lookup [OF assms(1) Some])
    with store_get_hit [OF assms(1) o, of mk t0] assms(2) l show ?thesis
      unfolding tracked_def by (intro exI [of _ "[]"]) auto
  next
    case None
    with assms(2) l show ?thesis
      unfolding tracked_def by (intro exI [of _ "[]"]) (auto simp: store_get_def Let_def)
  qed
  from tracked_gets [OF this s1(1) order_refl finite.emptyI assms(3)] assms(4,5) s1
  have tr: "tracked key l t0 (snd ` set ops) (store_gets mk ops s1)" by auto
  have "sorted (t0 # map fst ops)" using assms(3) by (simp add: sorted_append)
  with store_gets_inv [OF s1(1)] have inv: "store_inv (last (t0 # map fst ops)) (store_gets mk ops s1)" by blast
  from tr obtain xs el e ys where "rls_order (store_gets mk ops s1) = xs @ (el, e) # ys" "rle_key e = key" "rle_limiter e = l"
    by (auto simp: tracked_def)
  with store_get_hit [OF inv this(1,2), of mk t] l s1(4) show ?thesis by simp
qed

section \<open>Concrete stores\<close>

text \<open>A limiter that is just its burst; two entries at most, ten nanoseconds to live.\<close>

definition sample_store :: "int rateLimiterStore" where
  "sample_store = newRateLimiterStore 1 5 2 10"

theorem rate_limit_store_inv_witness:
  "int (length (rls_order (store_gets (\<lambda>_ b. b) [(1, ''a''), (2, ''b''), (3, ''c'')] sample_store))) \<le> 2"
  using rate_limit_store_inv [of 2 "[(1, ''a''), (2, ''b''), (3, ''c'')]" 4
      "store_gets (\<lambda>_ b. b) [(1, ''a''), (2, ''b''), (3, ''c'')] sample_store" "\<lambda>_ b. b" 1 5 10]
  by (simp add: sample_store_def)

theorem rate_limit_bucket_kept_witness:
  "fst (store_get (\<lambda>_ b. b) 9 ''a'' (store_gets (\<lambda>_ b. b) [(2, ''b''), (3, ''b'')] (snd (store_get (\<lambda>_ b. b) 1 ''a'' sample_store))))
     = Some 0"
proof -
  have inv: "store_inv 1 sample_store" unfolding sample_store_def by (rule store_inv_new) simp
  have p: "fst (store_get (\<lambda>_ b. b) 1 ''a'' sample_store) = Some 0"
    by (simp add: sample_store_def newRateLimiterStore_def store_get_def evict.simps Let_def)
  have c: "int (card (insert ''a'' (snd ` set [(2 :: int, ''b''), (3, ''b'')]))) \<le> rls_maxSize sample_store"
    by (simp add: sample_store_def newRateLimiterStore_def)
  have t: "rls_ttl sample_store \<le> 0 \<or> time_sub 9 1 \<le> rls_ttl sample_store"
    by (simp add: sample_store_def newRateLimiterStore_def time_sub_def)
  from rate_limit_bucket_kept [OF inv prod.collapse [symmetric] _ c t] p show ?thesis by simp
qed

end
