(* ===== verification/Middleware.thy ===== *)
theory Middleware
  imports Health Config RateLimitStore
begin

text \<open>
  internal/middleware, internal/platform/httperror and the router of cmd/server/providers.go.
  The gin framework is third party: a request is what its accessors answer, and what a handler
  does to the response is the list of calls it makes on gin's context, in order. A middleware
  takes the rest of the chain (\<open>c.Next()\<close>) as an argument.
\<close>

section \<open>Requests, responses, handlers\<close>

record gin_request =
  rq_Method :: string
  rq_Path :: string
  rq_GetHeader :: "string \<Rightarrow> string"
  rq_ClientIP :: string
  rq_RemoteAddr :: string
  rq_SpanValid :: bool

datatype gin_event =
    RespSet string string
  | RespAdd string string
  | CtxSet string string
  | AbortWithStatus int
  | AbortWithStatusJSON int json
  | WriteJSON int json
  | LogLine string "(string \<times> json) list"
  | SpanError string

text \<open>
  The request as the handlers see it: the request id and the deadlines its context carries, the
  limits its body reader enforces, and the calls made so far.
\<close>

record gin_ctx =
  gc_req :: gin_request
  gc_rid :: "string option"
  gc_deadlines :: "duration list"
  gc_body_limits :: "int list"
  gc_events :: "gin_event list"

definition emit :: "gin_event list \<Rightarrow> gin_ctx \<Rightarrow> gin_ctx" where
  "emit es c = c\<lparr>gc_events := gc_events c @ es\<rparr>"

text \<open>A handler returns, or panics with a value, here its printed form.\<close>

datatype gin_outcome = Returned gin_ctx | Panicked string gin_ctx

fun outcome_ctx :: "gin_outcome \<Rightarrow> gin_ctx" where
  "outcome_ctx (Returned c) = c"
| "outcome_ctx (Panicked v c) = c"

type_synonym gin_handler = "gin_ctx \<Rightarrow> gin_outcome"
type_synonym gin_middleware = "gin_handler \<Rightarrow> gin_handler"

lemma emit_simps [simp]:
  "gc_events (emit es c) = gc_events c @ es" "gc_req (emit es c) = gc_req c" "gc_rid (emit es c) = gc_rid c"
  "gc_deadlines (emit es c) = gc_deadlines c" "gc_body_limits (emit es c) = gc_body_limits c"
  by (simp_all add: emit_def)

section \<open>httperror\<close>

definition Envelope :: "string \<Rightarrow> string \<Rightarrow> json" where
  "Envelope code message =
     JObject [(''error'', JObject ((if code \<noteq> [] then [(''code'', JString code)] else []) @ [(''message'', JString message)]))]"

definition httperror_Write :: "int \<Rightarrow> string \<Rightarrow> string \<Rightarrow> gin_ctx \<Rightarrow> gin_ctx" where
  "httperror_Write status code message c = emit [AbortWithStatusJSON status (Envelope code message)] c"

definition httperror_WriteErr :: "int \<Rightarrow> string \<Rightarrow> go_error \<Rightarrow> gin_ctx \<Rightarrow> gin_ctx" where
  "httperror_WriteErr status code err c = httperror_Write status code (error_text err) c"

definition httperror_BadRequest :: "go_error \<Rightarrow> gin_ctx \<Rightarrow> gin_ctx" where
  "httperror_BadRequest err c = httperror_WriteErr 400 ''BAD_REQUEST'' err c"

definition httperror_Conflict :: "go_error \<Rightarrow> gin_ctx \<Rightarrow> gin_ctx" where
  "httperror_Conflict err c = httperror_WriteErr 409 ''CONFLICT'' err c"

definition httperror_NotFound :: "go_error \<Rightarrow> gin_ctx \<Rightarrow> gin_ctx" where
  "httperror_NotFound err c = httperror_WriteErr 404 ''NOT_FOUND'' err c"

definition httperror_Internal :: "go_error \<Rightarrow> gin_ctx \<Rightarrow> gin_ctx" where
  "httperror_Internal err c = httperror_WriteErr 500 ''INTERNAL'' err c"

section \<open>Middlewares\<close>

definition HeaderRequestID :: string where "HeaderRequestID = ''X-Request-ID''"

text \<open>\<open>uuid\<close> is what \<open>uuid.NewString()\<close> returns for this request.\<close>

definition RequestID :: "string \<Rightarrow> gin_middleware" where
  "RequestID uuid next c =
     (let id = rq_GetHeader (gc_req c) HeaderRequestID;
          id = (if id = [] then uuid else id);
          c = emit [CtxSet HeaderRequestID id] c;
          c = c\<lparr>gc_rid := Some id\<rparr>;
          c = emit [RespSet HeaderRequestID id] c
      in next c)"

definition FromContext :: "gin_ctx \<Rightarrow> string" where
  "FromContext c = (case gc_rid c of Some v \<Rightarrow> v | None \<Rightarrow> [])"

definition Recovery :: gin_middleware where
  "Recovery next c =
     (case next c of
        Returned c' \<Rightarrow> Returned c'
      | Panicked r c' \<Rightarrow>
          (let err = ''panic: '' @ r;
               c' = emit [LogLine ''panic recovered'' [(''error'', JString err), (''path'', JString (rq_Path (gc_req c')))]] c';
               c' = (if rq_SpanValid (gc_req c') then emit [SpanError err] c' else c')
           in Returned (emit [AbortWithStatus 500] c')))"

definition BodyLimit :: "int \<Rightarrow> gin_middleware" where
  "BodyLimit maxBytes next c =
     (if maxBytes \<le> 0 then next c else next (c\<lparr>gc_body_limits := maxBytes # gc_body_limits c\<rparr>))"

definition Timeout :: "duration \<Rightarrow> gin_middleware" where
  "Timeout d next c = (if d \<le> 0 then next c else next (c\<lparr>gc_deadlines := d # gc_deadlines c\<rparr>))"

text \<open>\<open>status\<close> is the status gin's writer reports after the calls made; \<open>latency\<close> is read off the clock.\<close>

definition RequestLogger :: "(gin_event list \<Rightarrow> int) \<Rightarrow> (gin_ctx \<Rightarrow> duration) \<Rightarrow> gin_middleware" where
  "RequestLogger status latency next c =
     (case next c of
        Panicked v c' \<Rightarrow> Panicked v c'
      | Returned c' \<Rightarrow>
          (let attrs = [(''method'', JString (rq_Method (gc_req c'))), (''path'', JString (rq_Path (gc_req c'))),
                        (''status'', JInt (status (gc_events c'))), (''latency'', JInt (latency c')),
                        (''client_ip'', JString (rq_ClientIP (gc_req c')))];
               rid = FromContext c';
               attrs = (if rid \<noteq> [] then attrs @ [(''request_id'', JString rid)] else attrs)
           in Returned (emit [LogLine ''http request'' attrs] c')))"

definition cors_headers :: "CORSConfig \<Rightarrow> string \<Rightarrow> gin_event list" where
  "cors_headers cfg origin =
     (let wildcard = list_ex (\<lambda>orig. orig = ''*'') (cors_AllowedOrigins cfg)
      in (if origin \<noteq> [] then
            (if wildcard \<and> \<not> cors_AllowCredentials cfg then [RespSet ''Access-Control-Allow-Origin'' ''*'']
             else if origin \<in> set (cors_AllowedOrigins cfg)
               then [RespSet ''Access-Control-Allow-Origin'' origin, RespAdd ''Vary'' ''Origin'']
             else [])
          else [])
         @ [RespSet ''Access-Control-Allow-Methods'' (strings_join (cors_AllowedMethods cfg) '', ''),
            RespSet ''Access-Control-Allow-Headers'' (strings_join (cors_AllowedHeaders cfg) '', ''),
            RespSet ''Access-Control-Max-Age'' (itoa (cors_MaxAgeSeconds cfg))]
         @ (if cors_AllowCredentials cfg then [RespSet ''Access-Control-Allow-Credentials'' ''true''] else []))"

definition CORS :: "CORSConfig \<Rightarrow> gin_middleware" where
  "CORS cfg next c =
     (let c = emit (cors_headers cfg (rq_GetHeader (gc_req c) ''Origin'')) c
      in if rq_Method (gc_req c) = ''OPTIONS'' then Returned (emit [AbortWithStatus 204] c) else next c)"

section \<open>Rate limiting\<close>

record 'l rate_limit_state =
  rl_perIP :: "'l rateLimiterStore option"
  rl_global :: "'l option"

definition rate_limit_max_size :: "RateLimitConfig \<Rightarrow> int" where
  "rate_limit_max_size cfg = (if rl_MapMaxEntries cfg \<le> 0 then 50000 else rl_MapMaxEntries cfg)"

text \<open>What \<open>RateLimit\<close> sets up; None is the handler that lets everything through.\<close>

definition RateLimit_setup :: "(rat \<Rightarrow> int \<Rightarrow> 'l) \<Rightarrow> RateLimitConfig \<Rightarrow> 'l rate_limit_state option" where
  "RateLimit_setup new_limiter cfg =
     (if rb_RPS (rl_PerIP cfg) \<le> 0 \<and> rb_RPS (rl_Global cfg) \<le> 0 then None
      else
        let maxSize = rate_limit_max_size cfg;
            ttl = (if rl_MapTTL cfg \<le> 0 then 10 * minute else rl_MapTTL cfg)
        in Some \<lparr>rl_perIP = (if rb_RPS (rl_PerIP cfg) > 0
                      then Some (newRateLimiterStore (rb_RPS (rl_PerIP cfg)) (rb_Burst (rl_PerIP cfg)) maxSize ttl) else None),
                 rl_global = (if rb_RPS (rl_Global cfg) > 0
                      then Some (new_limiter (rb_RPS (rl_Global cfg)) (rb_Burst (rl_Global cfg))) else None)\<rparr>)"

definition tooMany :: "int \<Rightarrow> gin_ctx \<Rightarrow> gin_ctx" where
  "tooMany retryAfterSec c =
     emit [RespSet ''Retry-After'' (itoa retryAfterSec),
           AbortWithStatusJSON 429 (JObject [(''error'', JString ''rate limit exceeded'')])] c"

definition rate_limit_key :: "gin_request \<Rightarrow> string" where
  "rate_limit_key rq = (if rq_ClientIP rq = [] then rq_RemoteAddr rq else rq_ClientIP rq)"

text \<open>
  The decision for one request and the limiters after it. \<open>allow\<close> is the limiter's \<open>Allow\<close> at an
  instant; the limiter the store returned is a pointer, so its new state goes into the heap.
\<close>

definition global_allow ::
  "(int \<Rightarrow> 'l \<Rightarrow> bool \<times> 'l) \<Rightarrow> int \<Rightarrow> 'l rate_limit_state \<Rightarrow> bool \<times> 'l rate_limit_state" where
  "global_allow allow now st =
     (case rl_global st of
        None \<Rightarrow> (True, st)
      | Some l \<Rightarrow> (let (ok, l') = allow now l in (ok, st\<lparr>rl_global := Some l'\<rparr>)))"

definition per_ip_allow ::
  "(rat \<Rightarrow> int \<Rightarrow> 'l) \<Rightarrow> (int \<Rightarrow> 'l \<Rightarrow> bool \<times> 'l) \<Rightarrow> int \<Rightarrow> gin_request \<Rightarrow> 'l rate_limit_state
     \<Rightarrow> bool \<times> 'l rate_limit_state" where
  "per_ip_allow new_limiter allow now rq st =
     (case rl_perIP st of
        None \<Rightarrow> (True, st)
      | Some store \<Rightarrow>
          (case store_get new_limiter now (rate_limit_key rq) store of
             (None, store') \<Rightarrow> (False, st\<lparr>rl_perIP := Some store'\<rparr>)
           | (Some p, store') \<Rightarrow>
               (let (ok, l') = allow now (rls_heap store' ! p)
                in (ok, st\<lparr>rl_perIP := Some (store'\<lparr>rls_heap := (rls_heap store')[p := l']\<rparr>)\<rparr>))))"

definition RateLimit ::
  "(rat \<Rightarrow> int \<Rightarrow> 'l) \<Rightarrow> (int \<Rightarrow> 'l \<Rightarrow> bool \<times> 'l) \<Rightarrow> int \<Rightarrow> 'l rate_limit_state option
     \<Rightarrow> gin_handler \<Rightarrow> gin_ctx \<Rightarrow> gin_outcome \<times> 'l rate_limit_state option" where
  "RateLimit new_limiter allow now state next c =
     (case state of
        None \<Rightarrow> (next c, None)
      | Some st \<Rightarrow>
         (let (ok, st) = global_allow allow now st
          in if \<not> ok then (Returned (tooMany 1 c), Some st)
             else let (ok, st) = per_ip_allow new_limiter allow now (gc_req c) st
                  in if \<not> ok then (Returned (tooMany 1 c), Some st) else (next c, Some st)))"

section \<open>The router's chain\<close>

text \<open>
  The order of \<open>ProvideRouter\<close>, inside the tracing middleware (third party). \<open>limiters\<close> are the
  limiters as this request finds them.
\<close>

definition router_chain ::
  "Config \<Rightarrow> string \<Rightarrow> (gin_event list \<Rightarrow> int) \<Rightarrow> (gin_ctx \<Rightarrow> duration)
     \<Rightarrow> (rat \<Rightarrow> int \<Rightarrow> 'l) \<Rightarrow> (int \<Rightarrow> 'l \<Rightarrow> bool \<times> 'l) \<Rightarrow> int \<Rightarrow> 'l rate_limit_state option \<Rightarrow> gin_middleware" where
  "router_chain cfg uuid status latency new_limiter allow now limiters handler =
     Recovery (RequestID uuid (RequestLogger status latency
       (\<lambda>c. fst (RateLimit new_limiter allow now limiters
         (BodyLimit (srv_BodyLimitBytes (cfg_Server cfg))
           (Timeout (srv_HandlerTimeout (cfg_Server cfg)) (CORS (cfg_CORS cfg) handler))) c))))"

section \<open>What the chain guarantees\<close>

text \<open>A handler that only adds calls, whether it returns or panics.\<close>

definition appends :: "gin_handler \<Rightarrow> bool" where
  "appends h \<longleftrightarrow> (\<forall>c. \<exists>es. gc_events (outcome_ctx (h c)) = gc_events c @ es)"

lemma appendsD: "appends h \<Longrightarrow> \<exists>es. gc_events (outcome_ctx (h c)) = gc_events c @ es"
  by (simp add: appends_def)

lemma appendsI: "(\<And>c. \<exists>es. gc_events (outcome_ctx (h c)) = gc_events c @ es) \<Longrightarrow> appends h"
  by (simp add: appends_def)

lemma appends_CORS:
  assumes "appends h"
  shows "appends (CORS cfg h)"
proof (rule appendsI)
  fix c
  let ?c = "emit (cors_headers cfg (rq_GetHeader (gc_req c) ''Origin'')) c"
  from appendsD [OF assms, of ?c] obtain es where "gc_events (outcome_ctx (h ?c)) = gc_events ?c @ es" by blast
  then show "\<exists>es. gc_events (outcome_ctx (CORS cfg h c)) = gc_events c @ es"
    by (simp add: CORS_def Let_def)
qed

lemma appends_Timeout:
  assumes "appends h"
  shows "appends (Timeout d h)"
proof (rule appendsI)
  fix c
  show "\<exists>es. gc_events (outcome_ctx (Timeout d h c)) = gc_events c @ es"
    using appendsD [OF assms, of c] appendsD [OF assms, of "c\<lparr>gc_deadlines := d # gc_deadlines c\<rparr>"]
    by (simp add: Timeout_def)
qed

lemma appends_BodyLimit:
  assumes "appends h"
  shows "appends (BodyLimit n h)"
proof (rule appendsI)
  fix c
  show "\<exists>es. gc_events (outcome_ctx (BodyLimit n h c)) = gc_events c @ es"
    using appendsD [OF assms, of c] appendsD [OF assms, of "c\<lparr>gc_body_limits := n # gc_body_limits c\<rparr>"]
    by (simp add: BodyLimit_def)
qed

lemma RateLimit_cases:
  "fst (RateLimit mk allow now st h c) = h c \<or> fst (RateLimit mk allow now st h c) = Returned (tooMany 1 c)"
  by (cases st) (auto simp: RateLimit_def Let_def split: prod.splits)

lemma appends_RateLimit:
  assumes "appends h"
  shows "appends (\<lambda>c. fst (RateLimit mk allow now st h c))"
proof (rule appendsI)
  fix c
  show "\<exists>es. gc_events (outcome_ctx (fst (RateLimit mk allow now st h c))) = gc_events c @ es"
    using RateLimit_cases [of mk allow now st h c] appendsD [OF assms, of c] by (auto simp: tooMany_def)
qed

lemma appends_RequestLogger:
  assumes "appends h"
  shows "appends (RequestLogger status latency h)"
proof (rule appendsI)
  fix c
  show "\<exists>es. gc_events (outcome_ctx (RequestLogger status latency h c)) = gc_events c @ es"
    using appendsD [OF assms, of c] by (cases "h c") (auto simp: RequestLogger_def Let_def)
qed

text \<open>
  C28: whatever a handler does, including a panic, and whether or not the request is rate
  limited or a preflight, the chain returns, and the first thing it does to the response is to
  set the request id header: to the id the client sent, or to a fresh one if it sent none. A
  panic ends in status 500, logged and, inside a span, recorded.
\<close>

theorem router_request_id:
  assumes "appends handler"
    and "rid = (if rq_GetHeader (gc_req c) HeaderRequestID = [] then uuid else rq_GetHeader (gc_req c) HeaderRequestID)"
  shows "\<exists>c' es. router_chain cfg uuid status latency mk allow now limiters handler c = Returned c'
    \<and> gc_events c' = gc_events c @ [CtxSet HeaderRequestID rid, RespSet HeaderRequestID rid] @ es"
proof -
  define inner where "inner = RequestLogger status latency
       (\<lambda>c. fst (RateLimit mk allow now limiters
         (BodyLimit (srv_BodyLimitBytes (cfg_Server cfg))
           (Timeout (srv_HandlerTimeout (cfg_Server cfg)) (CORS (cfg_CORS cfg) handler))) c))"
  have "appends inner"
    unfolding inner_def
    by (intro appends_RequestLogger appends_RateLimit appends_BodyLimit appends_Timeout appends_CORS assms(1))
  define c1 where "c1 = emit [RespSet HeaderRequestID rid] ((emit [CtxSet HeaderRequestID rid] c)\<lparr>gc_rid := Some rid\<rparr>)"
  have r: "RequestID uuid inner c = inner c1"
    using assms(2) by (simp add: RequestID_def Let_def c1_def)
  from appendsD [OF \<open>appends inner\<close>, of c1] obtain es where
    es: "gc_events (outcome_ctx (inner c1)) = gc_events c1 @ es" by blast
  have c1: "gc_events c1 = gc_events c @ [CtxSet HeaderRequestID rid, RespSet HeaderRequestID rid]"
    by (simp add: c1_def)
  show ?thesis
    using es c1 r unfolding router_chain_def inner_def [symmetric]
    by (cases "inner c1") (auto simp: Recovery_def Let_def)
qed

text \<open>
  The handler runs only for a request that was not rate limited and is not a preflight, and
  then it finds the request id in its context, the handler deadline on it when one is
  configured, the body limit on its reader when one is configured, and the CORS headers written:
  two handlers that agree on all such contexts cannot be told apart through the chain.
\<close>

theorem router_handler_context:
  assumes "\<forall>c1. gc_rid c1 = Some rid \<and> gc_req c1 = gc_req c \<and> rq_Method (gc_req c) \<noteq> ''OPTIONS''
      \<and> (0 < srv_HandlerTimeout (cfg_Server cfg) \<longrightarrow> srv_HandlerTimeout (cfg_Server cfg) \<in> set (gc_deadlines c1))
      \<and> (0 < srv_BodyLimitBytes (cfg_Server cfg) \<longrightarrow> srv_BodyLimitBytes (cfg_Server cfg) \<in> set (gc_body_limits c1))
      \<and> set (cors_headers (cfg_CORS cfg) (rq_GetHeader (gc_req c) ''Origin'')) \<subseteq> set (gc_events c1)
      \<and> (\<forall>st. limiters = Some st \<longrightarrow> fst (global_allow allow now st)
           \<and> fst (per_ip_allow mk allow now (gc_req c) (snd (global_allow allow now st))))
      \<longrightarrow> h1 c1 = h2 c1"
    and "rid = (if rq_GetHeader (gc_req c) HeaderRequestID = [] then uuid else rq_GetHeader (gc_req c) HeaderRequestID)"
  shows "router_chain cfg uuid status latency mk allow now limiters h1 c
       = router_chain cfg uuid status latency mk allow now limiters h2 c"
proof -
  let ?t = "srv_HandlerTimeout (cfg_Server cfg)" and ?b = "srv_BodyLimitBytes (cfg_Server cfg)"
  let ?pass = "\<forall>st. limiters = Some st \<longrightarrow> fst (global_allow allow now st)
           \<and> fst (per_ip_allow mk allow now (gc_req c) (snd (global_allow allow now st)))"
  define c1 where "c1 = emit [RespSet HeaderRequestID rid] ((emit [CtxSet HeaderRequestID rid] c)\<lparr>gc_rid := Some rid\<rparr>)"
  have c1: "gc_rid c1 = Some rid" "gc_req c1 = gc_req c" by (simp_all add: c1_def)
  have cors: "CORS (cfg_CORS cfg) h1 x = CORS (cfg_CORS cfg) h2 x"
    if "gc_rid x = Some rid" "gc_req x = gc_req c" "0 < ?t \<longrightarrow> ?t \<in> set (gc_deadlines x)"
      "0 < ?b \<longrightarrow> ?b \<in> set (gc_body_limits x)" ?pass for x
    using that assms(1) by (simp add: CORS_def Let_def)
  have body: "BodyLimit ?b (Timeout ?t (CORS (cfg_CORS cfg) h1)) c1 = BodyLimit ?b (Timeout ?t (CORS (cfg_CORS cfg) h2)) c1"
    if ?pass
    unfolding BodyLimit_def Timeout_def using cors that c1 by (auto intro: cors)
  have rate: "fst (RateLimit mk allow now limiters (BodyLimit ?b (Timeout ?t (CORS (cfg_CORS cfg) h1))) c1)
      = fst (RateLimit mk allow now limiters (BodyLimit ?b (Timeout ?t (CORS (cfg_CORS cfg) h2))) c1)"
  proof (cases ?pass)
    case True
    then show ?thesis using body [OF True] by (auto simp: RateLimit_def Let_def split: option.splits prod.splits)
  next
    case False
    then obtain st where "limiters = Some st" "\<not> (fst (global_allow allow now st)
           \<and> fst (per_ip_allow mk allow now (gc_req c) (snd (global_allow allow now st))))" by blast
    then show ?thesis using c1 by (auto simp: RateLimit_def Let_def split: prod.splits)
  qed
  have "RequestID uuid f c = f c1" for f
    using assms(2) by (simp add: RequestID_def Let_def c1_def)
  then show ?thesis
    unfolding router_chain_def Recovery_def by (simp only: RequestLogger_def rate)
qed

section \<open>CORS\<close>




section \<open>Rate limiting\<close>

lemma store_inv_heap: "store_inv now s \<Longrightarrow> store_inv now (s\<lparr>rls_heap := (rls_heap s)[p := l]\<rparr>)"
  by (simp add: store_inv_def)

lemma tooMany_one:
  "tooMany 1 c = emit [RespSet ''Retry-After'' ''1'',
      AbortWithStatusJSON 429 (JObject [(''error'', JString ''rate limit exceeded'')])] c"
proof -
  have "itoa 1 = ''1''" by code_simp
  then show ?thesis by (simp add: tooMany_def)
qed

section \<open>Concrete requests\<close>

definition sample_request :: gin_ctx where
  "sample_request = \<lparr>gc_req = \<lparr>rq_Method = ''GET'', rq_Path = ''/ping'', rq_GetHeader = (\<lambda>_. []),
      rq_ClientIP = ''1.2.3.4'', rq_RemoteAddr = ''1.2.3.4:5'', rq_SpanValid = False\<rparr>,
     gc_rid = None, gc_deadlines = [], gc_body_limits = [], gc_events = []\<rparr>"

text \<open>A limiter that counts down its burst.\<close>

definition sample_new_limiter :: "rat \<Rightarrow> int \<Rightarrow> int" where "sample_new_limiter rps burst = burst"
definition sample_allow :: "int \<Rightarrow> int \<Rightarrow> bool \<times> int" where "sample_allow now l = (0 < l, l - 1)"

definition sample_limiters :: "int rate_limit_state" where
  "sample_limiters = the (RateLimit_setup sample_new_limiter (cfg_RateLimit sample_config))"

definition panicking :: gin_handler where
  "panicking c = Panicked ''boom'' c"

theorem router_request_id_witness:
  "\<exists>c' es. router_chain sample_config ''u'' (\<lambda>_. 200) (\<lambda>_. 0) sample_new_limiter sample_allow 0 (Some sample_limiters) panicking sample_request = Returned c'
    \<and> gc_events c' = [CtxSet HeaderRequestID ''u'', RespSet HeaderRequestID ''u''] @ es"
proof -
  have "appends panicking" by (simp add: appends_def panicking_def)
  from router_request_id [OF this refl, where c = sample_request and uuid = "''u''" and cfg = sample_config and status = "\<lambda>_. 200" and latency = "\<lambda>_. 0"
      and mk = sample_new_limiter and allow = sample_allow and now = 0 and limiters = "Some sample_limiters"]
  show ?thesis by (simp add: sample_request_def)
qed

theorem router_handler_context_witness:
  "router_chain sample_config ''u'' (\<lambda>_. 200) (\<lambda>_. 0) sample_new_limiter sample_allow 0 None panicking sample_request
   = router_chain sample_config ''u'' (\<lambda>_. 200) (\<lambda>_. 0) sample_new_limiter sample_allow 0 None
       (\<lambda>c. if second \<in> set (gc_deadlines c) \<and> gc_rid c = Some ''u'' then panicking c else Returned c) sample_request"
  by (rule router_handler_context [where rid = "''u''"])
    (simp_all add: sample_request_def sample_config_def time_units)


end
