(* ===== verification/RateLimitRefine.thy ===== *)
theory RateLimitRefine
  imports Middleware
begin

text \<open>
  The per-client limiter refines a plain cache. The code keeps a doubly linked list of entries, a
  map of pointers to its elements and limiters behind pointers; the specification is one list of
  keys with their limiters and the instants they were last seen, the most recent first. A request
  whose key is missing drops what has expired and then what exceeds the cap.
\<close>

section \<open>The specification\<close>

type_synonym 'l lru_cache = "(string \<times> 'l \<times> int) list"

definition lru_fresh :: "duration \<Rightarrow> int \<Rightarrow> int \<Rightarrow> bool" where
  "lru_fresh ttl now seen \<longleftrightarrow> \<not> (0 < ttl \<and> time_sub now seen > ttl)"

definition lru_allow ::
  "(rat \<Rightarrow> int \<Rightarrow> 'l) \<Rightarrow> (int \<Rightarrow> 'l \<Rightarrow> bool \<times> 'l) \<Rightarrow> RateBucket \<Rightarrow> int \<Rightarrow> duration \<Rightarrow> int \<Rightarrow> string \<Rightarrow> 'l lru_cache
     \<Rightarrow> bool \<times> 'l lru_cache" where
  "lru_allow mk allow b cap ttl now key c =
     (let (l, rest) =
        (case map_of c key of
           Some (l, _) \<Rightarrow> (l, filter (\<lambda>(k, _). k \<noteq> key) c)
         | None \<Rightarrow> (mk (rb_RPS b) (rb_Burst b), take (nat (cap - 1)) (filter (\<lambda>(_, _, seen). lru_fresh ttl now seen) c)));
          (ok, l') = allow now l
      in (ok, (key, l', now) # rest))"

fun lru_decisions ::
  "(rat \<Rightarrow> int \<Rightarrow> 'l) \<Rightarrow> (int \<Rightarrow> 'l \<Rightarrow> bool \<times> 'l) \<Rightarrow> RateBucket \<Rightarrow> int \<Rightarrow> duration \<Rightarrow> (int \<times> gin_request) list \<Rightarrow> 'l lru_cache
     \<Rightarrow> bool list" where
  "lru_decisions mk allow b cap ttl [] c = []"
| "lru_decisions mk allow b cap ttl ((now, rq) # ops) c =
     (let (ok, c') = lru_allow mk allow b cap ttl now (rate_limit_key rq) c
      in ok # lru_decisions mk allow b cap ttl ops c')"

text \<open>The decisions of the code for a sequence of requests.\<close>

fun per_ip_decisions ::
  "(rat \<Rightarrow> int \<Rightarrow> 'l) \<Rightarrow> (int \<Rightarrow> 'l \<Rightarrow> bool \<times> 'l) \<Rightarrow> (int \<times> gin_request) list \<Rightarrow> 'l rate_limit_state \<Rightarrow> bool list" where
  "per_ip_decisions mk allow [] st = []"
| "per_ip_decisions mk allow ((now, rq) # ops) st =
     (let (ok, st') = per_ip_allow mk allow now rq st in ok # per_ip_decisions mk allow ops st')"

definition abs_entries :: "'l list \<Rightarrow> (nat \<times> rateLimitEntry) list \<Rightarrow> 'l lru_cache" where
  "abs_entries heap xs = map (\<lambda>(i, e). (rle_key e, heap ! rle_limiter e, rle_lastSeen e)) xs"

definition abs_cache :: "'l rateLimiterStore \<Rightarrow> 'l lru_cache" where
  "abs_cache s = abs_entries (rls_heap s) (rls_order s)"

section \<open>Eviction in closed form\<close>

lemma filter_takeWhile:
  "sorted_wrt R xs \<Longrightarrow> (\<And>x y. R x y \<Longrightarrow> P y \<Longrightarrow> P x) \<Longrightarrow> filter P xs = takeWhile P xs"
proof (induction xs)
  case (Cons x xs)
  show ?case
  proof (cases "P x")
    case False
    then have "filter P xs = []" using Cons.prems by (auto simp: filter_empty_conv)
    with False show ?thesis by simp
  qed (use Cons in simp)
qed simp

lemma lru_fresh_mono: "lru_fresh ttl now t \<Longrightarrow> t \<le> u \<Longrightarrow> lru_fresh ttl now u"
  by (auto simp: lru_fresh_def time_sub_def)

text \<open>An eviction never drops a fresh entry there is room for.\<close>

lemma evict_stops:
  assumes "rls_order s = rls_order (evict now s) @ y # ys" "int (length (rls_order (evict now s))) + 1 < rls_maxSize s"
  shows "\<not> lru_fresh (rls_ttl s) now (rle_lastSeen (snd y))"
proof
  assume "lru_fresh (rls_ttl s) now (rle_lastSeen (snd y))"
  then have "\<not> (0 < rls_ttl s \<and> time_sub now (rle_lastSeen (snd y)) > rls_ttl s)" by (simp add: lru_fresh_def)
  from evict_keeps [OF assms this] show False by auto
qed

lemma evict_order:
  assumes "store_inv now s"
  shows "rls_order (evict now s) =
    take (nat (rls_maxSize s - 1)) (filter (\<lambda>(i, e). lru_fresh (rls_ttl s) now (rle_lastSeen e)) (rls_order s))"
proof -
  let ?P = "\<lambda>(i, e). lru_fresh (rls_ttl s) now (rle_lastSeen e)" and ?o = "rls_order s" and ?o' = "rls_order (evict now s)"
  note ev = evict_spec [OF assms]
  have "sorted_wrt (\<lambda>a b. rle_lastSeen (snd b) \<le> rle_lastSeen (snd a)) ?o" using assms by (simp add: store_inv_def)
  then have filt: "filter ?P ?o = takeWhile ?P ?o" by (rule filter_takeWhile) (auto intro: lru_fresh_mono)
  from ev obtain ys where ys: "?o = ?o' @ ys" by blast
  have "\<forall>x \<in> set ?o'. ?P x" using evict_fresh [OF assms] by (auto simp: lru_fresh_def)
  then have tw: "takeWhile ?P ?o = ?o' @ takeWhile ?P ys" unfolding ys by (simp add: takeWhile_append2)
  let ?cap = "nat (rls_maxSize s - 1)"
  have len: "length ?o' \<le> ?cap" using ev by linarith
  have "takeWhile ?P ys = []" if "length ?o' < ?cap"
  proof (cases ys)
    case (Cons y ys')
    have "int (length ?o') + 1 < rls_maxSize s" using that by linarith
    from evict_stops [OF ys [unfolded Cons] this] Cons show ?thesis by (auto split: prod.splits)
  qed simp
  with len show ?thesis unfolding filt tw by (cases "length ?o' = ?cap") simp_all
qed

section \<open>One request\<close>

lemma abs_entries_simps [simp]:
  "abs_entries heap [] = []"
  "abs_entries heap ((i, e) # xs) = (rle_key e, heap ! rle_limiter e, rle_lastSeen e) # abs_entries heap xs"
  "abs_entries heap (xs @ ys) = abs_entries heap xs @ abs_entries heap ys"
  by (simp_all add: abs_entries_def)

lemma abs_entries_other_key:
  "\<forall>x \<in> set xs. rle_key (snd x) \<noteq> key \<Longrightarrow>
     map_of (abs_entries heap xs) key = None \<and> filter (\<lambda>(k, _). k \<noteq> key) (abs_entries heap xs) = abs_entries heap xs"
  by (induction xs) auto

lemma abs_entries_heap:
  "\<forall>x \<in> set xs. rle_limiter (snd x) < length heap \<and> rle_limiter (snd x) \<noteq> p \<Longrightarrow>
     abs_entries (heap[p := l]) xs = abs_entries heap xs \<and> abs_entries ((heap @ [l'])[p := l]) xs = abs_entries heap xs"
  by (induction xs) (auto simp: nth_list_update nth_append)

lemma abs_entries_fresh:
  "filter (\<lambda>(_, _, seen). lru_fresh ttl now seen) (abs_entries heap xs) =
     abs_entries heap (filter (\<lambda>(i, e). lru_fresh ttl now (rle_lastSeen e)) xs)"
  by (induction xs) auto

lemma abs_entries_take: "take n (abs_entries heap xs) = abs_entries heap (take n xs)"
  by (simp add: abs_entries_def take_map)

text \<open>A state of the middleware and the cache it stands for.\<close>

definition lru_rel :: "RateBucket \<Rightarrow> int \<Rightarrow> duration \<Rightarrow> int \<Rightarrow> 'l rate_limit_state \<Rightarrow> 'l lru_cache \<Rightarrow> bool" where
  "lru_rel b cap ttl now st c \<longleftrightarrow>
     (\<exists>s. rl_perIP st = Some s \<and> store_inv now s \<and> c = abs_cache s \<and> rls_limit s = rb_RPS b \<and> rls_burst s = rb_Burst b
        \<and> rls_maxSize s = cap \<and> rls_ttl s = ttl)"

lemma lru_relI:
  assumes "store_inv now s" "rls_limit s = rb_RPS b" "rls_burst s = rb_Burst b" "rls_maxSize s = cap" "rls_ttl s = ttl"
  shows "lru_rel b cap ttl now (st\<lparr>rl_perIP := Some (s\<lparr>rls_heap := (rls_heap s)[p := l]\<rparr>)\<rparr>)
    (abs_entries ((rls_heap s)[p := l]) (rls_order s))"
  using assms store_inv_heap [OF assms(1)] by (simp add: lru_rel_def abs_cache_def)

lemma lru_hit:
  assumes "store_inv now s" "rls_order s = xs @ (el, e) # ys" "rle_key e = key"
    and "allow now (rls_heap s ! rle_limiter e) = (ok, l)"
  shows "lru_allow mk allow b cap ttl now key (abs_cache s)
    = (ok, abs_entries ((rls_heap s)[rle_limiter e := l]) ((el, e\<lparr>rle_lastSeen := now\<rparr>) # xs @ ys))"
proof -
  have "distinct (map (rle_key \<circ> snd) (xs @ (el, e) # ys))" "distinct (map (rle_limiter \<circ> snd) (xs @ (el, e) # ys))"
    using assms(1) unfolding assms(2) [symmetric] by (simp_all add: store_inv_def)
  then have n: "\<forall>x \<in> set xs. rle_key (snd x) \<noteq> key" "\<forall>x \<in> set ys. rle_key (snd x) \<noteq> key"
    and n2: "\<forall>x \<in> set (xs @ ys). rle_limiter (snd x) \<noteq> rle_limiter e" using assms(3) by (auto simp: image_iff)
  have lt: "\<forall>x \<in> set (rls_order s). rle_limiter (snd x) < length (rls_heap s)" using assms(1) by (auto simp: store_inv_def)
  have "abs_entries ((rls_heap s)[rle_limiter e := l]) (xs @ ys) = abs_entries (rls_heap s) (xs @ ys)"
    using abs_entries_heap [of "xs @ ys" "rls_heap s" "rle_limiter e" l] lt n2 assms(2) by auto
  moreover have "map_of (abs_cache s) key = Some (rls_heap s ! rle_limiter e, rle_lastSeen e)"
    "filter (\<lambda>(k, _). k \<noteq> key) (abs_cache s) = abs_entries (rls_heap s) (xs @ ys)"
    using abs_entries_other_key [OF n(1), of "rls_heap s"] abs_entries_other_key [OF n(2), of "rls_heap s"] assms(3)
    by (simp_all add: abs_cache_def assms(2) map_add_def)
  ultimately show ?thesis using assms(2-4) lt by (simp add: lru_allow_def)
qed

lemma lru_miss:
  assumes "store_inv now s" "rls_entries s key = None" "rls_limit s = rb_RPS b" "rls_burst s = rb_Burst b"
    and "allow now (mk (rb_RPS b) (rb_Burst b)) = (ok, l)"
  shows "lru_allow mk allow b (rls_maxSize s) (rls_ttl s) now key (abs_cache s)
    = (ok, abs_entries ((rls_heap (inserted mk now key (evict now s)))[length (rls_heap s) := l])
             (rls_order (inserted mk now key (evict now s))))"
proof -
  let ?e = "evict now s" and ?h = "rls_heap s"
  note ev = evict_spec [OF assms(1)]
  have lt: "\<forall>x \<in> set (rls_order ?e). rle_limiter (snd x) < length ?h \<and> rle_limiter (snd x) \<noteq> length ?h"
    using ev by (fastforce simp: store_inv_def)
  note heap = conjunct2 [OF abs_entries_heap [OF lt, of l "mk (rb_RPS b) (rb_Burst b)"]]
  have "\<forall>x \<in> set (rls_order s). rle_key (snd x) \<noteq> key"
    using store_inv_keys [OF assms(1)] domIff [of key "rls_entries s"] assms(2) by force
  from abs_entries_other_key [OF this, of ?h] have "map_of (abs_cache s) key = None" by (simp add: abs_cache_def)
  moreover have "take (nat (rls_maxSize s - 1)) (filter (\<lambda>(_, _, seen). lru_fresh (rls_ttl s) now seen) (abs_cache s))
      = abs_entries ?h (rls_order ?e)"
    using evict_order [OF assms(1)] by (simp add: abs_cache_def abs_entries_fresh abs_entries_take)
  ultimately show ?thesis using ev assms(3-5) heap by (simp add: lru_allow_def inserted_def)
qed

lemma lru_step:
  assumes "lru_rel b cap ttl now st c" "per_ip_allow mk allow now rq st = (ok, st')"
  shows "\<exists>c'. lru_allow mk allow b cap ttl now (rate_limit_key rq) c = (ok, c') \<and> lru_rel b cap ttl now st' c'"
proof -
  let ?k = "rate_limit_key rq"
  from assms(1) obtain s where s: "rl_perIP st = Some s" "store_inv now s" "c = abs_cache s"
    and cfg: "rls_limit s = rb_RPS b" "rls_burst s = rb_Burst b" "rls_maxSize s = cap" "rls_ttl s = ttl"
    by (auto simp: lru_rel_def)
  note inv = store_get_inv [OF s(2), of mk ?k]
  show ?thesis
  proof (cases "rls_entries s ?k")
    case (Some el)
    obtain xs e ys where o: "rls_order s = xs @ (el, e) # ys" "rle_key e = ?k" by (rule inv_lookup [OF s(2) Some])
    obtain ok2 l where al: "allow now (rls_heap s ! rle_limiter e) = (ok2, l)" by fastforce
    note get = store_get_hit [OF s(2) o, of mk now]
    let ?s = "snd (store_get mk now ?k s)"
    have "lru_rel b cap ttl now (st\<lparr>rl_perIP := Some (?s\<lparr>rls_heap := (rls_heap ?s)[rle_limiter e := l]\<rparr>)\<rparr>)
        (abs_entries ((rls_heap ?s)[rle_limiter e := l]) (rls_order ?s))"
      using inv get cfg by (intro lru_relI) simp_all
    moreover have "ok = ok2" "st' = st\<lparr>rl_perIP := Some (?s\<lparr>rls_heap := (rls_heap ?s)[rle_limiter e := l]\<rparr>)\<rparr>"
      using assms(2) s(1) get al by (simp_all add: per_ip_allow_def)
    ultimately show ?thesis using lru_hit [where allow = allow, OF s(2) o al, of mk b cap ttl] get s(3) by simp
  next
    case None
    obtain ok2 l where al: "allow now (mk (rb_RPS b) (rb_Burst b)) = (ok2, l)" by fastforce
    note get = store_get_miss [OF None, of mk now] and ev = evict_spec [OF s(2)]
    let ?s = "inserted mk now ?k (evict now s)"
    have "lru_rel b cap ttl now (st\<lparr>rl_perIP := Some (?s\<lparr>rls_heap := (rls_heap ?s)[length (rls_heap s) := l]\<rparr>)\<rparr>)
        (abs_entries ((rls_heap ?s)[length (rls_heap s) := l]) (rls_order ?s))"
      using inv get cfg ev by (intro lru_relI) (simp_all add: inserted_def)
    moreover have "ok = ok2" "st' = st\<lparr>rl_perIP := Some (?s\<lparr>rls_heap := (rls_heap ?s)[length (rls_heap s) := l]\<rparr>)\<rparr>"
      using assms(2) s(1) get al ev cfg by (simp_all add: per_ip_allow_def inserted_def)
    ultimately show ?thesis using lru_miss [where allow = allow and mk = mk, OF s(2) None cfg(1,2) al] s(3) cfg by simp
  qed
qed

lemma new_store_fields:
  "abs_cache (newRateLimiterStore rps burst cap ttl) = []"
  "rls_limit (newRateLimiterStore rps burst cap ttl) = rps" "rls_burst (newRateLimiterStore rps burst cap ttl) = burst"
  "rls_maxSize (newRateLimiterStore rps burst cap ttl) = cap" "rls_ttl (newRateLimiterStore rps burst cap ttl) = ttl"
  by (simp_all add: newRateLimiterStore_def abs_cache_def)

lemma lru_rel_later: "lru_rel b cap ttl now st c \<Longrightarrow> now \<le> t \<Longrightarrow> lru_rel b cap ttl t st c"
  unfolding lru_rel_def using store_inv_later by blast

lemma lru_run:
  "lru_rel b cap ttl now st c \<Longrightarrow> sorted (now # map fst ops) \<Longrightarrow>
     per_ip_decisions mk allow ops st = lru_decisions mk allow b cap ttl ops c"
proof (induction ops arbitrary: now st c)
  case (Cons op ops)
  obtain t rq where op: "op = (t, rq)" by (cases op)
  obtain ok st' where p: "per_ip_allow mk allow t rq st = (ok, st')" by fastforce
  have "lru_rel b cap ttl t st c" using Cons.prems op lru_rel_later by auto
  from lru_step [OF this p] obtain c' where
    "lru_allow mk allow b cap ttl t (rate_limit_key rq) c = (ok, c')" "lru_rel b cap ttl t st' c'" by blast
  with Cons.IH [of t st' c'] Cons.prems(2) show ?case by (simp add: op p)
qed simp

lemma lru_decisions_setup:
  assumes "RateLimit_setup mk cfg = Some st" "0 < rb_RPS (rl_PerIP cfg)" "sorted (map fst ops)"
  shows "per_ip_decisions mk allow ops st =
    lru_decisions mk allow (rl_PerIP cfg) (rate_limit_max_size cfg)
      (if rl_MapTTL cfg \<le> 0 then 10 * minute else rl_MapTTL cfg) ops []"
proof (cases ops)
  case (Cons op ops')
  have "0 < rate_limit_max_size cfg" by (simp add: rate_limit_max_size_def)
  then have "lru_rel (rl_PerIP cfg) (rate_limit_max_size cfg) (if rl_MapTTL cfg \<le> 0 then 10 * minute else rl_MapTTL cfg)
      (fst op) st []"
    using assms(1,2) by (auto simp: RateLimit_setup_def lru_rel_def Let_def store_inv_new new_store_fields)
  from lru_run [OF this] assms(3) Cons show ?thesis by simp
qed simp

text \<open>
  C5: from the state the middleware starts in, its decisions for any sequence of requests at
  instants that do not run backwards are those of the plain cache: pointers, element identities
  and the eviction loop cannot be told apart from dropping what has expired and then what
  exceeds the cap.
\<close>

theorem rate_limit_refines_lru:
  assumes "RateLimit_setup mk cfg = Some st" "0 < rb_RPS (rl_PerIP cfg)" "sorted (map fst ops)"
  shows "per_ip_decisions mk allow ops st =
    lru_decisions mk allow (rl_PerIP cfg) (rate_limit_max_size cfg)
      (if rl_MapTTL cfg \<le> 0 then 10 * minute else rl_MapTTL cfg) ops []"
  by (rule lru_decisions_setup [OF assms])

text \<open>Two tokens each, never refilled; three clients, room for two: the first one comes back with a new bucket.\<close>

definition sample_rate_limit :: RateLimitConfig where
  "sample_rate_limit = \<lparr>rl_PerIP = \<lparr>rb_RPS = 1, rb_Burst = 2\<rparr>, rl_Global = \<lparr>rb_RPS = 0, rb_Burst = 0\<rparr>,
     rl_MapMaxEntries = 2, rl_MapTTL = second\<rparr>"

definition sample_ops :: "(int \<times> gin_request) list" where
  "sample_ops = map (\<lambda>(t, ip). (t, (gc_req sample_request)\<lparr>rq_ClientIP := ip\<rparr>))
     [(1, ''a''), (2, ''b''), (3, ''c''), (4, ''a''), (5, ''a''), (6, ''a'')]"

theorem rate_limit_refines_lru_witness:
  "per_ip_decisions sample_new_limiter sample_allow sample_ops (the (RateLimit_setup sample_new_limiter sample_rate_limit))
     = [True, True, True, True, True, False]"
proof -
  have s: "RateLimit_setup sample_new_limiter sample_rate_limit = Some (the (RateLimit_setup sample_new_limiter sample_rate_limit))"
    by (simp add: RateLimit_setup_def sample_rate_limit_def Let_def)
  have r: "0 < rb_RPS (rl_PerIP sample_rate_limit)" by (simp add: sample_rate_limit_def)
  have o: "sorted (map fst sample_ops)" by (simp add: sample_ops_def)
  have "lru_decisions sample_new_limiter sample_allow (rl_PerIP sample_rate_limit) (rate_limit_max_size sample_rate_limit)
      (if rl_MapTTL sample_rate_limit \<le> 0 then 10 * minute else rl_MapTTL sample_rate_limit) sample_ops []
      = [True, True, True, True, True, False]"
    by code_simp
  with rate_limit_refines_lru [OF s r o, of sample_allow] show ?thesis by simp
qed

section \<open>The whole middleware\<close>

text \<open>The responses of the middleware to a sequence of requests, with the rest of the chain as \<open>next\<close>.\<close>

fun rate_limit_run ::
  "(rat \<Rightarrow> int \<Rightarrow> 'l) \<Rightarrow> (int \<Rightarrow> 'l \<Rightarrow> bool \<times> 'l) \<Rightarrow> gin_handler \<Rightarrow> (int \<times> gin_ctx) list \<Rightarrow> 'l rate_limit_state option
     \<Rightarrow> gin_outcome list" where
  "rate_limit_run mk allow next [] st = []"
| "rate_limit_run mk allow next ((now, c) # reqs) st =
     (let (r, st') = RateLimit mk allow now st next c in r # rate_limit_run mk allow next reqs st')"

text \<open>
  The specification: one bucket, if any, decides at every instant; and the responses that follow
  from its decisions and, for the requests it lets through only, from those of the second limiter.
\<close>

fun bucket_decisions :: "(int \<Rightarrow> 'l \<Rightarrow> bool \<times> 'l) \<Rightarrow> int list \<Rightarrow> 'l option \<Rightarrow> bool list" where
  "bucket_decisions allow ts None = map (\<lambda>_. True) ts"
| "bucket_decisions allow [] (Some l) = []"
| "bucket_decisions allow (now # ts) (Some l) =
     (let (ok, l') = allow now l in ok # bucket_decisions allow ts (Some l'))"

definition refusal :: "gin_ctx \<Rightarrow> gin_outcome" where
  "refusal c = Returned (emit [RespSet ''Retry-After'' ''1'',
     AbortWithStatusJSON 429 (JObject [(''error'', JString ''rate limit exceeded'')])] c)"

fun gated :: "gin_handler \<Rightarrow> gin_ctx list \<Rightarrow> bool list \<Rightarrow> bool list \<Rightarrow> gin_outcome list" where
  "gated next (c # cs) (False # gs) ps = refusal c # gated next cs gs ps"
| "gated next (c # cs) (True # gs) (p # ps) = (if p then next c else refusal c) # gated next cs gs ps"
| "gated next _ _ _ = []"

definition let_through :: "(int \<times> gin_ctx) list \<Rightarrow> bool list \<Rightarrow> (int \<times> gin_request) list" where
  "let_through reqs gs = map (\<lambda>((now, c), g). (now, gc_req c)) (filter snd (zip reqs gs))"

lemma let_through_simps [simp]:
  "let_through [] gs = []" "let_through ((now, c) # reqs) (True # gs) = (now, gc_req c) # let_through reqs gs"
  "let_through (x # reqs) (False # gs) = let_through reqs gs"
  by (simp_all add: let_through_def)

lemma let_through_all: "length gs = length reqs \<Longrightarrow> set gs \<subseteq> {True} \<Longrightarrow>
    let_through reqs gs = map (\<lambda>(now, c). (now, gc_req c)) reqs"
proof (induction reqs arbitrary: gs)
  case (Cons x reqs)
  then show ?case by (cases gs; cases x) auto
qed simp

lemma let_through_sorted:
  "sorted (map fst reqs) \<Longrightarrow> length gs = length reqs \<Longrightarrow>
     sorted (map fst (let_through reqs gs)) \<and> fst ` set (let_through reqs gs) \<subseteq> fst ` set reqs"
proof (induction reqs arbitrary: gs)
  case (Cons x reqs)
  obtain g gs' where gs: "gs = g # gs'" using Cons.prems(2) by (cases gs) auto
  obtain now c where x: "x = (now, c)" by (cases x)
  have ih: "sorted (map fst (let_through reqs gs'))" "fst ` set (let_through reqs gs') \<subseteq> fst ` set reqs"
    using Cons.IH [of gs'] Cons.prems gs by auto
  have le: "\<forall>t \<in> fst ` set reqs. now \<le> t" using Cons.prems(1) x by simp
  show ?case
  proof (cases g)
    case True
    have "\<forall>t \<in> fst ` set (let_through reqs gs'). now \<le> t" using le ih(2) by blast
    with True ih gs x show ?thesis by auto
  next
    case False
    with ih gs show ?thesis by auto
  qed
qed simp

lemma length_bucket_decisions [simp]: "length (bucket_decisions allow ts l) = length ts"
proof (induction ts arbitrary: l)
  case (Cons t ts)
  then show ?case by (cases l) (auto split: prod.splits)
qed (simp split: option.split, case_tac l, auto)

text \<open>The per-client limiter does not look at the global one.\<close>

lemma per_ip_allow_global:
  "per_ip_allow mk allow now rq (st\<lparr>rl_global := g\<rparr>)
   = (fst (per_ip_allow mk allow now rq st), (snd (per_ip_allow mk allow now rq st))\<lparr>rl_global := g\<rparr>)"
  by (auto simp: per_ip_allow_def Let_def split: option.splits prod.splits)

lemma per_ip_keeps_global: "rl_global (snd (per_ip_allow mk allow now rq st)) = rl_global st"
  by (auto simp: per_ip_allow_def Let_def split: option.splits prod.splits)

lemma per_ip_decisions_global: "per_ip_decisions mk allow ops (st\<lparr>rl_global := g\<rparr>) = per_ip_decisions mk allow ops st"
  by (induction ops arbitrary: st) (auto simp: per_ip_allow_global split: prod.splits)

lemma per_ip_decisions_none: "rl_perIP st = None \<Longrightarrow> per_ip_decisions mk allow ops st = map (\<lambda>_. True) ops"
  by (induction ops) (auto simp: per_ip_allow_def)

lemma length_per_ip_decisions [simp]: "length (per_ip_decisions mk allow ops st) = length ops"
  by (induction ops arbitrary: st) (auto split: prod.splits)

lemma bucket_decisions_step:
  "bucket_decisions allow (now # ts) (rl_global st)
   = fst (global_allow allow now st) # bucket_decisions allow ts (rl_global (snd (global_allow allow now st)))"
  by (cases "rl_global st") (auto simp: global_allow_def Let_def split: prod.splits)

lemma global_allow_state: "\<exists>g. snd (global_allow allow now st) = st\<lparr>rl_global := g\<rparr>"
proof (cases "rl_global st")
  case None
  then have "snd (global_allow allow now st) = st\<lparr>rl_global := None\<rparr>" by (cases st) (simp add: global_allow_def)
  then show ?thesis by blast
qed (auto simp: global_allow_def Let_def split: prod.splits)

lemma rate_limit_run_gated:
  "rate_limit_run mk allow next reqs (Some st) =
     (let gs = bucket_decisions allow (map fst reqs) (rl_global st)
      in gated next (map snd reqs) gs (per_ip_decisions mk allow (let_through reqs gs) st))"
proof (induction reqs arbitrary: st)
  case Nil
  show ?case by (cases "rl_global st") auto
next
  case (Cons x reqs)
  obtain now c where x: "x = (now, c)" by (cases x)
  obtain g st1 where g: "global_allow allow now st = (g, st1)" by fastforce
  obtain p st2 where p: "per_ip_allow mk allow now (gc_req c) st1 = (p, st2)" by fastforce
  from g global_allow_state [of allow now st] obtain l where st1: "st1 = st\<lparr>rl_global := l\<rparr>" by auto
  have dec: "bucket_decisions allow (now # map fst reqs) (rl_global st)
      = g # bucket_decisions allow (map fst reqs) (rl_global st1)" 
    using bucket_decisions_step [where ts = "map fst reqs" and st = st and allow = allow and now = now] g by simp
  have st2: "rl_global st2 = rl_global st1" using per_ip_keeps_global [of mk allow now "gc_req c" st1] p by simp
  show ?case
  proof (cases g)
    case False
    have "per_ip_decisions mk allow ops st1 = per_ip_decisions mk allow ops st" for ops
      unfolding st1 by (rule per_ip_decisions_global)
    with False show ?thesis
      by (simp add: x dec Let_def) (simp add: RateLimit_def g Cons.IH Let_def refusal_def tooMany_one)
  next
    case True
    have "per_ip_decisions mk allow ((now, gc_req c) # ops) st = p # per_ip_decisions mk allow ops st2" for ops
    proof -
      have "per_ip_decisions mk allow ((now, gc_req c) # ops) st = per_ip_decisions mk allow ((now, gc_req c) # ops) st1"
        unfolding st1 by (rule per_ip_decisions_global [symmetric])
      with p show ?thesis by simp
    qed
    with True show ?thesis
      by (simp add: x dec Let_def del: per_ip_decisions.simps)
        (simp add: RateLimit_def g p st2 Cons.IH Let_def refusal_def tooMany_one)
  qed
qed

lemma rate_limit_run_open: "rate_limit_run mk allow next reqs None = map (next \<circ> snd) reqs"
  by (induction reqs) (auto simp: RateLimit_def)

lemma gated_open: "gated next cs (map (\<lambda>_. True) cs) (map (\<lambda>_. True) cs) = map next cs"
  by (induction cs) auto

text \<open>
  C27: the rate limit for any sequence of requests at instants that do not run backwards, from the
  state the middleware sets up. The global bucket, if one is configured, decides on every request;
  the per-client limiter, if configured, decides on those the global bucket let through and on no
  others, a request refused by the former leaving no trace in the latter. A request both
  allow reaches the rest of the chain unchanged; any other is answered with 429 and a
  Retry-After, and the rest of the chain does not run. The per-client decisions are those of the
  plain cache.
\<close>

theorem rate_limit_gate:
  assumes "sorted (map fst reqs)"
  shows "rate_limit_run mk allow next reqs (RateLimit_setup mk cfg) =
    (let gs = bucket_decisions allow (map fst reqs)
           (if 0 < rb_RPS (rl_Global cfg) then Some (mk (rb_RPS (rl_Global cfg)) (rb_Burst (rl_Global cfg))) else None);
         passed = let_through reqs gs
     in gated next (map snd reqs) gs
          (if 0 < rb_RPS (rl_PerIP cfg)
           then lru_decisions mk allow (rl_PerIP cfg) (rate_limit_max_size cfg)
             (if rl_MapTTL cfg \<le> 0 then 10 * minute else rl_MapTTL cfg) passed []
           else map (\<lambda>_. True) passed))"
proof (cases "RateLimit_setup mk cfg")
  case None
  then have off: "\<not> 0 < rb_RPS (rl_PerIP cfg)" "\<not> 0 < rb_RPS (rl_Global cfg)"
    by (auto simp: RateLimit_setup_def Let_def split: if_splits)
  have "let_through reqs (map (\<lambda>_. True) reqs) = map (\<lambda>(now, c). (now, gc_req c)) reqs"
    by (rule let_through_all) auto
  then have all: "map (\<lambda>_. True) (let_through reqs (map (\<lambda>_. True) reqs)) = map (\<lambda>_. True) reqs"
    by (simp add: comp_def)
  show ?thesis
    using gated_open [where cs = "map snd reqs"] off by (simp add: None rate_limit_run_open comp_def all)
next
  case (Some st)
  let ?g = "if 0 < rb_RPS (rl_Global cfg) then Some (mk (rb_RPS (rl_Global cfg)) (rb_Burst (rl_Global cfg))) else None"
  have g: "rl_global st = ?g" and ip: "\<not> 0 < rb_RPS (rl_PerIP cfg) \<Longrightarrow> rl_perIP st = None"
    using Some by (auto simp: RateLimit_setup_def Let_def split: if_splits)
  have "sorted (map fst (let_through reqs (bucket_decisions allow (map fst reqs) ?g)))"
    using let_through_sorted [OF assms] by simp
  from lru_decisions_setup [OF Some _ this] show ?thesis
    unfolding Some rate_limit_run_gated g Let_def using per_ip_decisions_none [OF ip] by (cases "0 < rb_RPS (rl_PerIP cfg)") auto
qed

text \<open>Three requests for everyone, two for each client: the fourth is refused whoever sends it.\<close>

definition both_limits :: RateLimitConfig where
  "both_limits = sample_rate_limit\<lparr>rl_Global := \<lparr>rb_RPS = 1, rb_Burst = 3\<rparr>\<rparr>"

definition sample_reqs :: "(int \<times> gin_ctx) list" where
  "sample_reqs = map (\<lambda>(t, ip). (t, sample_request\<lparr>gc_req := (gc_req sample_request)\<lparr>rq_ClientIP := ip\<rparr>\<rparr>))
     [(1, ''a''), (2, ''a''), (3, ''a''), (4, ''b'')]"

theorem rate_limit_gate_witness:
  "rate_limit_run sample_new_limiter sample_allow panicking sample_reqs (RateLimit_setup sample_new_limiter both_limits)
     = [panicking (snd (sample_reqs ! 0)), panicking (snd (sample_reqs ! 1)),
        refusal (snd (sample_reqs ! 2)), refusal (snd (sample_reqs ! 3))]"
proof -
  have s: "sorted (map fst sample_reqs)" by (simp add: sample_reqs_def)
  let ?gs = "bucket_decisions sample_allow (map fst sample_reqs)
      (if 0 < rb_RPS (rl_Global both_limits)
       then Some (sample_new_limiter (rb_RPS (rl_Global both_limits)) (rb_Burst (rl_Global both_limits))) else None)"
  have gs: "?gs = [True, True, True, False]" by code_simp
  have ps: "(if 0 < rb_RPS (rl_PerIP both_limits)
       then lru_decisions sample_new_limiter sample_allow (rl_PerIP both_limits) (rate_limit_max_size both_limits)
         (if rl_MapTTL both_limits \<le> 0 then 10 * minute else rl_MapTTL both_limits)
         (let_through sample_reqs [True, True, True, False]) []
       else map (\<lambda>_. True) (let_through sample_reqs [True, True, True, False])) = [True, True, False]"
    by code_simp
  show ?thesis
    unfolding rate_limit_gate [OF s] Let_def gs ps by (simp add: sample_reqs_def)
qed

end
