(* ===== verification/Platform.thy ===== *)
theory Platform
  imports Config
begin

text \<open>
  The thin platform packages: internal/platform/logger, internal/platform/httpserver,
  internal/platform/kafka/client.go, and the migration command cmd/migrate. slog, gin, net/http,
  franz-go and golang-migrate are reached through the values handed to them.
\<close>

section \<open>logger\<close>

datatype slog_level = LevelDebug | LevelInfo | LevelWarn | LevelError

text \<open>slog orders its levels by their numbers.\<close>

fun slog_value :: "slog_level \<Rightarrow> int" where
  "slog_value LevelDebug = -4"
| "slog_value LevelInfo = 0"
| "slog_value LevelWarn = 4"
| "slog_value LevelError = 8"

lemma slog_value_inject [simp]: "slog_value a = slog_value b \<longleftrightarrow> a = b"
  by (cases a; cases b) simp_all

instantiation slog_level :: linorder
begin

definition less_eq_slog_level :: "slog_level \<Rightarrow> slog_level \<Rightarrow> bool" where
  "a \<le> b \<longleftrightarrow> slog_value a \<le> slog_value b"

definition less_slog_level :: "slog_level \<Rightarrow> slog_level \<Rightarrow> bool" where
  "a < b \<longleftrightarrow> slog_value a < slog_value b"

instance
  by intro_classes (auto simp: less_eq_slog_level_def less_slog_level_def)

end

record slog_options =
  so_Level :: slog_level
  so_AddSource :: bool

text \<open>
  slog's handlers, the ones the package builds and the ones slog derives from them, and the
  package's own wrapper.
\<close>

datatype slog_handler =
    TextHandler slog_options
  | JSONHandler slog_options
  | WithAttrsHandler slog_handler "(string \<times> string) list"
  | WithGroupHandler slog_handler string
  | traceHandler slog_handler

definition log_level :: "string \<Rightarrow> slog_level" where
  "log_level s =
     (let l = to_lower s
      in if l = ''debug'' then LevelDebug else if l = ''warn'' then LevelWarn else if l = ''error'' then LevelError
         else LevelInfo)"

definition logger_New :: "LoggerConfig \<Rightarrow> slog_handler" where
  "logger_New cfg =
     (let text = equal_fold (log_Format cfg) ''text'';
          opts = \<lparr>so_Level = log_level (log_Level cfg), so_AddSource = text\<rparr>
      in traceHandler (if text then TextHandler opts else JSONHandler opts))"

text \<open>
  The record the inner handler gets: \<open>sp\<close> is the trace and span id of a valid span context.
  Deriving a handler keeps the wrapper outermost.
\<close>

definition traceHandler_Handle :: "(string \<times> string) option \<Rightarrow> (string \<times> string) list \<Rightarrow> (string \<times> string) list" where
  "traceHandler_Handle sp attrs =
     (case sp of None \<Rightarrow> attrs | Some (traceID, spanID) \<Rightarrow> attrs @ [(''trace_id'', traceID), (''span_id'', spanID)])"

fun handler_WithAttrs :: "slog_handler \<Rightarrow> (string \<times> string) list \<Rightarrow> slog_handler" where
  "handler_WithAttrs (traceHandler h) attrs = traceHandler (handler_WithAttrs h attrs)"
| "handler_WithAttrs h attrs = WithAttrsHandler h attrs"

fun handler_WithGroup :: "slog_handler \<Rightarrow> string \<Rightarrow> slog_handler" where
  "handler_WithGroup (traceHandler h) name = traceHandler (handler_WithGroup h name)"
| "handler_WithGroup h name = WithGroupHandler h name"

fun derive_handler :: "slog_handler \<Rightarrow> (string + (string \<times> string) list) list \<Rightarrow> slog_handler" where
  "derive_handler h [] = h"
| "derive_handler h (Inl name # ds) = derive_handler (handler_WithGroup h name) ds"
| "derive_handler h (Inr attrs # ds) = derive_handler (handler_WithAttrs h attrs) ds"

lemma derived_logger_traces: "\<exists>h. derive_handler (logger_New cfg) ds = traceHandler h"
proof -
  have "\<exists>h'. derive_handler (traceHandler h) ds = traceHandler h'" for h
    by (induction "traceHandler h" ds arbitrary: h rule: derive_handler.induct) auto
  then show ?thesis by (simp add: logger_New_def Let_def)
qed

text \<open>Whether a handler emits records of a level; deriving does not change it.\<close>

fun handler_Enabled :: "slog_handler \<Rightarrow> slog_level \<Rightarrow> bool" where
  "handler_Enabled (TextHandler opts) l = (so_Level opts \<le> l)"
| "handler_Enabled (JSONHandler opts) l = (so_Level opts \<le> l)"
| "handler_Enabled (WithAttrsHandler h attrs) l = handler_Enabled h l"
| "handler_Enabled (WithGroupHandler h name) l = handler_Enabled h l"
| "handler_Enabled (traceHandler h) l = handler_Enabled h l"

lemma derived_Enabled: "handler_Enabled (derive_handler h ds) l = handler_Enabled h l"
proof -
  have "handler_Enabled (handler_WithAttrs h attrs) l = handler_Enabled h l"
    "handler_Enabled (handler_WithGroup h name) l = handler_Enabled h l" for h attrs name
    by (induction h) simp_all
  then show ?thesis by (induction h ds rule: derive_handler.induct) simp_all
qed

lemma logger_Enabled:
  "handler_Enabled (derive_handler (logger_New cfg) ds) l \<longleftrightarrow> log_level (log_Level cfg) \<le> l"
  by (simp add: derived_Enabled logger_New_def Let_def)

section \<open>httpserver\<close>

record http_Server =
  hs_Mode :: "string option"
  hs_TrustedProxies :: "string list"
  hs_Addr :: string
  hs_ReadHeaderTimeout :: duration
  hs_ReadTimeout :: duration
  hs_WriteTimeout :: duration
  hs_IdleTimeout :: duration
  hs_MaxHeaderBytes :: int

definition durOr :: "duration \<Rightarrow> duration \<Rightarrow> duration" where
  "durOr d fallback = (if d \<le> 0 then fallback else d)"

text \<open>The mode is set only if there is one; without proxies none is trusted.\<close>

definition httpserver_New :: "ServerConfig \<Rightarrow> http_Server" where
  "httpserver_New cfg =
     \<lparr>hs_Mode = (if srv_Mode cfg \<noteq> [] then Some (srv_Mode cfg) else None),
      hs_TrustedProxies = srv_TrustedProxies cfg,
      hs_Addr = '':'' @ itoa (srv_Port cfg),
      hs_ReadHeaderTimeout = durOr (srv_ReadHeaderTimeout cfg) (5 * second),
      hs_ReadTimeout = durOr (srv_ReadTimeout cfg) (30 * second),
      hs_WriteTimeout = durOr (srv_WriteTimeout cfg) (30 * second),
      hs_IdleTimeout = durOr (srv_IdleTimeout cfg) (120 * second),
      hs_MaxHeaderBytes = (if srv_MaxHeaderBytes cfg \<le> 0 then 2 ^ 20 else srv_MaxHeaderBytes cfg)\<rparr>"

text \<open>What \<open>ListenAndServe\<close> returned: nil, the regular end, or a failure.\<close>

datatype listen_result = ListenNil | ListenClosed | ListenFailed go_error

definition httpserver_Start :: "listen_result \<Rightarrow> go_error option" where
  "httpserver_Start r = (case r of ListenFailed e \<Rightarrow> Some e | _ \<Rightarrow> None)"

lemma httpserver_bounded:
  "0 < hs_ReadHeaderTimeout (httpserver_New cfg)" "0 < hs_ReadTimeout (httpserver_New cfg)"
  "0 < hs_WriteTimeout (httpserver_New cfg)" "0 < hs_IdleTimeout (httpserver_New cfg)"
  "0 < hs_MaxHeaderBytes (httpserver_New cfg)"
  by (simp_all add: httpserver_New_def durOr_def second_def)

section \<open>kafka/client.go\<close>

datatype kgo_Opt =
    SeedBrokers "string list"
  | RequiredAcksAllISR
  | ProducerBatchCompressionSnappy
  | ConsumerGroup string
  | ConsumeTopics "string list"
  | DisableAutoCommit

definition kafka_NewProducer :: "KafkaConfig \<Rightarrow> kgo_Opt list" where
  "kafka_NewProducer cfg = [SeedBrokers (kafka_Brokers cfg), RequiredAcksAllISR, ProducerBatchCompressionSnappy]"

definition kafka_NewConsumerForTopics :: "KafkaConfig \<Rightarrow> string \<Rightarrow> string list \<Rightarrow> kgo_Opt list" where
  "kafka_NewConsumerForTopics cfg groupID topics =
     [SeedBrokers (kafka_Brokers cfg), ConsumerGroup groupID, ConsumeTopics topics, DisableAutoCommit]"

definition kafka_NewConsumer :: "KafkaConfig \<Rightarrow> kgo_Opt list" where
  "kafka_NewConsumer cfg = kafka_NewConsumerForTopics cfg (kafka_GroupID cfg) [kafka_Topic cfg]"

section \<open>cmd/migrate\<close>

text \<open>
  \<open>fmt.Sscanf(s, "%d", &v)\<close>: white space other than a newline, a sign, decimal digits; what
  follows them is not read.
\<close>

fun leading_digits :: "string \<Rightarrow> string" where
  "leading_digits [] = []"
| "leading_digits (c # s) = (if digit_value c \<noteq> None then c # leading_digits s else [])"

definition sscanf_d :: "string \<Rightarrow> int option" where
  "sscanf_d s =
     (let s = trim_codes (removeAll [CHR 0x0A] space_codes) s;
          sign = (if take 1 s = ''-'' \<or> take 1 s = ''+'' then take 1 s else []);
          ds = leading_digits (drop (length sign) s)
      in if ds = [] then None else atoi (sign @ ds))"

datatype migrate_event = MigrateUp | MigrateDown | MigrateVersion | MigrateForce int

text \<open>
  \<open>run\<close> is golang-migrate on a DSN: the error of the operation, if any, and whether it is
  \<open>ErrNoChange\<close>; \<open>set_path\<close> is \<open>url.Parse\<close>, the path set, and \<open>String\<close>. The result is the exit
  status and the operation that was run.
\<close>

definition buildDSN :: "(string \<Rightarrow> string \<Rightarrow> go_error + string) \<Rightarrow> string \<Rightarrow> string \<Rightarrow> go_error + string" where
  "buildDSN set_path uri db = set_path uri (''/'' @ db)"

definition migrate_main ::
  "(string \<Rightarrow> string \<Rightarrow> go_error + string) \<Rightarrow> (string \<Rightarrow> go_error option) \<Rightarrow> (migrate_event \<Rightarrow> (go_error \<times> bool) option)
     \<Rightarrow> string list \<Rightarrow> string \<Rightarrow> string \<Rightarrow> int \<times> migrate_event list" where
  "migrate_main set_path new_migrate run args mongoURI dbName =
     (if length args < 2 then (1, [])
      else if mongoURI = [] \<or> dbName = [] then (1, [])
      else case buildDSN set_path mongoURI dbName of
             Inl e \<Rightarrow> (1, [])
           | Inr dsn \<Rightarrow>
              if new_migrate dsn \<noteq> None then (1, [])
              else
                let cmd = args ! 1;
                    step = (\<lambda>op. (case run op of Some (e, noChange) \<Rightarrow> if noChange then 0 else 1 | None \<Rightarrow> 0, [op]))
                in if cmd = ''up'' then step MigrateUp
                   else if cmd = ''down'' then step MigrateDown
                   else if cmd = ''version'' then (if run MigrateVersion = None then 0 else 1, [MigrateVersion])
                   else if cmd = ''force'' then
                     (if length args < 3 then (1, [])
                      else case sscanf_d (args ! 2) of
                             None \<Rightarrow> (1, [])
                           | Some v \<Rightarrow> (if run (MigrateForce v) = None then 0 else 1, [MigrateForce v]))
                   else (1, []))"

text \<open>A version with trailing text is taken for the number it starts with.\<close>

lemma migrate_force_prefix: "sscanf_d ''12abc'' = Some 12"
  by code_simp

end
