(* ===== verification/Database.thy ===== *)
theory Database
  imports Config
begin

text \<open>
  internal/platform/database: connecting to MongoDB and the command monitor that opens a span
  per command, closes it when the command finishes and purges forgotten spans. The driver and
  the tracer are third party: a span is an identity, and what is done to it is a list of events.
\<close>

section \<open>The command monitor\<close>

definition mongoSpanTTL :: duration where "mongoSpanTTL = 2 * minute"

record mongoSpanEntry =
  mse_span :: nat
  mse_createdAt :: int

datatype span_event =
    SpanStart nat string
  | SpanRecordError nat go_error
  | SpanSetStatus nat string
  | SpanEnd nat

text \<open>
  \<open>mm_spans\<close> is the \<open>sync.Map\<close> from request ids. The janitor ends an expired span before it
  deletes the key, and others may run in between: \<open>mm_janitor\<close> is the key it is about to delete.
\<close>

record command_monitor =
  mm_spans :: "int \<rightharpoonup> mongoSpanEntry"
  mm_next :: nat
  mm_janitor :: "int option"
  mm_events :: "span_event list"

definition NewCommandMonitor :: command_monitor where
  "NewCommandMonitor = \<lparr>mm_spans = Map.empty, mm_next = 0, mm_janitor = None, mm_events = []\<rparr>"

definition monitor_Started :: "int \<Rightarrow> string \<Rightarrow> int \<Rightarrow> command_monitor \<Rightarrow> command_monitor" where
  "monitor_Started reqID name now m =
     m\<lparr>mm_next := Suc (mm_next m),
       mm_events := mm_events m @ [SpanStart (mm_next m) (''mongo.'' @ name)],
       mm_spans := (mm_spans m)(reqID \<mapsto> \<lparr>mse_span = mm_next m, mse_createdAt = now\<rparr>)\<rparr>"

definition monitor_finish :: "int \<Rightarrow> go_error option \<Rightarrow> command_monitor \<Rightarrow> command_monitor" where
  "monitor_finish reqID err m =
     (case mm_spans m reqID of
        None \<Rightarrow> m
      | Some entry \<Rightarrow>
          m\<lparr>mm_spans := (mm_spans m)(reqID := None),
            mm_events := mm_events m
              @ (case err of None \<Rightarrow> []
                 | Some e \<Rightarrow> [SpanRecordError (mse_span entry) e, SpanSetStatus (mse_span entry) (error_text e)])
              @ [SpanEnd (mse_span entry)]\<rparr>)"

definition monitor_Succeeded :: "int \<Rightarrow> command_monitor \<Rightarrow> command_monitor" where
  "monitor_Succeeded reqID m = monitor_finish reqID None m"

text \<open>\<open>failure\<close> is the event's error, nil on older drivers.\<close>

definition monitor_Failed :: "int \<Rightarrow> go_error option \<Rightarrow> command_monitor \<Rightarrow> command_monitor" where
  "monitor_Failed reqID failure m = monitor_finish reqID failure m"

definition mongo_leak :: string where "mongo_leak = ''mongo command monitor leak (no Succeeded/Failed)''"

text \<open>The janitor on one key of its range: nothing, or end the span and go on to delete the key.\<close>

definition janitor_visit :: "int \<Rightarrow> int \<Rightarrow> command_monitor \<Rightarrow> command_monitor" where
  "janitor_visit now k m =
     (case mm_spans m k of
        None \<Rightarrow> m
      | Some entry \<Rightarrow>
          if max (- (2 ^ 63)) (min (2 ^ 63 - 1) (now - mse_createdAt entry)) > mongoSpanTTL
          then m\<lparr>mm_janitor := Some k,
                 mm_events := mm_events m
                   @ [SpanSetStatus (mse_span entry) mongo_leak,
                      SpanEnd (mse_span entry)]\<rparr>
          else m)"

definition janitor_delete :: "int \<Rightarrow> command_monitor \<Rightarrow> command_monitor" where
  "janitor_delete k m = m\<lparr>mm_janitor := None, mm_spans := (mm_spans m)(k := None)\<rparr>"

text \<open>
  All interleavings of the driver's callbacks and the janitor. \<open>ids\<close> are the request ids that
  were started, in order, so that span \<open>i\<close> is the one of the request \<open>ids ! i\<close>; nothing is
  assumed of them, an id may be started again.
\<close>

inductive monitor_reach :: "command_monitor \<Rightarrow> int list \<Rightarrow> bool" where
  new: "monitor_reach NewCommandMonitor []"
| started: "monitor_reach m ids \<Longrightarrow> monitor_reach (monitor_Started req name now m) (ids @ [req])"
| succeeded: "monitor_reach m ids \<Longrightarrow> monitor_reach (monitor_Succeeded req m) ids"
| failed: "monitor_reach m ids \<Longrightarrow> monitor_reach (monitor_Failed req e m) ids"
| visit: "monitor_reach m ids \<Longrightarrow> mm_janitor m = None \<Longrightarrow> monitor_reach (janitor_visit now k m) ids"
| delete: "monitor_reach m ids \<Longrightarrow> mm_janitor m = Some k \<Longrightarrow> monitor_reach (janitor_delete k m) ids"

text \<open>
  Span \<open>i\<close> is tracked under its own id; or a later start with that id took its place; or the
  janitor gave up an earlier span of that id.
\<close>

definition span_tracked :: "command_monitor \<Rightarrow> int list \<Rightarrow> nat \<Rightarrow> bool" where
  "span_tracked m ids i \<longleftrightarrow> (\<exists>e. mm_spans m (ids ! i) = Some e \<and> mse_span e = i)"

definition span_replaced :: "int list \<Rightarrow> nat \<Rightarrow> bool" where
  "span_replaced ids i \<longleftrightarrow> (\<exists>j. i < j \<and> j < length ids \<and> ids ! j = ids ! i)"

definition given_up_before :: "command_monitor \<Rightarrow> int list \<Rightarrow> nat \<Rightarrow> bool" where
  "given_up_before m ids i \<longleftrightarrow> (\<exists>j < i. ids ! j = ids ! i \<and> SpanSetStatus j mongo_leak \<in> set (mm_events m))"

definition monitor_inv :: "command_monitor \<Rightarrow> int list \<Rightarrow> bool" where
  "monitor_inv m ids \<longleftrightarrow>
     length ids = mm_next m
     \<and> (\<forall>i. SpanEnd i \<in> set (mm_events m) \<longrightarrow> i < mm_next m)
     \<and> (\<forall>k e. mm_spans m k = Some e \<longrightarrow> mse_span e < mm_next m \<and> ids ! mse_span e = k)
     \<and> (\<forall>i < mm_next m. SpanEnd i \<in> set (mm_events m) \<or> span_tracked m ids i \<or> span_replaced ids i \<or> given_up_before m ids i)
     \<and> (\<forall>k. mm_janitor m = Some k \<longrightarrow>
          (\<exists>j < mm_next m. ids ! j = k \<and> SpanSetStatus j mongo_leak \<in> set (mm_events m))
          \<and> (\<forall>e. mm_spans m k = Some e \<longrightarrow>
                SpanEnd (mse_span e) \<in> set (mm_events m) \<or> given_up_before m ids (mse_span e)))"

lemma monitor_invD:
  assumes "monitor_inv m ids"
  shows "length ids = mm_next m" "SpanEnd i \<in> set (mm_events m) \<Longrightarrow> i < mm_next m"
    and "mm_spans m k = Some e \<Longrightarrow> mse_span e < mm_next m \<and> ids ! mse_span e = k"
    and "i < mm_next m \<Longrightarrow> SpanEnd i \<in> set (mm_events m) \<or> span_tracked m ids i \<or> span_replaced ids i \<or> given_up_before m ids i"
    and "mm_janitor m = Some k \<Longrightarrow> \<exists>j < mm_next m. ids ! j = k \<and> SpanSetStatus j mongo_leak \<in> set (mm_events m)"
    and "mm_janitor m = Some k \<Longrightarrow> mm_spans m k = Some e \<Longrightarrow>
      SpanEnd (mse_span e) \<in> set (mm_events m) \<or> given_up_before m ids (mse_span e)"
  using assms unfolding monitor_inv_def by blast+

lemma given_up_mono:
  "given_up_before m ids i \<Longrightarrow> set (mm_events m) \<subseteq> set (mm_events m') \<Longrightarrow> i < length ids \<Longrightarrow> given_up_before m' (ids @ t) i"
  unfolding given_up_before_def by (force simp: nth_append)

lemma replaced_append: "span_replaced ids i \<Longrightarrow> span_replaced (ids @ t) i"
  unfolding span_replaced_def by (force simp: nth_append)

lemma inv_started:
  assumes inv: "monitor_inv m ids"
  shows "monitor_inv (monitor_Started req name now m) (ids @ [req])"
proof -
  let ?m = "monitor_Started req name now m" and ?ids = "ids @ [req]" and ?n = "mm_next m"
  note D = monitor_invD [OF inv]
  have m: "mm_next ?m = Suc ?n" "mm_janitor ?m = mm_janitor m"
    "set (mm_events ?m) = insert (SpanStart ?n (''mongo.'' @ name)) (set (mm_events m))"
    "mm_spans ?m = (mm_spans m)(req \<mapsto> \<lparr>mse_span = ?n, mse_createdAt = now\<rparr>)"
    by (auto simp: monitor_Started_def)
  have up: "given_up_before m ids i \<Longrightarrow> i < ?n \<Longrightarrow> given_up_before ?m ?ids i" for i
    by (rule given_up_mono) (auto simp: m D(1))
  have kept: "SpanEnd i \<in> set (mm_events ?m) \<or> span_tracked ?m ?ids i \<or> span_replaced ?ids i \<or> given_up_before ?m ?ids i"
    if "i < Suc ?n" for i
  proof (cases "i = ?n")
    case True
    then show ?thesis by (simp add: span_tracked_def m nth_append D(1) [symmetric])
  next
    case False
    then have i: "i < ?n" using that by simp
    have "span_tracked m ids i \<Longrightarrow> span_tracked ?m ?ids i \<or> span_replaced ?ids i"
    proof (cases "ids ! i = req")
      case True
      then show ?thesis using i D(1) by (auto simp: span_replaced_def nth_append intro!: exI [of _ ?n])
    qed (use i D(1) in \<open>auto simp: span_tracked_def m nth_append\<close>)
    then show ?thesis using D(4) [OF i] up [OF _ i] replaced_append m(3) by blast
  qed
  have jan: "SpanEnd (mse_span e) \<in> set (mm_events ?m) \<or> given_up_before ?m ?ids (mse_span e)"
    if j: "mm_janitor m = Some k" and e: "mm_spans ?m k = Some e" for k e
  proof (cases "k = req")
    case True
    obtain i where i: "i < ?n" "ids ! i = k" "SpanSetStatus i mongo_leak \<in> set (mm_events m)" using D(5) [OF j] by blast
    have "mse_span e = ?n" using e True by (auto simp: m)
    then have "given_up_before ?m ?ids (mse_span e)"
      unfolding given_up_before_def using i D(1) True m(3) by (intro exI [of _ i]) (simp add: nth_append)
    then show ?thesis by blast
  next
    case False
    then have "mm_spans m k = Some e" using e by (simp add: m)
    then show ?thesis using D(3) D(6) [OF j] up m(3) by blast
  qed
  have pend: "\<exists>j < Suc ?n. ?ids ! j = k \<and> SpanSetStatus j mongo_leak \<in> set (mm_events ?m)" if "mm_janitor m = Some k" for k
    using D(5) [OF that] D(1) m(3) by (auto simp: nth_append intro: less_SucI)
  have own: "mse_span e < Suc ?n \<and> ?ids ! mse_span e = k" if "mm_spans ?m k = Some e" for k e
    using that D(3) D(1) by (auto simp: m nth_append less_SucI split: if_splits)
  have ended: "i < Suc ?n" if "SpanEnd i \<in> set (mm_events ?m)" for i
    using that D(2) [of i] by (simp add: m)
  show ?thesis
    unfolding monitor_inv_def m(1,2) using D(1) kept jan pend own ended by simp
qed

text \<open>A step that starts nothing: more events, fewer entries.\<close>

lemma inv_step:
  assumes inv: "monitor_inv m ids"
    and "mm_next m' = mm_next m" "mm_spans m' \<subseteq>\<^sub>m mm_spans m" "set (mm_events m) \<subseteq> set (mm_events m')"
    and "\<And>i. SpanEnd i \<in> set (mm_events m') \<Longrightarrow> SpanEnd i \<in> set (mm_events m) \<or> (\<exists>k e. mm_spans m k = Some e \<and> mse_span e = i)"
    and "\<And>k e. mm_spans m k = Some e \<Longrightarrow> mm_spans m' k = Some e
       \<or> SpanEnd (mse_span e) \<in> set (mm_events m') \<or> given_up_before m ids (mse_span e)"
    and "\<And>k. mm_janitor m' = Some k \<Longrightarrow> mm_janitor m = Some k
       \<or> (\<exists>e. mm_spans m k = Some e \<and> SpanSetStatus (mse_span e) mongo_leak \<in> set (mm_events m') \<and> SpanEnd (mse_span e) \<in> set (mm_events m'))"
  shows "monitor_inv m' ids"
proof -
  note D = monitor_invD [OF inv]
  have up: "given_up_before m ids i \<Longrightarrow> given_up_before m' ids i" for i
    unfolding given_up_before_def using assms(4) by blast
  have sub: "mm_spans m' k = Some e \<Longrightarrow> mm_spans m k = Some e" for k e
    using assms(3) unfolding map_le_def by (metis domI)
  have kept: "SpanEnd i \<in> set (mm_events m') \<or> span_tracked m' ids i \<or> span_replaced ids i \<or> given_up_before m' ids i"
    if "i < mm_next m" for i
  proof -
    have "span_tracked m ids i \<Longrightarrow> span_tracked m' ids i \<or> SpanEnd i \<in> set (mm_events m') \<or> given_up_before m ids i"
      unfolding span_tracked_def using assms(6) by metis
    then show ?thesis using D(4) [OF that] assms(4) up by blast
  qed
  have pend: "\<exists>j < mm_next m. ids ! j = k \<and> SpanSetStatus j mongo_leak \<in> set (mm_events m')" if "mm_janitor m' = Some k" for k
    using assms(7) [OF that] D(3) D(5) assms(4) by blast
  have jan: "SpanEnd (mse_span e) \<in> set (mm_events m') \<or> given_up_before m' ids (mse_span e)"
    if "mm_janitor m' = Some k" "mm_spans m' k = Some e" for k e
    using assms(7) [OF that(1)] sub [OF that(2)] D(6) up assms(4) by force
  have ended: "i < mm_next m" if "SpanEnd i \<in> set (mm_events m')" for i
    using assms(5) [OF that] D(2,3) by blast
  show ?thesis
    unfolding monitor_inv_def assms(2) using D(1,3) sub kept pend jan ended by blast
qed

lemma inv_finish:
  assumes "monitor_inv m ids"
  shows "monitor_inv (monitor_finish req err m) ids"
proof (cases "mm_spans m req")
  case None
  with assms show ?thesis by (simp add: monitor_finish_def)
next
  case (Some entry)
  show ?thesis
    by (rule inv_step [OF assms]) (use Some in \<open>auto simp: monitor_finish_def map_le_def split: option.splits if_splits\<close>)
qed

lemma inv_visit:
  assumes "monitor_inv m ids" "mm_janitor m = None"
  shows "monitor_inv (janitor_visit now k m) ids"
proof (cases "mm_spans m k")
  case None
  with assms show ?thesis by (simp add: janitor_visit_def)
next
  case (Some e)
  show ?thesis
    by (rule inv_step [OF assms(1)]) (use Some assms(2) in \<open>auto simp: janitor_visit_def split: if_splits\<close>)
qed

lemma inv_delete:
  assumes "monitor_inv m ids" "mm_janitor m = Some k"
  shows "monitor_inv (janitor_delete k m) ids"
  by (rule inv_step [OF assms(1)])
    (use monitor_invD(6) [OF assms] in \<open>auto simp: janitor_delete_def map_le_def\<close>)

lemma monitor_reach_inv: "monitor_reach m ids \<Longrightarrow> monitor_inv m ids"
proof (induction rule: monitor_reach.induct)
  case new
  show ?case by (simp add: monitor_inv_def NewCommandMonitor_def)
qed (auto simp: monitor_Succeeded_def monitor_Failed_def intro: inv_started inv_finish inv_visit inv_delete)

text \<open>
  C31: no span is forgotten unless request ids collide. However the driver's callbacks and the
  janitor interleave, and whatever ids the driver uses, every span that was started has been ended,
  or is still tracked under its request id, where the next callback or the next round of the
  janitor will find it, or its id was not its own: a later start with the same id took its
  place, or the janitor had given up an earlier span with that id. Only started spans are ever ended.
\<close>

theorem mongo_spans_tracked:
  assumes "monitor_reach m ids"
  shows "length ids = mm_next m
    \<and> (\<forall>i < mm_next m. SpanEnd i \<in> set (mm_events m) \<or> span_tracked m ids i \<or> span_replaced ids i \<or> given_up_before m ids i)
    \<and> (\<forall>i. SpanEnd i \<in> set (mm_events m) \<longrightarrow> i < mm_next m)
    \<and> (\<forall>k e. mm_spans m k = Some e \<longrightarrow> mse_span e < mm_next m \<and> ids ! mse_span e = k)"
  using monitor_reach_inv [OF assms] unfolding monitor_inv_def by blast

theorem mongo_spans_tracked_witness:
  "SpanEnd 0 \<in> set (mm_events (monitor_Failed 7 (Some (NewError ''x'')) (monitor_Started 7 ''find'' 0 NewCommandMonitor)))"
proof -
  let ?m = "monitor_Failed 7 (Some (NewError ''x'')) (monitor_Started 7 ''find'' 0 NewCommandMonitor)"
  have r: "monitor_reach ?m ([] @ [7])"
    by (intro monitor_reach.failed monitor_reach.started monitor_reach.new)
  have "mm_next ?m = 1" "mm_spans ?m = Map.empty"
    by (simp_all add: monitor_Failed_def monitor_finish_def monitor_Started_def NewCommandMonitor_def fun_eq_iff)
  with mongo_spans_tracked [OF r] show ?thesis
    by (simp add: span_tracked_def span_replaced_def given_up_before_def)
qed

text \<open>
  Spans are keyed by the request id alone: when an id is started again before its first command
  finished, as it can be across connections, the first span is never ended. And when an id is
  started again while the janitor is about to delete its expired entry, the new span goes with it.
\<close>

lemma monitor_reused_id:
  "let m = monitor_Succeeded 7 (monitor_Succeeded 7 (monitor_Started 7 ''b'' 1 (monitor_Started 7 ''a'' 0 NewCommandMonitor)))
   in SpanEnd 0 \<notin> set (mm_events m) \<and> mm_spans m = Map.empty"
  by (simp add: monitor_Succeeded_def monitor_finish_def monitor_Started_def NewCommandMonitor_def fun_eq_iff)

lemma monitor_janitor_race:
  "let m = janitor_delete 7 (monitor_Started 7 ''b'' (121 * second)
       (janitor_visit (121 * second) 7 (monitor_Started 7 ''a'' 0 NewCommandMonitor)))
   in SpanEnd 1 \<notin> set (mm_events m) \<and> mm_spans m = Map.empty"
  by (simp add: janitor_delete_def janitor_visit_def monitor_Started_def NewCommandMonitor_def mongoSpanTTL_def
      second_def minute_def fun_eq_iff)

section \<open>Connecting\<close>

datatype mongo_event =
    MongoConnect bool "go_error option"
  | MongoPing duration "go_error option"
  | MongoDisconnect "duration option"
  | CloseStop

text \<open>
  \<open>connect\<close> and \<open>ping\<close> are the driver. The result is the client (here just success) or the error,
  and what was done; the monitor goroutine lives until \<open>stop\<close> is closed.
\<close>

definition NewMongoClient ::
  "(bool \<Rightarrow> go_error option) \<Rightarrow> (duration \<Rightarrow> go_error option) \<Rightarrow> ObservabilityConfig \<Rightarrow> go_error option \<times> mongo_event list" where
  "NewMongoClient connect ping obs =
     (let monitored = obs_Enabled obs; err = connect monitored
      in case err of
           Some e \<Rightarrow> (Some e, [MongoConnect monitored (Some e), CloseStop])
         | None \<Rightarrow>
            (case ping (10 * second) of
               Some e \<Rightarrow> (Some e, [MongoConnect monitored None, MongoPing (10 * second) (Some e), CloseStop, MongoDisconnect None])
             | None \<Rightarrow> (None, [MongoConnect monitored None, MongoPing (10 * second) None])))"

definition mongo_cleanup :: "mongo_event list" where
  "mongo_cleanup = [CloseStop, MongoDisconnect (Some (5 * second))]"

lemma mongo_client_released:
  "NewMongoClient connect ping obs = (e, es) \<Longrightarrow>
     count_list (es @ (if e = None then mongo_cleanup else [])) CloseStop = 1"
  by (auto simp: NewMongoClient_def mongo_cleanup_def Let_def split: option.splits)

end
