(* ===== verification/Observability.thy ===== *)
theory Observability
  imports Config
begin

text \<open>
  internal/platform/observability/otel.go: the exporter options and the initialisation of the
  OpenTelemetry providers with its failure paths. The SDK is third party: its constructors are
  parameters and its options constructors of a datatype.
\<close>

datatype exporter_option =
    WithEndpoint string
  | WithInsecure
  | WithHeaders "(string \<times> string) list"
  | WithTLSCredentials

definition exporterOptions :: "ObservabilityConfig \<Rightarrow> go_error + exporter_option list \<times> exporter_option list" where
  "exporterOptions cfg =
     (let traceOpts = [WithEndpoint (obs_Endpoint cfg)];
          metricOpts = [WithEndpoint (obs_Endpoint cfg)]
      in if obs_Insecure cfg then Inr (traceOpts @ [WithInsecure], metricOpts @ [WithInsecure])
         else if obs_IngestionKey cfg = []
           then Inl (NewError ''observability: ingestion_key required for non-insecure exporter'')
         else
           let headers = [(''signoz-ingestion-key'', obs_IngestionKey cfg)]
           in Inr (traceOpts @ [WithHeaders headers, WithTLSCredentials],
                   metricOpts @ [WithHeaders headers, WithTLSCredentials]))"

datatype otel_event =
    TracerProviderStarted rat
  | MeterProviderStarted
  | TracerShutdown "go_error option"
  | MeterShutdown "go_error option"
  | GlobalsSet

text \<open>
  \<open>new_resource\<close>, \<open>new_trace_exporter\<close> and \<open>new_metric_exporter\<close> are the SDK's constructors,
  \<open>tracer_shutdown\<close> the outcome of shutting the tracer down. The flag of the result says whether
  the providers run (otherwise the shutdown function does nothing).
\<close>

definition otel_Init ::
  "(ObservabilityConfig \<Rightarrow> go_error option) \<Rightarrow> (exporter_option list \<Rightarrow> go_error option)
     \<Rightarrow> (exporter_option list \<Rightarrow> go_error option) \<Rightarrow> go_error option \<Rightarrow> ObservabilityConfig
     \<Rightarrow> (go_error + bool) \<times> otel_event list" where
  "otel_Init new_resource new_trace_exporter new_metric_exporter tracer_shutdown cfg =
     (if \<not> obs_Enabled cfg then (Inr False, [])
      else case new_resource cfg of Some e \<Rightarrow> (Inl (WrapError ''otel resource: '' e []), [])
      | None \<Rightarrow> (case exporterOptions cfg of Inl e \<Rightarrow> (Inl e, [])
        | Inr (traceOpts, metricOpts) \<Rightarrow>
          (case new_trace_exporter traceOpts of Some e \<Rightarrow> (Inl (WrapError ''otlp trace exporter: '' e []), [])
          | None \<Rightarrow> (case new_metric_exporter metricOpts of
                Some e \<Rightarrow> (Inl (WrapError ''otlp metric exporter: '' e []),
                           [TracerProviderStarted (obs_SampleRatio cfg), TracerShutdown tracer_shutdown])
              | None \<Rightarrow> (Inr True, [TracerProviderStarted (obs_SampleRatio cfg), MeterProviderStarted, GlobalsSet])))))"

text \<open>The shutdown function: both providers are shut down, and their errors joined (nil if none).\<close>

definition otel_shutdown :: "go_error option \<Rightarrow> go_error option \<Rightarrow> go_error option \<times> otel_event list" where
  "otel_shutdown tracer meter =
     (let errs = (case tracer of None \<Rightarrow> [] | Some e \<Rightarrow> [WrapError ''tracer: '' e []])
              @ (case meter of None \<Rightarrow> [] | Some e \<Rightarrow> [WrapError ''meter: '' e []])
      in (if errs = [] then None else Some (JoinError errs), [TracerShutdown tracer, MeterShutdown meter]))"

lemma otel_shutdown_reports:
  "fst (otel_shutdown tracer meter) = None \<longleftrightarrow> tracer = None \<and> meter = None"
  "tracer = Some e \<or> meter = Some e \<Longrightarrow> errors_is e s \<Longrightarrow>
     \<exists>x. fst (otel_shutdown tracer meter) = Some x \<and> errors_is x s"
  by (auto simp: otel_shutdown_def Let_def split: option.splits)

text \<open>
  C30: the ingestion key is safe. It is sent only with transport credentials, never on an
  insecure connection; a configuration that passed validation and enables telemetry always
  yields exporter options, so \<open>Init\<close> can fail only in the SDK; and what a log line shows of
  the configuration is the same for every non-empty key.
\<close>

theorem otel_ingestion_key_safe:
  assumes "Config_Validate c = None" "obs_Enabled (cfg_Observability c)" "o1 = cfg_Observability c"
  shows "\<exists>t m. exporterOptions o1 = Inr (t, m)
      \<and> (\<forall>opts \<in> {t, m}. (\<exists>h. WithHeaders h \<in> set opts) = (WithTLSCredentials \<in> set opts)
           \<and> (WithInsecure \<in> set opts) = obs_Insecure o1
           \<and> (\<forall>h. WithHeaders h \<in> set opts \<longrightarrow> WithInsecure \<notin> set opts \<and> h = [(''signoz-ingestion-key'', obs_IngestionKey o1)]))
    \<and> ((\<forall>e. fst (otel_Init r te me ts o1) \<noteq> Inl e) = (r o1 = None \<and> te t = None \<and> me m = None))
    \<and> (k \<noteq> [] \<and> k' \<noteq> [] \<longrightarrow>
         ObservabilityConfig_LogValue (o1\<lparr>obs_IngestionKey := k\<rparr>) = ObservabilityConfig_LogValue (o1\<lparr>obs_IngestionKey := k'\<rparr>))"
proof -
  have log: "k \<noteq> [] \<and> k' \<noteq> [] \<longrightarrow>
         ObservabilityConfig_LogValue (o1\<lparr>obs_IngestionKey := k\<rparr>) = ObservabilityConfig_LogValue (o1\<lparr>obs_IngestionKey := k'\<rparr>)"
    by (simp add: ObservabilityConfig_LogValue_def Let_def)
  have en: "obs_Enabled o1" using assms by simp
  show ?thesis
  proof (cases "obs_Insecure o1")
    case True
    let ?t = "[WithEndpoint (obs_Endpoint o1), WithInsecure]"
    have e: "exporterOptions o1 = Inr (?t, ?t)" using True by (simp add: exporterOptions_def Let_def)
    have "(\<forall>e. fst (otel_Init r te me ts o1) \<noteq> Inl e) = (r o1 = None \<and> te ?t = None \<and> me ?t = None)"
      using en by (simp add: otel_Init_def e split: option.splits)
    with e log True show ?thesis by (intro exI [of _ ?t]) auto
  next
    case False
    then have key: "obs_IngestionKey o1 \<noteq> []" using Validate_key [OF assms(1,2)] assms(3) by simp
    let ?t = "[WithEndpoint (obs_Endpoint o1), WithHeaders [(''signoz-ingestion-key'', obs_IngestionKey o1)], WithTLSCredentials]"
    have e: "exporterOptions o1 = Inr (?t, ?t)" using False key by (simp add: exporterOptions_def Let_def)
    have "(\<forall>e. fst (otel_Init r te me ts o1) \<noteq> Inl e) = (r o1 = None \<and> te ?t = None \<and> me ?t = None)"
      using en by (simp add: otel_Init_def e split: option.splits)
    with e log False show ?thesis by (intro exI [of _ ?t]) auto
  qed
qed

definition otel_config :: Config where
  "otel_config = sample_config\<lparr>cfg_Observability := \<lparr>obs_Enabled = True, obs_Endpoint = ''e:443'', obs_Insecure = False,
     obs_IngestionKey = ''k'', obs_ServiceName = ''s'', obs_Environment = ''prod'', obs_SampleRatio = 1, obs_PublicFacing = False\<rparr>\<rparr>"

theorem otel_ingestion_key_safe_witness:
  "\<exists>t m. exporterOptions (cfg_Observability otel_config) = Inr (t, m) \<and> WithInsecure \<notin> set t"
proof -
  have "Config_Validate otel_config = None" "obs_Enabled (cfg_Observability otel_config)"
    "\<not> obs_Insecure (cfg_Observability otel_config)" by code_simp+
  note c = this
  obtain t m where "exporterOptions (cfg_Observability otel_config) = Inr (t, m)"
    "(WithInsecure \<in> set t) = obs_Insecure (cfg_Observability otel_config)"
    using otel_ingestion_key_safe [OF c(1,2) refl, where r = "\<lambda>_. None" and te = "\<lambda>_. None" and me = "\<lambda>_. None"
        and ts = None and k = "[]" and k' = "[]"]
    by auto
  with c(3) show ?thesis by blast
qed

end
