(* ===== verification/Wiring.thy ===== *)
theory Wiring
  imports Platform Database Observability
begin

text \<open>
  What the two programs share when they start and stop: the environment they run in, the events of
  opening and closing the things that must be closed, the OpenTelemetry provider, and the shape of
  the generated initialisers (cmd/server/wire_gen.go, cmd/worker/wire_gen.go): acquire one thing
  after the other, and release what was acquired, in reverse order, when one fails.
\<close>

datatype broker_client = MainConsumerClient | RetryConsumerClient | ProducerClient

datatype app_event =
    MongoEv mongo_event
  | OtelEv otel_event
  | ClientOpened broker_client "kgo_Opt list"
  | ClientFailed broker_client go_error
  | ClientClosed broker_client
  | SqsClientMade
  | HealthStarted
  | Listening string
  | ShutdownServer duration
  | LoggedInfo string
  | LoggedError string string

text \<open>
  \<open>config.Load\<close>; the Mongo driver, franz-go and the AWS configuration; the OpenTelemetry SDK's
  constructors and the outcome of shutting its two providers down.
\<close>

record app_env =
  ae_load :: "string \<Rightarrow> go_error + Config"
  ae_connect :: "bool \<Rightarrow> go_error option"
  ae_ping :: "duration \<Rightarrow> go_error option"
  ae_new_client :: "broker_client \<Rightarrow> kgo_Opt list \<Rightarrow> go_error option"
  ae_aws_config :: "string option \<Rightarrow> go_error option"
  ae_resource :: "ObservabilityConfig \<Rightarrow> go_error option"
  ae_trace_exporter :: "exporter_option list \<Rightarrow> go_error option"
  ae_metric_exporter :: "exporter_option list \<Rightarrow> go_error option"
  ae_tracer_shutdown :: "go_error option"
  ae_meter_shutdown :: "go_error option"

text \<open>A provider: its error, what it did, and what its cleanup function does.\<close>

type_synonym provided = "go_error option \<times> app_event list \<times> app_event list"

definition ProvideObservability :: "app_env \<Rightarrow> ObservabilityConfig \<Rightarrow> provided" where
  "ProvideObservability env cfg =
     (case otel_Init (ae_resource env) (ae_trace_exporter env) (ae_metric_exporter env) (ae_tracer_shutdown env) cfg of
        (Inl err, es) \<Rightarrow> (Some err, map OtelEv es, [])
      | (Inr running, es) \<Rightarrow>
          (None, map OtelEv es,
           if running then map OtelEv (snd (otel_shutdown (ae_tracer_shutdown env) (ae_meter_shutdown env))) else []))"

definition ProvideMongo :: "app_env \<Rightarrow> ObservabilityConfig \<Rightarrow> provided" where
  "ProvideMongo env obs =
     (case NewMongoClient (ae_connect env) (ae_ping env) obs of
        (Some err, es) \<Rightarrow> (Some err, map MongoEv es, [])
      | (None, es) \<Rightarrow> (None, map MongoEv es, map MongoEv mongo_cleanup))"

section \<open>The reference\<close>

text \<open>Acquire in order; on a failure run the cleanups of what is held, the last first.\<close>

fun acquire :: "provided list \<Rightarrow> app_event list \<Rightarrow> go_error option \<times> app_event list \<times> app_event list" where
  "acquire [] held = (None, [], held)"
| "acquire ((Some e, es, c) # ps) held = (Some e, es @ held, [])"
| "acquire ((None, es, c) # ps) held =
     (let (r, es', held') = acquire ps (c @ held) in (r, es @ es', held'))"

section \<open>Everything opened is closed\<close>

datatype held =
    HeldMonitor
  | HeldMongo
  | HeldTracer
  | HeldMeter
  | HeldClient broker_client

definition release :: "held \<Rightarrow> held list \<Rightarrow> held list option" where
  "release x hs = (if x \<in> set hs then Some (remove1 x hs) else None)"

text \<open>
  What is held after the events; None if something was closed that was not held, such as a
  channel closed twice, which panics. The stop channel of the command monitor is made before the
  connection; a connection that failed needs no disconnect.
\<close>

fun held_after :: "held list \<Rightarrow> app_event list \<Rightarrow> held list option" where
  "held_after hs [] = Some hs"
| "held_after hs (MongoEv (MongoConnect m None) # es) = held_after (HeldMongo # HeldMonitor # hs) es"
| "held_after hs (MongoEv (MongoConnect m (Some e)) # es) = held_after (HeldMonitor # hs) es"
| "held_after hs (MongoEv CloseStop # es) = Option.bind (release HeldMonitor hs) (\<lambda>hs. held_after hs es)"
| "held_after hs (MongoEv (MongoDisconnect d) # es) = Option.bind (release HeldMongo hs) (\<lambda>hs. held_after hs es)"
| "held_after hs (OtelEv (TracerProviderStarted r) # es) = held_after (HeldTracer # hs) es"
| "held_after hs (OtelEv MeterProviderStarted # es) = held_after (HeldMeter # hs) es"
| "held_after hs (OtelEv (TracerShutdown e) # es) = Option.bind (release HeldTracer hs) (\<lambda>hs. held_after hs es)"
| "held_after hs (OtelEv (MeterShutdown e) # es) = Option.bind (release HeldMeter hs) (\<lambda>hs. held_after hs es)"
| "held_after hs (ClientOpened c opts # es) = held_after (HeldClient c # hs) es"
| "held_after hs (ClientClosed c # es) = Option.bind (release (HeldClient c) hs) (\<lambda>hs. held_after hs es)"
| "held_after hs (x # es) = held_after hs es"

lemma held_after_append: "held_after hs (es @ es') = Option.bind (held_after hs es) (\<lambda>hs. held_after hs es')"
  by (induction hs es rule: held_after.induct) (simp_all split: Option.bind_split)

text \<open>A provider that fails leaves nothing behind; one that succeeds is undone by its cleanup.\<close>

definition undone :: "provided \<Rightarrow> bool" where
  "undone p \<longleftrightarrow>
     (case p of
        (Some e, es, c) \<Rightarrow> \<forall>hs. held_after hs es = Some hs
      | (None, es, c) \<Rightarrow> \<exists>rs. \<forall>hs. held_after hs es = Some (rs @ hs) \<and> held_after (rs @ hs) c = Some hs)"

lemma acquire_releases:
  assumes "\<forall>p \<in> set ps. undone p" "held_after hs held = Some []"
  shows "case acquire ps held of (r, es, held') \<Rightarrow> held_after hs (es @ held') = Some [] \<and> (r \<noteq> None \<longrightarrow> held' = [])"
  using assms
proof (induction ps held arbitrary: hs rule: acquire.induct)
  case (2 e es c ps held)
  then show ?case by (simp add: undone_def held_after_append)
next
  case (3 es c ps held)
  then obtain rs where rs: "\<And>hs. held_after hs es = Some (rs @ hs)" "\<And>hs. held_after (rs @ hs) c = Some hs"
    by (auto simp: undone_def)
  have "held_after (rs @ hs) (c @ held) = Some []" using rs(2) 3(3) by (simp add: held_after_append)
  then show ?case using 3(1) [of "rs @ hs"] 3(2) rs(1) by (auto simp: held_after_append split: prod.splits)
qed simp

text \<open>The interface of a provider: what it promises, whatever the environment.\<close>

locale provider =
  fixes provide :: "'c \<Rightarrow> provided"
  assumes leaves_nothing: "undone (provide c)"
begin

lemma failed: "provide c = (Some e, es, cl) \<Longrightarrow> held_after hs es = Some hs"
  using leaves_nothing [of c] by (simp add: undone_def)

lemma undone_after:
  "provide c = (None, es, cl) \<Longrightarrow> \<exists>rs. \<forall>hs. held_after hs es = Some (rs @ hs) \<and> held_after (rs @ hs) cl = Some hs"
  using leaves_nothing [of c] by (simp add: undone_def)

lemma chain_released:
  assumes "acquire (provide c # ps) [] = (r, es, held)" "\<forall>p \<in> set ps. undone p"
  shows "held_after [] (es @ held) = Some [] \<and> (r \<noteq> None \<longrightarrow> held = [])"
  using acquire_releases [of "provide c # ps" "[]" "[]"] assms leaves_nothing by auto

end

interpretation mongo_provider: provider "ProvideMongo env" for env
proof unfold_locales
  fix obs
  show "undone (ProvideMongo env obs)"
    by (auto simp: undone_def ProvideMongo_def NewMongoClient_def mongo_cleanup_def release_def Let_def
        intro!: exI [of _ "[HeldMongo, HeldMonitor]"] split: option.splits)
qed

interpretation otel_provider: provider "ProvideObservability env" for env
proof unfold_locales
  fix cfg
  show "undone (ProvideObservability env cfg)"
  proof (cases "fst (otel_Init (ae_resource env) (ae_trace_exporter env) (ae_metric_exporter env) (ae_tracer_shutdown env) cfg)")
    case (Inr running)
    show ?thesis
    proof (cases running)
      case True
      with Inr show ?thesis
        by (auto simp: undone_def ProvideObservability_def otel_Init_def otel_shutdown_def release_def Let_def
            intro!: exI [of _ "[HeldMeter, HeldTracer]"] split: option.splits sum.splits if_splits)
    next
      case False
      with Inr show ?thesis
        by (auto simp: undone_def ProvideObservability_def otel_Init_def Let_def
            intro!: exI [of _ "[]"] split: option.splits sum.splits if_splits)
    qed
  next
    case (Inl e)
    then show ?thesis
      by (auto simp: undone_def ProvideObservability_def otel_Init_def release_def Let_def
          split: option.splits sum.splits if_splits)
  qed
qed

text \<open>An environment in which everything succeeds.\<close>

definition sample_app_env :: app_env where
  "sample_app_env =
     \<lparr>ae_load = \<lambda>p. Inr sample_config, ae_connect = \<lambda>m. None, ae_ping = \<lambda>d. None, ae_new_client = \<lambda>c opts. None,
      ae_aws_config = \<lambda>r. None, ae_resource = \<lambda>c. None, ae_trace_exporter = \<lambda>opts. None,
      ae_metric_exporter = \<lambda>opts. None, ae_tracer_shutdown = None, ae_meter_shutdown = None\<rparr>"

end
