(* ===== verification/ServerProgram.thy ===== *)
theory ServerProgram
  imports Wiring Middleware
begin

text \<open>
  cmd/server: the generated initialiser, the providers with the health registry and the routes,
  \<open>main\<close> with its shutdown sequence, and the healthcheck command.
\<close>

section \<open>providers.go\<close>

datatype server_handler =
    H_Liveness
  | H_Readiness
  | H_DetailedReadiness
  | H_Ping
  | H_UserRegister
  | H_UserList
  | H_RoleCreate
  | H_RoleList
  | H_RoleGetByID

text \<open>internal/user/routes.go, internal/role/routes.go and the routes of \<open>ProvideRouter\<close>.\<close>

definition user_RegisterRoutes :: "string \<Rightarrow> (string \<times> string \<times> server_handler) list" where
  "user_RegisterRoutes rg =
     (let users = rg @ ''/users'' in [(''POST'', users @ ''/register'', H_UserRegister), (''GET'', users, H_UserList)])"

definition role_RegisterRoutes :: "string \<Rightarrow> (string \<times> string \<times> server_handler) list" where
  "role_RegisterRoutes rg =
     (let roles = rg @ ''/roles''
      in [(''POST'', roles, H_RoleCreate), (''GET'', roles, H_RoleList), (''GET'', roles @ ''/:id'', H_RoleGetByID)])"

definition server_routes :: "(string \<times> string \<times> server_handler) list" where
  "server_routes =
     [(''GET'', ''/healthz'', H_Liveness), (''GET'', ''/readyz'', H_Readiness),
      (''GET'', ''/internal/readyz'', H_DetailedReadiness), (''GET'', ''/ping'', H_Ping)]
     @ user_RegisterRoutes ''/api/v1'' @ role_RegisterRoutes ''/api/v1''"

text \<open>\<open>ping\<close> is the Mongo client's ping.\<close>

definition server_health_registry :: "(health_history \<Rightarrow> duration \<Rightarrow> go_error option) \<Rightarrow> Registry" where
  "server_health_registry ping = Register (MongoChecker ping) (NewRegistry [])"

section \<open>wire_gen.go\<close>

record ServerApp =
  sa_Config :: Config
  sa_Logger :: slog_handler
  sa_Server :: http_Server
  sa_Routes :: "(string \<times> string \<times> server_handler) list"
  sa_Health :: Registry
  sa_cleanup :: "app_event list"

definition InitializeServer ::
  "app_env \<Rightarrow> (health_history \<Rightarrow> duration \<Rightarrow> go_error option) \<Rightarrow> string \<Rightarrow> (go_error + ServerApp) \<times> app_event list" where
  "InitializeServer env ping cfgPath =
     (case ae_load env cfgPath of
        Inl err \<Rightarrow> (Inl err, [])
      | Inr cfg \<Rightarrow>
         (let obs = cfg_Observability cfg
          in case ProvideMongo env obs of
               (Some err, es, _) \<Rightarrow> (Inl err, es)
             | (None, es, cleanup) \<Rightarrow>
                (let server = httpserver_New (cfg_Server cfg);
                     registry = server_health_registry ping
                 in case ProvideObservability env obs of
                      (Some err, es2, _) \<Rightarrow> (Inl err, es @ es2 @ cleanup)
                    | (None, es2, cleanup2) \<Rightarrow>
                        (Inr \<lparr>sa_Config = cfg, sa_Logger = logger_New (cfg_Logger cfg), sa_Server = server,
                              sa_Routes = server_routes, sa_Health = registry, sa_cleanup = cleanup2 @ cleanup\<rparr>,
                         es @ es2))))"

section \<open>main.go\<close>

text \<open>What the \<open>select\<close> saw: the signal, or the server's end, with its error or without.\<close>

datatype server_end = GotSignal | ServerEnded "go_error option"

text \<open>
  The serving part of \<open>main\<close>: the exit status and what was done. \<open>shutdown\<close> is what
  \<open>Server.Shutdown\<close> returns.
\<close>

definition server_main ::
  "app_env \<Rightarrow> (health_history \<Rightarrow> duration \<Rightarrow> go_error option) \<Rightarrow> string \<Rightarrow> server_end \<Rightarrow> go_error option
     \<Rightarrow> int \<times> app_event list" where
  "server_main env ping config_path ended shutdown =
     (let cfgPath = (if config_path = [] then ''config/config.yaml'' else config_path)
      in case InitializeServer env ping cfgPath of
           (Inl err, es) \<Rightarrow> (1, es @ [LoggedError ''init server: '' (error_text err)])
         | (Inr app, es) \<Rightarrow>
            (0, es
              @ [HealthStarted, LoggedInfo ''server starting'', Listening (hs_Addr (sa_Server app))]
              @ (case ended of
                   GotSignal \<Rightarrow> [LoggedInfo ''shutdown signal received'']
                 | ServerEnded None \<Rightarrow> []
                 | ServerEnded (Some err) \<Rightarrow> [LoggedError ''server failed'' (error_text err)])
              @ [ShutdownServer (wrap64 (srv_ShutdownTimeout (cfg_Server (sa_Config app)) + 10 * second))]
              @ (case shutdown of None \<Rightarrow> [] | Some err \<Rightarrow> [LoggedError ''server shutdown failed'' (error_text err)])
              @ sa_cleanup app))"

text \<open>\<open>get\<close> is the HTTP client: the status of the response to a GET, within three seconds.\<close>

definition runHealthcheck :: "string \<Rightarrow> string \<Rightarrow> (string \<Rightarrow> go_error + int) \<Rightarrow> int" where
  "runHealthcheck PORT APP_SERVER__PORT get =
     (let port = PORT;
          port = (if port = [] then APP_SERVER__PORT else port);
          port = (if port = [] then ''8002'' else port)
      in if atoi port = None then 1
         else case get (''http://127.0.0.1:'' @ port @ ''/readyz'') of
                Inl err \<Rightarrow> 1
              | Inr status \<Rightarrow> if status \<noteq> StatusOK then 1 else 0)"

definition server_process ::
  "string list \<Rightarrow> int \<Rightarrow> int \<times> app_event list \<Rightarrow> int \<times> app_event list" where
  "server_process args healthcheck serve =
     (if length args > 1 \<and> args ! 1 = ''healthcheck'' then (healthcheck, []) else serve)"

section \<open>Start and stop\<close>

lemma InitializeServer_acquire:
  assumes "ae_load env cfgPath = Inr cfg"
    and "acquire [ProvideMongo env (cfg_Observability cfg), ProvideObservability env (cfg_Observability cfg)] [] = (r, es, held)"
  shows "case InitializeServer env ping cfgPath of
      (Inl err, es') \<Rightarrow> r = Some err \<and> es' = es \<and> held = []
    | (Inr app, es') \<Rightarrow> r = None \<and> es' = es \<and> sa_cleanup app = held \<and> sa_Config app = cfg"
proof -
  obtain r1 es1 c1 where m: "ProvideMongo env (cfg_Observability cfg) = (r1, es1, c1)" by (metis prod_cases3)
  obtain r2 es2 c2 where o2: "ProvideObservability env (cfg_Observability cfg) = (r2, es2, c2)" by (metis prod_cases3)
  show ?thesis
    using assms by (cases r1; cases r2) (auto simp: InitializeServer_def Let_def m o2)
qed

lemma InitializeServer_released:
  "case InitializeServer env ping cfgPath of
     (Inl err, es) \<Rightarrow> held_after [] es = Some []
   | (Inr app, es) \<Rightarrow> held_after [] (es @ sa_cleanup app) = Some []"
proof (cases "ae_load env cfgPath")
  case (Inl e)
  then show ?thesis by (simp add: InitializeServer_def)
next
  case (Inr cfg)
  obtain r es held where a: "acquire [ProvideMongo env (cfg_Observability cfg), ProvideObservability env (cfg_Observability cfg)] []
      = (r, es, held)" by (metis prod_cases3)
  have "held_after [] (es @ held) = Some [] \<and> (r \<noteq> None \<longrightarrow> held = [])"
    by (rule mongo_provider.chain_released [OF a]) (simp add: otel_provider.leaves_nothing)
  with InitializeServer_acquire [OF Inr a, of ping] show ?thesis
    by (auto split: prod.splits sum.splits)
qed

lemma held_after_neutral: "held_after hs [HealthStarted, LoggedInfo a, Listening b] = Some hs"
  "held_after hs [LoggedError a b] = Some hs" "held_after hs [LoggedInfo a] = Some hs" "held_after hs [ShutdownServer d] = Some hs"
  by simp_all

text \<open>
  C10: the server gives back everything it opened, the Mongo client, the command monitor and the
  telemetry providers, exactly once, whether starting fails at any point, serving fails, or a
  signal ends it; and a server that starts is always shut down before that.
\<close>

theorem server_releases:
  assumes "server_main env ping config_path ended shutdown = (status, es)"
  shows "held_after [] es = Some []
    \<and> (status = 0 \<longrightarrow> (\<exists>a d b. es = a @ ShutdownServer d # b \<and> (\<forall>x \<in> set a. \<forall>e. x \<noteq> MongoEv (MongoDisconnect e))))"
proof -
  let ?path = "if config_path = [] then ''config/config.yaml'' else config_path"
  obtain r es0 where i: "InitializeServer env ping ?path = (r, es0)" by fastforce
  note rel = InitializeServer_released [of env ping ?path, unfolded i]
  show ?thesis
  proof (cases r)
    case (Inl e)
    with assms i rel show ?thesis
      by (auto simp: server_main_def Let_def held_after_append)
  next
    case (Inr app)
    obtain hs where hs: "held_after [] es0 = Some hs" "held_after hs (sa_cleanup app) = Some []"
      using rel Inr by (auto simp: held_after_append bind_eq_Some_conv)
    have nd: "\<forall>x \<in> set es0. \<forall>e. x \<noteq> MongoEv (MongoDisconnect e)"
      using i Inr by (auto simp: InitializeServer_def ProvideMongo_def NewMongoClient_def ProvideObservability_def Let_def
          split: sum.splits option.splits prod.splits)
    define mid where "mid = [HealthStarted, LoggedInfo ''server starting'', Listening (hs_Addr (sa_Server app))]
              @ (case ended of
                   GotSignal \<Rightarrow> [LoggedInfo ''shutdown signal received'']
                 | ServerEnded None \<Rightarrow> []
                 | ServerEnded (Some err) \<Rightarrow> [LoggedError ''server failed'' (error_text err)])"
    define post where "post = (case shutdown of None \<Rightarrow> [] | Some err \<Rightarrow> [LoggedError ''server shutdown failed'' (error_text err)])
              @ sa_cleanup app"
    let ?d = "wrap64 (srv_ShutdownTimeout (cfg_Server (sa_Config app)) + 10 * second)"
    have es: "es = (es0 @ mid) @ ShutdownServer ?d # post"
      using assms i Inr by (simp add: server_main_def Let_def mid_def post_def)
    have m: "held_after x mid = Some x" "held_after x (ShutdownServer ?d # post) = held_after x (sa_cleanup app)" for x
      by (simp_all add: mid_def post_def split: server_end.splits option.splits)
    have "held_after [] es = Some []" unfolding es held_after_append hs(1) bind.bind_lunit m using hs(2) by simp
    moreover have "\<forall>x \<in> set (es0 @ mid). \<forall>e. x \<noteq> MongoEv (MongoDisconnect e)"
      using nd by (auto simp: mid_def split: server_end.splits option.splits)
    ultimately show ?thesis using es by blast
  qed
qed

text \<open>
  When the listener fails, for instance because its port is taken, the process logs the
  failure and exits with status 0, as after a regular shutdown.
\<close>

theorem server_failure_exits_zero:
  assumes "InitializeServer env ping config_path = (Inr app, es)" "config_path \<noteq> []"
    and "httpserver_Start (ListenFailed err) = Some e"
  shows "\<exists>es'. server_main env ping config_path (ServerEnded (Some e)) shutdown = (0, es')
    \<and> LoggedError ''server failed'' (error_text err) \<in> set es'"
  using assms by (simp add: server_main_def httpserver_Start_def)

text \<open>
  The healthcheck agrees with readiness if it asks the port the server listens on; but a variable
  \<open>PORT\<close>, which the configuration does not read, sends it elsewhere.
\<close>

lemma healthcheck_ready:
  assumes "get (''http://127.0.0.1:'' @ itoa port @ ''/readyz'') = Inr (fst (Readiness r))" "int64_range port"
  shows "runHealthcheck [] (itoa port) get = (if registry_ready r then 0 else 1)"
proof -
  have "itoa port \<noteq> []" "atoi (itoa port) = Some port" using assms(2) by (simp_all add: atoi_itoa)
  then show ?thesis
    using assms(1) by (simp add: runHealthcheck_def Readiness_def StatusOK_def StatusServiceUnavailable_def Let_def)
qed

section \<open>A server\<close>

theorem server_releases_witness:
  "held_after [] (snd (server_main sample_app_env (\<lambda>h d. None) ''c'' GotSignal None)) = Some []"
  using server_releases [of sample_app_env "\<lambda>h d. None" "''c''" GotSignal None] by (metis prod.collapse)

theorem server_failure_exits_zero_witness:
  "fst (server_main sample_app_env (\<lambda>h d. None) ''c'' (ServerEnded (Some (NewError ''in use''))) None) = 0"
proof -
  have "\<exists>app es. InitializeServer sample_app_env (\<lambda>h d. None) ''c'' = (Inr app, es)"
    by (simp add: InitializeServer_def sample_app_env_def ProvideMongo_def NewMongoClient_def ProvideObservability_def
        otel_Init_def sample_config_def Let_def)
  then obtain app es where i: "InitializeServer sample_app_env (\<lambda>h d. None) ''c'' = (Inr app, es)" by blast
  have s: "httpserver_Start (ListenFailed (NewError ''in use'')) = Some (NewError ''in use'')" by (simp add: httpserver_Start_def)
  have ne: "''c'' \<noteq> []" by simp
  from server_failure_exits_zero [OF i ne s, of None] show ?thesis by auto
qed

end
