(* ===== verification/Pagination.thy ===== *)
theory Pagination
  imports GoStd
begin

text \<open>
  internal/platform/pagination/cursor.go: page limits and opaque cursors, base64 (raw, URL-safe)
  over JSON. The base64 coding is Go's standard library and modelled; the JSON text of a cursor
  holds a \<open>bson.ObjectID\<close>, whose JSON form is the driver's, so marshalling is a parameter.
\<close>

text \<open>An object id is 12 bytes; Mongo orders them as the big-endian number they are here.\<close>

type_synonym ObjectID = nat

definition MaxLimit :: int where "MaxLimit = 100"
definition DefaultLimit :: int where "DefaultLimit = 20"

definition ClampLimit :: "int \<Rightarrow> int" where
  "ClampLimit req = (if req \<le> 0 then DefaultLimit else if req > MaxLimit then MaxLimit else req)"

lemma ClampLimit_range: "1 \<le> ClampLimit n" "ClampLimit n \<le> 100"
  by (simp_all add: ClampLimit_def DefaultLimit_def MaxLimit_def)

section \<open>base64.RawURLEncoding\<close>

definition b64_char :: "nat \<Rightarrow> char" where
  "b64_char d =
     (if d < 26 then char_of (65 + d) else if d < 52 then char_of (71 + d)
      else if d < 62 then char_of (d - 4) else if d = 62 then CHR ''-'' else CHR ''_'')"

definition b64_digit :: "char \<Rightarrow> nat option" where
  "b64_digit c =
     (let n = (of_char c :: nat)
      in if 65 \<le> n \<and> n \<le> 90 then Some (n - 65) else if 97 \<le> n \<and> n \<le> 122 then Some (n - 71)
         else if 48 \<le> n \<and> n \<le> 57 then Some (n + 4) else if n = 45 then Some 62 else if n = 95 then Some 63 else None)"

fun b64_digits :: "nat list \<Rightarrow> nat list" where
  "b64_digits [] = []"
| "b64_digits [a] = [a div 4, a mod 4 * 16]"
| "b64_digits [a, b] = [a div 4, a mod 4 * 16 + b div 16, b mod 16 * 4]"
| "b64_digits (a # b # c # s) =
     [a div 4, a mod 4 * 16 + b div 16, b mod 16 * 4 + c div 64, c mod 64] @ b64_digits s"

text \<open>Decoding ignores the bits left over in the last digit; one digit alone is an error.\<close>

fun b64_bytes :: "nat list \<Rightarrow> nat list option" where
  "b64_bytes [] = Some []"
| "b64_bytes [w] = None"
| "b64_bytes [w, x] = Some [w * 4 + x div 16]"
| "b64_bytes [w, x, y] = Some [w * 4 + x div 16, x mod 16 * 16 + y div 4]"
| "b64_bytes (w # x # y # z # s) =
     map_option (\<lambda>bs. [w * 4 + x div 16, x mod 16 * 16 + y div 4, y mod 4 * 64 + z] @ bs) (b64_bytes s)"

fun b64_read :: "string \<Rightarrow> nat list option" where
  "b64_read [] = Some []"
| "b64_read (c # s) =
     (if c = CHR 0x0A \<or> c = CHR 0x0D then b64_read s
      else case b64_digit c of None \<Rightarrow> None | Some d \<Rightarrow> map_option (\<lambda>ds. d # ds) (b64_read s))"

definition EncodeToString :: "string \<Rightarrow> string" where
  "EncodeToString s = map b64_char (b64_digits (map of_char s))"

definition DecodeString :: "string \<Rightarrow> string option" where
  "DecodeString s =
     (case b64_read s of None \<Rightarrow> None | Some ds \<Rightarrow> map_option (map char_of) (b64_bytes ds))"

lemma b64_digit_char:
  assumes "d < 64"
  shows "b64_digit (b64_char d) = Some d \<and> b64_char d \<noteq> CHR 0x0A \<and> b64_char d \<noteq> CHR 0x0D"
proof -
  have "b64_digit (b64_char d) = Some d"
  proof (cases "d < 62")
    case True
    then show ?thesis by (auto simp: b64_char_def b64_digit_def Let_def of_char_of)
  next
    case False
    with assms have "d = 62 \<or> d = 63" by linarith
    then show ?thesis by (auto simp: b64_char_def b64_digit_def Let_def)
  qed
  moreover have "b64_digit (CHR 0x0A) = None" "b64_digit (CHR 0x0D) = None"
    by (simp_all add: b64_digit_def)
  ultimately show ?thesis by auto
qed

lemma b64_read_chars: "\<forall>d \<in> set ds. d < 64 \<Longrightarrow> b64_read (map b64_char ds) = Some ds"
  using b64_digit_char by (induction ds) auto

lemma b64_first:
  fixes a b :: nat
  assumes "a < 256" "b < 256"
  shows "a div 4 < 64 \<and> a mod 4 * 16 + b div 16 < 64 \<and> a div 4 * 4 + (a mod 4 * 16 + b div 16) div 16 = a"
proof -
  have b: "b div 16 < 16" using assms by simp
  then have d: "(a mod 4 * 16 + b div 16) div 16 = a mod 4" by simp
  have "a mod 4 < 4" by simp
  with b have "a mod 4 * 16 + b div 16 < 64" by linarith
  moreover have "a div 4 < 64" using assms by simp
  ultimately show ?thesis by (simp add: d)
qed

lemma b64_second:
  fixes a b c :: nat
  assumes "b < 256" "c < 256"
  shows "b mod 16 * 4 + c div 64 < 64 \<and> (a mod 4 * 16 + b div 16) mod 16 * 16 + (b mod 16 * 4 + c div 64) div 4 = b"
proof -
  have c: "c div 64 < 4" and b: "b div 16 < 16" using assms by simp_all
  have "(b mod 16 * 4 + c div 64) div 4 = b mod 16" using c by simp
  moreover have "(a mod 4 * 16 + b div 16) mod 16 = b div 16" using b by simp
  moreover have "b mod 16 * 4 + c div 64 < 64"
  proof -
    have "b mod 16 < 16" by simp
    with c show ?thesis by linarith
  qed
  ultimately show ?thesis by simp
qed

lemma b64_third:
  fixes b c :: nat
  assumes "c < 256"
  shows "(b mod 16 * 4 + c div 64) mod 4 * 64 + c mod 64 = c"
proof -
  have "c div 64 < 4" using assms by simp
  then have "(b mod 16 * 4 + c div 64) mod 4 = c div 64" by simp
  then show ?thesis by simp
qed

lemma b64_digits_small: "\<forall>b \<in> set bs. b < 256 \<Longrightarrow> \<forall>d \<in> set (b64_digits bs). d < 64"
proof (induction bs rule: b64_digits.induct)
  case (4 a b c s)
  then show ?case using b64_first [of a b] b64_second [of b c] by simp
next
  case (3 a b)
  then show ?case using b64_first [of a b] b64_second [of b 0] by simp
next
  case (2 a)
  then show ?case using b64_first [of a 0] by simp
qed simp

lemma b64_bytes_digits: "\<forall>b \<in> set bs. b < 256 \<Longrightarrow> b64_bytes (b64_digits bs) = Some bs"
proof (induction bs rule: b64_digits.induct)
  case (4 a b c s)
  have "b64_bytes (b64_digits s) = Some s" using 4 by simp
  then show ?case using "4.prems" b64_first [of a b] b64_second [of b c a] b64_third [of c b] by simp
next
  case (3 a b)
  then show ?case using b64_first [of a b] b64_second [of b 0 a] by simp
next
  case (2 a)
  then show ?case using b64_first [of a 0] by simp
qed simp

lemma DecodeString_EncodeToString: "DecodeString (EncodeToString s) = Some s"
proof -
  have b: "\<forall>b \<in> set (map of_char s). b < (256 :: nat)" by auto
  show ?thesis
    by (simp add: DecodeString_def EncodeToString_def b64_read_chars [OF b64_digits_small [OF b]]
        b64_bytes_digits [OF b])
qed

lemma EncodeToString_empty: "EncodeToString s = [] \<longleftrightarrow> s = []"
  by (cases "map of_char s :: nat list" rule: b64_digits.cases) (auto simp: EncodeToString_def)

section \<open>Cursors\<close>

text \<open>\<open>marshal\<close> and \<open>unmarshal\<close> are JSON on the cursor struct; the zero id is no position.\<close>

definition Cursor_Encode :: "(ObjectID \<Rightarrow> string) \<Rightarrow> ObjectID \<Rightarrow> string" where
  "Cursor_Encode marshal lastID = EncodeToString (marshal lastID)"

definition DecodeCursor :: "(string \<Rightarrow> ObjectID option) \<Rightarrow> string \<Rightarrow> go_error + ObjectID" where
  "DecodeCursor unmarshal s =
     (if s = [] then Inr 0
      else case DecodeString s of
             None \<Rightarrow> Inl (NewError ''invalid cursor encoding'')
           | Some raw \<Rightarrow>
              (case unmarshal raw of
                 None \<Rightarrow> Inl (NewError ''invalid cursor payload'')
               | Some i \<Rightarrow> Inr i))"

text \<open>The driver's promise: an object id survives its JSON form, which is not empty.\<close>

definition json_round_trip :: "(ObjectID \<Rightarrow> string) \<Rightarrow> (string \<Rightarrow> ObjectID option) \<Rightarrow> bool" where
  "json_round_trip marshal unmarshal \<longleftrightarrow> (\<forall>i. marshal i \<noteq> [] \<and> unmarshal (marshal i) = Some i)"

lemma DecodeCursor_Encode:
  "json_round_trip marshal unmarshal \<Longrightarrow> DecodeCursor unmarshal (Cursor_Encode marshal i) = Inr i"
  by (simp add: DecodeCursor_def Cursor_Encode_def DecodeString_EncodeToString EncodeToString_empty json_round_trip_def)

definition url_safe :: string where
  "url_safe = ''ABCDEFGHIJKLMNOPQRSTUVWXYZabcdefghijklmnopqrstuvwxyz0123456789-_''"

lemma b64_char_safe: "d < 64 \<Longrightarrow> b64_char d \<in> set url_safe"
proof -
  have a: "\<forall>d \<in> set [0..<64]. b64_char d \<in> set url_safe" by code_simp
  assume "d < 64"
  then have "d \<in> set [0..<64]" by simp
  then show ?thesis by (rule a [THEN bspec])
qed

lemma Cursor_Encode_safe: "set (Cursor_Encode marshal i) \<subseteq> set url_safe"
proof -
  have b: "\<forall>b \<in> set (map of_char (marshal i)). b < (256 :: nat)" by auto
  show ?thesis
    unfolding Cursor_Encode_def EncodeToString_def set_map [of b64_char]
    using b64_digits_small [OF b] b64_char_safe by blast
qed

text \<open>
  A cursor survives its text form, which is safe in a URL without escaping; and text that is
  not base64 is refused before any JSON is read.
\<close>

theorem cursor_round_trip:
  assumes "json_round_trip marshal unmarshal"
  shows "DecodeCursor unmarshal (Cursor_Encode marshal i) = Inr i
    \<and> set (Cursor_Encode marshal i) \<subseteq> set url_safe
    \<and> (s \<noteq> [] \<and> DecodeString s = None \<longrightarrow> DecodeCursor u s = Inl (NewError ''invalid cursor encoding''))"
  using DecodeCursor_Encode [OF assms] Cursor_Encode_safe by (simp add: DecodeCursor_def)

theorem cursor_round_trip_witness:
  "DecodeCursor (\<lambda>s. Some (length s - 1)) (Cursor_Encode (\<lambda>i. replicate (Suc i) (CHR ''x'')) 3) = Inr 3
    \<and> DecodeCursor (\<lambda>s. Some (length s - 1)) ''!!'' = Inl (NewError ''invalid cursor encoding'')"
proof -
  have j: "json_round_trip (\<lambda>i. replicate (Suc i) (CHR ''x'')) (\<lambda>s. Some (length s - 1))"
    by (simp add: json_round_trip_def)
  have d: "DecodeString ''!!'' = None" by code_simp
  show ?thesis
    using cursor_round_trip [OF j, where i = 3 and s = "''!!''" and u = "\<lambda>s. Some (length s - 1)"] d by simp
qed

end
