(* ===== verification/Repository.thy ===== *)
theory Repository
  imports Middleware Pagination
begin

text \<open>
  The contract between the services and the repositories of internal/user and internal/role: a
  store of documents with a key (the email, the name) that both services keep unique by asking
  before they insert. \<open>keys\<close> is what the store has accepted so far; \<open>sound\<close> says of a
  history that its counts were right.
\<close>

definition check_then_create ::
  "('h \<Rightarrow> 'k \<Rightarrow> (go_error + bool) \<times> 'h) \<Rightarrow> ('h \<Rightarrow> 'd \<Rightarrow> (go_error + 'd) \<times> 'h) \<Rightarrow> go_error
     \<Rightarrow> ('h \<Rightarrow> 'd) \<Rightarrow> 'h \<Rightarrow> 'k \<Rightarrow> (go_error + 'd) \<times> 'h" where
  "check_then_create exists_key create dup doc h k =
     (case exists_key h k of
        (Inl e, h) \<Rightarrow> (Inl e, h)
      | (Inr True, h) \<Rightarrow> (Inl dup, h)
      | (Inr False, h) \<Rightarrow> create h (doc h))"

locale keyed_store =
  fixes exists_key :: "'h \<Rightarrow> 'k \<Rightarrow> (go_error + bool) \<times> 'h"
    and create :: "'h \<Rightarrow> 'd \<Rightarrow> (go_error + 'd) \<times> 'h"
    and key :: "'d \<Rightarrow> 'k"
    and keys :: "'h \<Rightarrow> 'k list"
    and sound :: "'h \<Rightarrow> bool"
  assumes exists_keys: "exists_key h k = (r, h') \<Longrightarrow> keys h' = keys h"
    and exists_answer: "exists_key h k = (Inr b, h') \<Longrightarrow> sound h' \<Longrightarrow> b \<longleftrightarrow> k \<in> set (keys h)"
    and create_done: "create h d = (Inr d', h') \<Longrightarrow> keys h' = keys h @ [key d] \<and> key d' = key d"
    and create_failed: "create h d = (Inl e, h') \<Longrightarrow> keys h' = keys h"
    and create_sound: "create h d = (q, h') \<Longrightarrow> sound h' \<Longrightarrow> sound h"
begin

lemma checked_create_keys:
  assumes "check_then_create exists_key create dup doc h k = (r, h')"
    and "sound h'" and "\<And>h. key (doc h) = k"
  shows "(\<exists>d. r = Inr d \<and> key d = k \<and> k \<notin> set (keys h) \<and> keys h' = keys h @ [k])
       \<or> (\<exists>e. r = Inl e \<and> keys h' = keys h)"
proof -
  obtain q h1 where q: "exists_key h k = (q, h1)" by fastforce
  then have k1: "keys h1 = keys h" by (rule exists_keys)
  show ?thesis
  proof (cases q)
    case (Inl e)
    then show ?thesis using assms(1) q k1 by (auto simp: check_then_create_def)
  next
    case (Inr b)
    show ?thesis
    proof (cases b)
      case True
      then show ?thesis using assms(1) q Inr k1 by (auto simp: check_then_create_def)
    next
      case False
      then have c: "create h1 (doc h1) = (r, h')" using assms(1) q Inr by (simp add: check_then_create_def)
      have "sound h1" using create_sound [OF c assms(2)] .
      with exists_answer [of h k b h1] q Inr False have "k \<notin> set (keys h)" by simp
      then show ?thesis using create_done [of h1 "doc h1"] create_failed [of h1 "doc h1"] c k1 assms(3)
        by (cases r) auto
    qed
  qed
qed

lemma checked_create_distinct:
  assumes "check_then_create exists_key create dup doc h k = (r, h')"
    and "sound h'" and "\<And>h. key (doc h) = k" and "distinct (keys h)"
  shows "distinct (keys h')"
  using checked_create_keys [OF assms(1-3)] assms(4) by auto

lemma checked_create_duplicate:
  assumes "exists_key h k = (Inr b, h1)" and "sound h1" and "k \<in> set (keys h)"
  shows "check_then_create exists_key create dup doc h k = (Inl dup, h1)"
  using exists_answer [OF assms(1,2)] assms by (simp add: check_then_create_def)

end

end
