(* ===== verification/User.thy ===== *)
theory User
  imports Repository
begin

text \<open>
  internal/user: the users collection behind its repository, the service, the HTTP handlers and
  the event handler. The Mongo driver, the clock, the uuid generator and the hexadecimal form of
  an object id are the environment; each driver call is an event of the history.
\<close>

record User =
  usr_ID :: ObjectID
  usr_UUID :: string
  usr_UserName :: string
  usr_Email :: string
  usr_IsActive :: bool
  usr_RoleIDs :: "ObjectID list"
  usr_CreatedAt :: int
  usr_UpdatedAt :: int

record RegisterRequest =
  reg_Email :: string
  reg_UserName :: string
  reg_Purpose :: string

record UserResponse =
  ur_ID :: string
  ur_Email :: string
  ur_UserName :: string

text \<open>\<open>Page[UserResponse]\<close>.\<close>

record user_Page =
  pg_Items :: "UserResponse list"
  pg_NextCursor :: string
  pg_HasMore :: bool

datatype user_event =
    UserFound string "go_error + User"
  | UsersCounted string "go_error + int"
  | UserInserted User "go_error + ObjectID option"
  | UsersListed "ObjectID option" int "go_error + User list"
  | UserEventLogged string int string

type_synonym user_history = "user_event list"

text \<open>
  \<open>FindOne\<close> with \<open>Decode\<close>, \<open>CountDocuments\<close>, \<open>InsertOne\<close> (None: the id it assigned is not an
  object id), and \<open>Find\<close> with \<open>All\<close>, given the \<open>$gt\<close> bound of the filter, if any, and the limit; it
  sorts by \<open>_id\<close>. Then the clock, \<open>uuid.New\<close>, \<open>ObjectID.Hex\<close> and the JSON form of cursors.
\<close>

record user_env =
  find_one :: "user_history \<Rightarrow> string \<Rightarrow> go_error + User"
  count_documents :: "user_history \<Rightarrow> string \<Rightarrow> go_error + int"
  insert_one :: "user_history \<Rightarrow> User \<Rightarrow> go_error + ObjectID option"
  find_after :: "user_history \<Rightarrow> ObjectID option \<Rightarrow> int \<Rightarrow> go_error + User list"
  user_now :: "user_history \<Rightarrow> int"
  user_uuid :: "user_history \<Rightarrow> string"
  hex :: "ObjectID \<Rightarrow> string"
  marshal_cursor :: "ObjectID \<Rightarrow> string"
  unmarshal_cursor :: "string \<Rightarrow> ObjectID option"

section \<open>The repository\<close>

definition userRepository_FindByEmail :: "user_env \<Rightarrow> user_history \<Rightarrow> string \<Rightarrow> (go_error + User) \<times> user_history" where
  "userRepository_FindByEmail env h email =
     (let r = find_one env h email; h' = h @ [UserFound email r]
      in case r of
           Inl err \<Rightarrow> if errors_is err ErrNoDocuments then (Inl (Sentinel ErrUserNotFound), h') else (Inl err, h')
         | Inr u \<Rightarrow> (Inr u, h'))"

definition userRepository_ExistsByEmail :: "user_env \<Rightarrow> user_history \<Rightarrow> string \<Rightarrow> (go_error + bool) \<times> user_history" where
  "userRepository_ExistsByEmail env h email =
     (let r = count_documents env h email; h' = h @ [UsersCounted email r]
      in case r of Inl err \<Rightarrow> (Inl err, h') | Inr count \<Rightarrow> (Inr (count > 0), h'))"

text \<open>\<open>Create\<close> writes through its pointer: the user it returns is the one it leaves there.\<close>

definition userRepository_Create :: "user_env \<Rightarrow> user_history \<Rightarrow> User \<Rightarrow> (go_error + User) \<times> user_history" where
  "userRepository_Create env h u =
     (let now = user_now env h;
          u = u\<lparr>usr_CreatedAt := now, usr_UpdatedAt := now\<rparr>;
          r = insert_one env h u;
          h' = h @ [UserInserted u r]
      in case r of
           Inl err \<Rightarrow> (Inl err, h')
         | Inr None \<Rightarrow> (Inr u, h')
         | Inr (Some oid) \<Rightarrow> (Inr (u\<lparr>usr_ID := oid\<rparr>), h'))"

definition userRepository_List ::
  "user_env \<Rightarrow> user_history \<Rightarrow> ObjectID \<Rightarrow> int \<Rightarrow> (go_error + User list) \<times> user_history" where
  "userRepository_List env h cur limit =
     (let after = (if cur = 0 then None else Some cur);
          r = find_after env h after (limit + 1)
      in (r, h @ [UsersListed after (limit + 1) r]))"

section \<open>The service\<close>

definition new_user :: "user_env \<Rightarrow> RegisterRequest \<Rightarrow> user_history \<Rightarrow> User" where
  "new_user env req h =
     \<lparr>usr_ID = 0, usr_UUID = user_uuid env h, usr_UserName = reg_UserName req, usr_Email = reg_Email req,
      usr_IsActive = True, usr_RoleIDs = [], usr_CreatedAt = zero_time, usr_UpdatedAt = zero_time\<rparr>"

definition userService_Register ::
  "user_env \<Rightarrow> user_history \<Rightarrow> RegisterRequest \<Rightarrow> (go_error + User) \<times> user_history" where
  "userService_Register env h req =
     (case userRepository_ExistsByEmail env h (reg_Email req) of
        (Inl err, h) \<Rightarrow> (Inl err, h)
      | (Inr exists, h) \<Rightarrow>
          if exists then (Inl (Sentinel ErrUserAlreadyExists), h)
          else userRepository_Create env h (new_user env req h))"

definition userResponse :: "user_env \<Rightarrow> User \<Rightarrow> UserResponse" where
  "userResponse env u = \<lparr>ur_ID = hex env (usr_ID u), ur_Email = usr_Email u, ur_UserName = usr_UserName u\<rparr>"

definition user_page :: "user_env \<Rightarrow> int \<Rightarrow> User list \<Rightarrow> user_Page" where
  "user_page env limit users =
     (let hasMore = (int (length users) > limit);
          users = (if hasMore then take (nat limit) users else users)
      in \<lparr>pg_Items = map (userResponse env) users,
          pg_NextCursor = (if hasMore \<and> users \<noteq> [] then Cursor_Encode (marshal_cursor env) (usr_ID (last users)) else []),
          pg_HasMore = hasMore\<rparr>)"

definition userService_List ::
  "user_env \<Rightarrow> user_history \<Rightarrow> string \<Rightarrow> int \<Rightarrow> (go_error + user_Page) \<times> user_history" where
  "userService_List env h cursor limit =
     (case DecodeCursor (unmarshal_cursor env) cursor of
        Inl err \<Rightarrow> (Inl err, h)
      | Inr cur \<Rightarrow>
          (let limit = ClampLimit limit
           in case userRepository_List env h cur limit of
                (Inl err, h) \<Rightarrow> (Inl err, h)
              | (Inr users, h) \<Rightarrow> (Inr (user_page env limit users), h)))"

section \<open>The handlers\<close>

text \<open>\<open>bind\<close> is gin's \<open>ShouldBindJSON\<close> with the validation tags, \<open>query\<close> its \<open>c.Query\<close>.\<close>

definition RegisterResponse :: "user_env \<Rightarrow> User \<Rightarrow> json" where
  "RegisterResponse env u = JObject [(''id'', JString (hex env (usr_ID u))), (''email'', JString (usr_Email u))]"

definition UserHandler_Register ::
  "user_env \<Rightarrow> (gin_ctx \<Rightarrow> go_error + RegisterRequest) \<Rightarrow> user_history \<Rightarrow> gin_ctx \<Rightarrow> gin_ctx \<times> user_history" where
  "UserHandler_Register env bind h c =
     (case bind c of
        Inl err \<Rightarrow> (httperror_BadRequest err c, h)
      | Inr req \<Rightarrow>
         (case userService_Register env h req of
            (Inl err, h) \<Rightarrow>
              (if errors_is err ErrUserAlreadyExists then httperror_Conflict err c else httperror_Internal err c, h)
          | (Inr u, h) \<Rightarrow> (emit [WriteJSON 201 (RegisterResponse env u)] c, h)))"

definition page_json :: "user_Page \<Rightarrow> json" where
  "page_json p =
     JObject ([(''items'', JArray (map (\<lambda>r. JObject [(''id'', JString (ur_ID r)), (''email'', JString (ur_Email r)),
                                                   (''user_name'', JString (ur_UserName r))]) (pg_Items p)))]
       @ (if pg_NextCursor p \<noteq> [] then [(''next_cursor'', JString (pg_NextCursor p))] else [])
       @ [(''has_more'', JBool (pg_HasMore p))])"

text \<open>
  \<open>strconv.Atoi\<close> with its error ignored: 0 if the text is no number, the nearest bound if the
  number is out of range. The digits are read as an unsigned 64-bit number, which stops at the
  first overflow.
\<close>

fun scan_uint :: "string \<Rightarrow> int \<Rightarrow> int option" where
  "scan_uint [] n = Some n"
| "scan_uint (c # s) n =
     (case digit_value c of
        None \<Rightarrow> None
      | Some d \<Rightarrow> if n * 10 + int d \<ge> 2 ^ 64 then Some (2 ^ 64 - 1) else scan_uint s (n * 10 + int d))"

definition atoi_value :: "string \<Rightarrow> int" where
  "atoi_value s =
     (let neg = (take 1 s = ''-'');
          ds = (if neg \<or> take 1 s = ''+'' then drop 1 s else s)
      in if ds = [] then 0
         else case scan_uint ds 0 of
                None \<Rightarrow> 0
              | Some n \<Rightarrow>
                  if \<not> neg \<and> n \<ge> 2 ^ 63 then 2 ^ 63 - 1 else if neg \<and> n > 2 ^ 63 then - (2 ^ 63)
                  else if neg then - n else n)"

definition UserHandler_List ::
  "user_env \<Rightarrow> (gin_ctx \<Rightarrow> string \<Rightarrow> string) \<Rightarrow> user_history \<Rightarrow> gin_ctx \<Rightarrow> gin_ctx \<times> user_history" where
  "UserHandler_List env query h c =
     (let cursor = query c ''cursor''; limit = atoi_value (query c ''limit'')
      in case userService_List env h cursor limit of
           (Inl err, h) \<Rightarrow> (httperror_BadRequest err c, h)
         | (Inr page, h) \<Rightarrow> (emit [WriteJSON 200 (page_json page)] c, h))"

definition EventHandler_Handle :: "user_history \<Rightarrow> string \<Rightarrow> int \<Rightarrow> string \<Rightarrow> go_error option \<times> user_history" where
  "EventHandler_Handle h topic offset payload = (None, h @ [UserEventLogged topic offset payload])"

end
