(* ===== verification/UserCorrect.thy ===== *)
theory UserCorrect
  imports User
begin

text \<open>
  What internal/user guarantees: no email is registered twice, and walking the pages of the user
  list meets every user once, in the order of their ids.
\<close>

section \<open>Unique emails\<close>

text \<open>The emails of the users inserted so far; the counts of a history that agree with them.\<close>

fun inserted_email :: "user_event \<Rightarrow> string list" where
  "inserted_email (UserInserted u (Inr i)) = [usr_Email u]"
| "inserted_email e = []"

definition user_emails :: "user_history \<Rightarrow> string list" where
  "user_emails h = concat (map inserted_email h)"

fun counts_sound :: "string list \<Rightarrow> user_history \<Rightarrow> bool" where
  "counts_sound es [] = True"
| "counts_sound es (UsersCounted e (Inr n) # h) = (n = int (count_list es e) \<and> counts_sound es h)"
| "counts_sound es (x # h) = counts_sound (es @ inserted_email x) h"

lemma user_emails_append [simp]: "user_emails (h @ h') = user_emails h @ user_emails h'"
  by (simp add: user_emails_def)

lemma user_emails_simps [simp]:
  "user_emails [] = []" "user_emails [UsersCounted e r] = []" "user_emails [UserInserted u (Inl x)] = []"
  "user_emails [UserInserted u (Inr i)] = [usr_Email u]"
  by (simp_all add: user_emails_def)

lemma counts_sound_append:
  "counts_sound es (h @ h') \<longleftrightarrow> counts_sound es h \<and> counts_sound (es @ user_emails h) h'"
proof (induction es h rule: counts_sound.induct)
  case (2 es e n h)
  then show ?case by (simp add: user_emails_def)
qed (simp_all add: user_emails_def)

lemma count_list_pos: "0 < int (count_list es e) \<longleftrightarrow> e \<in> set es"
  by (induction es) auto

lemma Exists_history:
  "userRepository_ExistsByEmail env h e = (r, h') \<Longrightarrow> h' = h @ [UsersCounted e (count_documents env h e)]"
  by (auto simp: userRepository_ExistsByEmail_def Let_def split: sum.splits)

lemma Create_history:
  "userRepository_Create env h u = (r, h') \<Longrightarrow> \<exists>u' q. h' = h @ [UserInserted u' q] \<and> usr_Email u' = usr_Email u
     \<and> (\<forall>d. r = Inr d \<longrightarrow> (\<exists>i. q = Inr i) \<and> usr_Email d = usr_Email u) \<and> (\<forall>e. r = Inl e \<longrightarrow> q = Inl e)"
  by (auto simp: userRepository_Create_def Let_def split: sum.splits option.splits)

interpretation user_store: keyed_store "userRepository_ExistsByEmail env" "userRepository_Create env"
  usr_Email user_emails "counts_sound []" for env
proof unfold_locales
  fix h k r h' assume "userRepository_ExistsByEmail env h k = (r, h')"
  then show "user_emails h' = user_emails h" by (auto dest!: Exists_history)
next
  fix h k b h' assume a: "userRepository_ExistsByEmail env h k = (Inr b, h')" and s: "counts_sound [] h'"
  then obtain n where n: "count_documents env h k = Inr n" "b = (n > 0)"
    by (auto simp: userRepository_ExistsByEmail_def Let_def split: sum.splits)
  with s Exists_history [OF a] have "n = int (count_list (user_emails h) k)" by (simp add: counts_sound_append)
  with n count_list_pos show "b \<longleftrightarrow> k \<in> set (user_emails h)" by metis
next
  fix h d d' h' assume "userRepository_Create env h d = (Inr d', h')"
  then show "user_emails h' = user_emails h @ [usr_Email d] \<and> usr_Email d' = usr_Email d"
    by (auto dest!: Create_history)
next
  fix h d e h' assume "userRepository_Create env h d = (Inl e, h')"
  then show "user_emails h' = user_emails h" by (auto dest!: Create_history)
next
  fix h d q h' assume "userRepository_Create env h d = (q, h')" "counts_sound [] h'"
  then show "counts_sound [] h" by (auto dest!: Create_history simp: counts_sound_append)
qed

lemma Register_check_then_create:
  "userService_Register env h req =
     check_then_create (userRepository_ExistsByEmail env) (userRepository_Create env) (Sentinel ErrUserAlreadyExists)
       (new_user env req) h (reg_Email req)"
  by (auto simp: userService_Register_def check_then_create_def split: prod.splits sum.splits bool.splits)

lemma Register_keys:
  assumes "userService_Register env h req = (r, h')" and "counts_sound [] h'"
  shows "(\<exists>u. r = Inr u \<and> usr_Email u = reg_Email req \<and> reg_Email req \<notin> set (user_emails h)
           \<and> user_emails h' = user_emails h @ [reg_Email req])
       \<or> (\<exists>e. r = Inl e \<and> user_emails h' = user_emails h)"
  using user_store.checked_create_keys [of env "Sentinel ErrUserAlreadyExists" "new_user env req" h "reg_Email req" r h'] assms
  by (simp add: Register_check_then_create new_user_def)

text \<open>Registrations one after the other, with what each returned.\<close>

fun user_registrations ::
  "user_env \<Rightarrow> user_history \<Rightarrow> RegisterRequest list \<Rightarrow> (go_error + User) list \<times> user_history" where
  "user_registrations env h [] = ([], h)"
| "user_registrations env h (req # reqs) =
     (let (r, h) = userService_Register env h req; (rs, h) = user_registrations env h reqs in (r # rs, h))"

fun accepted :: "RegisterRequest list \<Rightarrow> (go_error + User) list \<Rightarrow> string list" where
  "accepted (req # reqs) (Inr u # rs) = reg_Email req # accepted reqs rs"
| "accepted (req # reqs) (Inl e # rs) = accepted reqs rs"
| "accepted reqs rs = []"

lemma Register_sound:
  assumes "userService_Register env h req = (r, h')" and "counts_sound [] h'"
  shows "counts_sound [] h"
  using assms
  by (auto simp: userService_Register_def counts_sound_append split: prod.splits sum.splits if_splits
      dest!: Exists_history Create_history)

lemma registrations_sound:
  "user_registrations env h reqs = (rs, h') \<Longrightarrow> counts_sound [] h' \<Longrightarrow> counts_sound [] h"
proof (induction reqs arbitrary: h rs)
  case (Cons req reqs)
  then show ?case using Register_sound by (fastforce simp: Let_def split: prod.splits)
qed simp

lemma registrations_emails:
  assumes "user_registrations env h reqs = (rs, h')" and "counts_sound [] h'" and "distinct (user_emails h)"
  shows "user_emails h' = user_emails h @ accepted reqs rs \<and> distinct (user_emails h') \<and> length rs = length reqs"
  using assms
proof (induction reqs arbitrary: h rs)
  case (Cons req reqs)
  obtain r h1 where r: "userService_Register env h req = (r, h1)" by fastforce
  obtain rs' where rs: "user_registrations env h1 reqs = (rs', h')" "rs = r # rs'"
    using Cons.prems(1) r by (auto simp: Let_def split: prod.splits)
  have "counts_sound [] h1" using registrations_sound [OF rs(1) Cons.prems(2)] .
  from Register_keys [OF r this] have e: "distinct (user_emails h1)"
    "user_emails h1 = user_emails h @ accepted [req] [r]"
    using Cons.prems(3) by auto
  show ?case using Cons.IH [OF rs(1) Cons.prems(2) e(1)] e(2) rs(2) by (cases r) auto
qed simp

lemma accepted_split:
  assumes "i < length reqs" "length rs = length reqs"
  shows "accepted reqs rs = accepted (take i reqs) (take i rs) @ accepted (drop i reqs) (drop i rs)"
  using assms
proof (induction i arbitrary: reqs rs)
  case (Suc i)
  then obtain q qs r rs' where "reqs = q # qs" "rs = r # rs'" by (metis length_0_conv list.exhaust not_less0)
  with Suc show ?case by (cases r) auto
qed simp

lemma accepted_mem:
  "i < length reqs \<Longrightarrow> length rs = length reqs \<Longrightarrow> rs ! i = Inr u \<Longrightarrow> reg_Email (reqs ! i) \<in> set (accepted reqs rs)"
proof (induction i arbitrary: reqs rs)
  case 0
  then show ?case by (cases reqs; cases rs) auto
next
  case (Suc i)
  then obtain q qs r rs' where "reqs = q # qs" "rs = r # rs'" by (metis length_0_conv list.exhaust not_less0)
  with Suc show ?case by (cases r) auto
qed

text \<open>
  C20: however many registrations run one after the other, no email is ever stored twice, each
  accepted registration stores exactly its own email, and a second registration of an email that
  was accepted before is refused.
\<close>

theorem user_register_unique:
  assumes "user_registrations env [] reqs = (rs, h')" and "counts_sound [] h'"
  shows "distinct (user_emails h') \<and> user_emails h' = accepted reqs rs
    \<and> (\<forall>i j u. i < j \<and> j < length reqs \<and> rs ! i = Inr u \<and> reg_Email (reqs ! j) = reg_Email (reqs ! i)
          \<longrightarrow> (\<exists>e. rs ! j = Inl e))"
proof -
  from registrations_emails [OF assms] have e: "user_emails h' = accepted reqs rs" "distinct (accepted reqs rs)"
    "length rs = length reqs" by auto
  have "\<exists>e. rs ! j = Inl e"
    if a: "i < j" "j < length reqs" "rs ! i = Inr u" "reg_Email (reqs ! j) = reg_Email (reqs ! i)" for i j u
  proof (cases "rs ! j")
    case (Inr v)
    let ?x = "reg_Email (reqs ! i)"
    have "?x \<in> set (accepted (take j reqs) (take j rs))"
      using accepted_mem [of i "take j reqs" "take j rs" u] a e(3) by simp
    moreover have "?x \<in> set (accepted (drop j reqs) (drop j rs))"
      using accepted_mem [of 0 "drop j reqs" "drop j rs" v] a e(3) Inr by simp
    ultimately have False using e(2) accepted_split [OF a(2) e(3)] by auto
    then show ?thesis ..
  qed simp
  with e show ?thesis by auto
qed

text \<open>
  Run at the same time, the check of one registration does not see the insert of the other. The
  unique index then refuses the second insert, and its caller gets the driver's error: status 500.
\<close>

lemma user_register_race:
  assumes "userRepository_ExistsByEmail env h e = (Inr False, h1)"
    and "\<And>h u. usr_Email u \<in> set (user_emails h) \<Longrightarrow> insert_one env h u = Inl dup"
    and "e \<in> set (user_emails (h1 @ mid))" and "usr_Email u = e"
  shows "fst (userRepository_Create env (h1 @ mid) u) = Inl dup"
  using assms by (simp add: userRepository_Create_def Let_def)

section \<open>Pages\<close>

text \<open>A collection that does not change, in the order of its ids; none of them is the zero id.\<close>

definition user_collection :: "user_env \<Rightarrow> User list \<Rightarrow> bool" where
  "user_collection env us \<longleftrightarrow>
     sorted_wrt (<) (map usr_ID us) \<and> (\<forall>u \<in> set us. 0 < usr_ID u)
     \<and> (\<forall>h after n. 0 < n \<longrightarrow>
          find_after env h after n =
            Inr (take (nat n) (filter (\<lambda>u. case after of None \<Rightarrow> True | Some i \<Rightarrow> i < usr_ID u) us)))"

text \<open>A client that follows the cursors, page after page; None is an error or no fuel left.\<close>

fun user_walk :: "user_env \<Rightarrow> int \<Rightarrow> nat \<Rightarrow> user_history \<Rightarrow> string \<Rightarrow> UserResponse list list option" where
  "user_walk env limit 0 h cursor = None"
| "user_walk env limit (Suc n) h cursor =
     (case userService_List env h cursor limit of
        (Inl e, h) \<Rightarrow> None
      | (Inr p, h) \<Rightarrow>
          if pg_HasMore p then map_option (\<lambda>ps. pg_Items p # ps) (user_walk env limit n h (pg_NextCursor p))
          else Some [pg_Items p])"

lemma sorted_last: "sorted_wrt (<) ys \<Longrightarrow> y \<in> set ys \<Longrightarrow> (y :: nat) \<le> last ys"
  by (induction ys) (auto dest: less_imp_le)

lemma sorted_after:
  assumes "sorted_wrt (<) (map f xs)" and "0 < k" and "k \<le> length xs"
  shows "filter (\<lambda>x. f (last (take k xs)) < (f x :: nat)) xs = drop k xs"
proof -
  let ?a = "take k xs" and ?b = "drop k xs"
  have "sorted_wrt (<) (map f ?a @ map f ?b)" using assms(1) by (simp flip: map_append)
  then have ab: "\<forall>x \<in> set ?a. \<forall>y \<in> set ?b. f x < f y" and a: "sorted_wrt (<) (map f ?a)"
    by (auto simp: sorted_wrt_append)
  have ne: "?a \<noteq> []" using assms by auto
  then have "last ?a \<in> set ?a" by simp
  with ab have "filter (\<lambda>x. f (last ?a) < f x) ?b = ?b" by (simp add: filter_id_conv)
  moreover have "filter (\<lambda>x. f (last ?a) < f x) ?a = []"
  proof -
    have "f x \<le> f (last ?a)" if "x \<in> set ?a" for x
      using sorted_last [OF a, of "f x"] that ne by (simp add: last_map)
    then have "\<not> f (last ?a) < f x" if "x \<in> set ?a" for x using that by (simp add: not_less)
    then show ?thesis by (simp add: filter_empty_conv)
  qed
  moreover have "filter (\<lambda>x. f (last ?a) < f x) (?a @ ?b) =
      filter (\<lambda>x. f (last ?a) < f x) ?a @ filter (\<lambda>x. f (last ?a) < f x) ?b" by (rule filter_append)
  ultimately show ?thesis by simp
qed

text \<open>What is left of the collection after an id.\<close>

abbreviation users_after :: "User list \<Rightarrow> ObjectID \<Rightarrow> User list" where
  "users_after us i \<equiv> filter (\<lambda>u. i < usr_ID u) us"

lemma users_after_next:
  assumes "user_collection env us" and "0 < k" and "k \<le> length (users_after us i)"
  shows "users_after us (usr_ID (last (take k (users_after us i)))) = drop k (users_after us i)"
proof -
  let ?r = "users_after us i"
  let ?j = "usr_ID (last (take k ?r))"
  have s: "sorted_wrt (<) (map usr_ID ?r)"
    using assms(1) by (simp add: user_collection_def sorted_wrt_map sorted_wrt_filter)
  have "take k ?r \<noteq> []" using assms(2,3) by auto
  then have "last (take k ?r) \<in> set ?r" by (meson last_in_set in_set_takeD)
  then have "i < ?j" by simp
  then have "users_after us ?j = filter (\<lambda>u. ?j < usr_ID u) ?r"
    by (simp add: filter_filter) (rule filter_cong, auto)
  then show ?thesis using sorted_after [OF s assms(2,3)] by simp
qed

lemma List_page:
  assumes "user_collection env us" and "DecodeCursor (unmarshal_cursor env) cursor = Inr i"
  shows "\<exists>h'. userService_List env h cursor limit =
    (Inr (user_page env (ClampLimit limit) (take (nat (ClampLimit limit + 1)) (users_after us i))), h')"
proof -
  have pos: "0 < ClampLimit limit + 1" using ClampLimit_range [of limit] by linarith
  have "i = 0 \<Longrightarrow> users_after us i = us" using assms(1) by (simp add: user_collection_def filter_id_conv)
  then have "find_after env h (if i = 0 then None else Some i) (ClampLimit limit + 1) =
      Inr (take (nat (ClampLimit limit + 1)) (users_after us i))"
    using assms(1) pos by (auto simp: user_collection_def)
  then show ?thesis
    using assms(2) by (simp add: userService_List_def userRepository_List_def Let_def)
qed

lemma user_walk_from:
  assumes "user_collection env us" and "json_round_trip (marshal_cursor env) (unmarshal_cursor env)"
    and "DecodeCursor (unmarshal_cursor env) cursor = Inr i" and "length (users_after us i) < n"
  shows "\<exists>ps. user_walk env limit n h cursor = Some ps \<and> ps \<noteq> [] \<and> concat ps = map (userResponse env) (users_after us i)
    \<and> (\<forall>p \<in> set (butlast ps). int (length p) = ClampLimit limit) \<and> int (length (last ps)) \<le> ClampLimit limit"
  using assms(3,4)
proof (induction n arbitrary: h cursor i)
  case (Suc n)
  let ?r = "users_after us i" and ?L = "ClampLimit limit"
  have L: "1 \<le> ?L" using ClampLimit_range by simp
  obtain h' where p: "userService_List env h cursor limit = (Inr (user_page env ?L (take (nat (?L + 1)) ?r)), h')"
    using List_page [OF assms(1) Suc.prems(1)] by blast
  show ?case
  proof (cases "int (length ?r) \<le> ?L")
    case True
    then have "take (nat (?L + 1)) ?r = ?r" by simp
    then show ?thesis using p True by (simp add: user_page_def Let_def)
  next
    case False
    then have more: "int (length (take (nat (?L + 1)) ?r)) > ?L" using L by simp
    let ?k = "nat ?L"
    have k: "0 < ?k" "?k \<le> length ?r" using L False by auto
    have t: "take ?k (take (nat (?L + 1)) ?r) = take ?k ?r" by (simp add: min_def)
    have ne: "take ?k ?r \<noteq> []" using k by auto
    let ?j = "usr_ID (last (take ?k ?r))"
    have page: "user_page env ?L (take (nat (?L + 1)) ?r) =
        \<lparr>pg_Items = map (userResponse env) (take ?k ?r), pg_NextCursor = Cursor_Encode (marshal_cursor env) ?j, pg_HasMore = True\<rparr>"
      using more ne by (simp add: user_page_def Let_def t)
    have after: "users_after us ?j = drop ?k ?r" by (rule users_after_next [OF assms(1) k])
    have "length (users_after us ?j) < n" using Suc.prems(2) k unfolding after by simp
    from Suc.IH [OF DecodeCursor_Encode [OF assms(2)] this, of h'] obtain ps where
      ps: "user_walk env limit n h' (Cursor_Encode (marshal_cursor env) ?j) = Some ps" "ps \<noteq> []"
        "concat ps = map (userResponse env) (drop ?k ?r)"
        "\<forall>q \<in> set (butlast ps). int (length q) = ?L" "int (length (last ps)) \<le> ?L"
      unfolding after by blast
    have "user_walk env limit (Suc n) h cursor = Some (map (userResponse env) (take ?k ?r) # ps)"
      using p ps(1) by (simp add: page)
    moreover have "concat (map (userResponse env) (take ?k ?r) # ps) = map (userResponse env) ?r"
      using ps(3) by (simp flip: map_append)
    moreover have "int (length (map (userResponse env) (take ?k ?r))) = ?L" using k L by simp
    ultimately show ?thesis using ps(2,4,5) by (intro exI [of _ "map (userResponse env) (take ?k ?r) # ps"]) simp
  qed
qed simp

text \<open>
  C21: over a collection that does not change, a client that follows the cursors from the first
  page gets every user exactly once, in the order of the ids, and stops after at most one page
  per user and one more; every page but the last is full.
\<close>

theorem user_pages_complete:
  assumes "user_collection env us" and "json_round_trip (marshal_cursor env) (unmarshal_cursor env)"
  shows "\<exists>pages. user_walk env limit (Suc (length us)) h [] = Some pages
    \<and> concat pages = map (userResponse env) us
    \<and> (\<forall>p \<in> set (butlast pages). int (length p) = ClampLimit limit) \<and> int (length (last pages)) \<le> ClampLimit limit"
proof -
  have d: "DecodeCursor (unmarshal_cursor env) [] = Inr 0" by (simp add: DecodeCursor_def)
  have a: "users_after us 0 = us" using assms(1) by (simp add: user_collection_def filter_id_conv)
  have "length (users_after us 0) < Suc (length us)" by (simp add: a)
  from user_walk_from [OF assms d this, of limit h] show ?thesis unfolding a by blast
qed

section \<open>Witnesses\<close>

definition sample_user :: "nat \<Rightarrow> User" where
  "sample_user i = \<lparr>usr_ID = i, usr_UUID = [], usr_UserName = ''u'', usr_Email = ''e'', usr_IsActive = True,
     usr_RoleIDs = [], usr_CreatedAt = 0, usr_UpdatedAt = 0\<rparr>"

definition sample_users :: "User list" where
  "sample_users = map sample_user [1, 2, 5]"

definition sample_user_env :: user_env where
  "sample_user_env =
     \<lparr>find_one = \<lambda>h e. Inl (Sentinel ErrNoDocuments),
      count_documents = \<lambda>h e. Inr (int (count_list (user_emails h) e)),
      insert_one = \<lambda>h u. Inr (Some (Suc (length h))),
      find_after = \<lambda>h after n.
        Inr (take (nat n) (filter (\<lambda>u. case after of None \<Rightarrow> True | Some i \<Rightarrow> i < usr_ID u) sample_users)),
      user_now = \<lambda>h. 0, user_uuid = \<lambda>h. ''id'', hex = \<lambda>i. replicate i CHR ''f'',
      marshal_cursor = \<lambda>i. replicate (Suc i) CHR ''x'', unmarshal_cursor = \<lambda>s. Some (length s - 1)\<rparr>"

theorem user_pages_complete_witness:
  "\<exists>pages. user_walk sample_user_env 2 4 [] [] = Some pages
     \<and> concat pages = map (userResponse sample_user_env) sample_users"
proof -
  have c: "user_collection sample_user_env sample_users"
    by (simp add: user_collection_def sample_user_env_def sample_users_def sample_user_def)
  have j: "json_round_trip (marshal_cursor sample_user_env) (unmarshal_cursor sample_user_env)"
    by (simp add: json_round_trip_def sample_user_env_def)
  have "length sample_users = 3" by (simp add: sample_users_def)
  then show ?thesis using user_pages_complete [OF c j, of 2 "[]"] by (auto simp: eval_nat_numeral)
qed

theorem user_register_unique_witness:
  "let req = \<lparr>reg_Email = ''a'', reg_UserName = ''abc'', reg_Purpose = ''p''\<rparr>;
       (rs, h) = user_registrations sample_user_env [] [req, req]
   in (\<exists>e. rs ! 1 = Inl e) \<and> user_emails h = [''a'']"
proof -
  let ?r = "\<lparr>reg_Email = ''a'', reg_UserName = ''abc'', reg_Purpose = ''p''\<rparr>"
  let ?p = "user_registrations sample_user_env [] [?r, ?r]"
  have "counts_sound [] (snd ?p) \<and> (\<exists>u. fst ?p ! 0 = Inr u) \<and> user_emails (snd ?p) = [''a'']"
    by (simp add: userService_Register_def userRepository_ExistsByEmail_def userRepository_Create_def
        sample_user_env_def new_user_def Let_def user_emails_def)
  moreover obtain rs h where e: "?p = (rs, h)" by fastforce
  ultimately have s: "counts_sound [] h" "\<exists>u. rs ! 0 = Inr u" "user_emails h = [''a'']" by simp_all
  from user_register_unique [OF e s(1)] s(2) have "\<exists>e. rs ! 1 = Inl e" by fastforce
  with s(3) show ?thesis unfolding Let_def e by simp
qed

end
