(* ===== verification/Role.thy ===== *)
theory Role
  imports Repository
begin

text \<open>
  internal/role: the roles collection behind its repository, the service, the handlers and what
  they guarantee. The Mongo driver and the clock are the environment; each driver call is an event.
\<close>

record Role =
  role_ID :: ObjectID
  role_Name :: string
  role_Description :: string
  role_CreatedAt :: int
  role_UpdatedAt :: int

record CreateRoleRequest =
  cr_Name :: string
  cr_Description :: string

datatype role_event =
    RoleFoundByID ObjectID "go_error + Role"
  | RoleFoundByName string "go_error + Role"
  | RolesCounted string "go_error + int"
  | RoleInserted Role "go_error + ObjectID option"
  | RolesListed "go_error + Role list"

type_synonym role_history = "role_event list"

record role_env =
  role_by_id :: "role_history \<Rightarrow> ObjectID \<Rightarrow> go_error + Role"
  role_by_name :: "role_history \<Rightarrow> string \<Rightarrow> go_error + Role"
  role_count :: "role_history \<Rightarrow> string \<Rightarrow> go_error + int"
  role_insert :: "role_history \<Rightarrow> Role \<Rightarrow> go_error + ObjectID option"
  role_find_all :: "role_history \<Rightarrow> go_error + Role list"
  role_now :: "role_history \<Rightarrow> int"
  role_hex :: "ObjectID \<Rightarrow> string"
  role_from_hex :: "string \<Rightarrow> ObjectID option"

section \<open>The repository\<close>

definition roleRepository_Create :: "role_env \<Rightarrow> role_history \<Rightarrow> Role \<Rightarrow> (go_error + Role) \<times> role_history" where
  "roleRepository_Create env h role =
     (let now = role_now env h;
          role = role\<lparr>role_CreatedAt := now, role_UpdatedAt := now\<rparr>;
          r = role_insert env h role;
          h' = h @ [RoleInserted role r]
      in case r of
           Inl err \<Rightarrow> (Inl err, h')
         | Inr None \<Rightarrow> (Inr role, h')
         | Inr (Some oid) \<Rightarrow> (Inr (role\<lparr>role_ID := oid\<rparr>), h'))"

definition role_decoded :: "go_error + Role \<Rightarrow> go_error + Role" where
  "role_decoded r =
     (case r of
        Inl err \<Rightarrow> if errors_is err ErrNoDocuments then Inl (Sentinel ErrRoleNotFound) else Inl err
      | Inr role \<Rightarrow> Inr role)"

definition roleRepository_FindByID :: "role_env \<Rightarrow> role_history \<Rightarrow> ObjectID \<Rightarrow> (go_error + Role) \<times> role_history" where
  "roleRepository_FindByID env h oid =
     (let r = role_by_id env h oid in (role_decoded r, h @ [RoleFoundByID oid r]))"

definition roleRepository_FindByName :: "role_env \<Rightarrow> role_history \<Rightarrow> string \<Rightarrow> (go_error + Role) \<times> role_history" where
  "roleRepository_FindByName env h name =
     (let r = role_by_name env h name in (role_decoded r, h @ [RoleFoundByName name r]))"

definition roleRepository_List :: "role_env \<Rightarrow> role_history \<Rightarrow> (go_error + Role list) \<times> role_history" where
  "roleRepository_List env h = (let r = role_find_all env h in (r, h @ [RolesListed r]))"

definition roleRepository_ExistsByName :: "role_env \<Rightarrow> role_history \<Rightarrow> string \<Rightarrow> (go_error + bool) \<times> role_history" where
  "roleRepository_ExistsByName env h name =
     (let r = role_count env h name; h' = h @ [RolesCounted name r]
      in case r of Inl err \<Rightarrow> (Inl err, h') | Inr count \<Rightarrow> (Inr (count > 0), h'))"

section \<open>The service\<close>

definition new_role :: "CreateRoleRequest \<Rightarrow> Role" where
  "new_role req =
     \<lparr>role_ID = 0, role_Name = cr_Name req, role_Description = cr_Description req,
      role_CreatedAt = zero_time, role_UpdatedAt = zero_time\<rparr>"

definition roleService_Create ::
  "role_env \<Rightarrow> role_history \<Rightarrow> CreateRoleRequest \<Rightarrow> (go_error + Role) \<times> role_history" where
  "roleService_Create env h req =
     (case roleRepository_ExistsByName env h (cr_Name req) of
        (Inl err, h) \<Rightarrow> (Inl err, h)
      | (Inr exists, h) \<Rightarrow>
          if exists then (Inl (Sentinel ErrRoleAlreadyExists), h) else roleRepository_Create env h (new_role req))"

definition roleService_GetByID :: "role_env \<Rightarrow> role_history \<Rightarrow> string \<Rightarrow> (go_error + Role) \<times> role_history" where
  "roleService_GetByID env h i =
     (case role_from_hex env i of
        None \<Rightarrow> (Inl (Sentinel ErrInvalidRoleID), h)
      | Some oid \<Rightarrow> roleRepository_FindByID env h oid)"

definition roleService_List :: "role_env \<Rightarrow> role_history \<Rightarrow> (go_error + Role list) \<times> role_history" where
  "roleService_List env h = roleRepository_List env h"

section \<open>The handlers\<close>

text \<open>\<open>description\<close> has \<open>omitempty\<close>. \<open>bind\<close> is \<open>ShouldBindJSON\<close> with its validation tags.\<close>

definition toResponse :: "role_env \<Rightarrow> Role \<Rightarrow> json" where
  "toResponse env r =
     JObject ([(''id'', JString (role_hex env (role_ID r))), (''name'', JString (role_Name r))]
       @ (if role_Description r \<noteq> [] then [(''description'', JString (role_Description r))] else []))"

definition RoleHandler_Create ::
  "role_env \<Rightarrow> (gin_ctx \<Rightarrow> go_error + CreateRoleRequest) \<Rightarrow> role_history \<Rightarrow> gin_ctx \<Rightarrow> gin_ctx \<times> role_history" where
  "RoleHandler_Create env bind h c =
     (case bind c of
        Inl err \<Rightarrow> (httperror_BadRequest err c, h)
      | Inr req \<Rightarrow>
         (case roleService_Create env h req of
            (Inl err, h) \<Rightarrow>
              (if errors_is err ErrRoleAlreadyExists then httperror_Conflict err c else httperror_Internal err c, h)
          | (Inr r, h) \<Rightarrow> (emit [WriteJSON 201 (toResponse env r)] c, h)))"

definition RoleHandler_GetByID ::
  "role_env \<Rightarrow> (gin_ctx \<Rightarrow> string \<Rightarrow> string) \<Rightarrow> role_history \<Rightarrow> gin_ctx \<Rightarrow> gin_ctx \<times> role_history" where
  "RoleHandler_GetByID env param h c =
     (case roleService_GetByID env h (param c ''id'') of
        (Inl err, h) \<Rightarrow>
          (if errors_is err ErrInvalidRoleID then httperror_BadRequest err c
           else if errors_is err ErrRoleNotFound then httperror_NotFound err c
           else httperror_Internal err c, h)
      | (Inr r, h) \<Rightarrow> (emit [WriteJSON 200 (toResponse env r)] c, h))"

definition RoleHandler_List :: "role_env \<Rightarrow> role_history \<Rightarrow> gin_ctx \<Rightarrow> gin_ctx \<times> role_history" where
  "RoleHandler_List env h c =
     (case roleService_List env h of
        (Inl err, h) \<Rightarrow> (httperror_Internal err c, h)
      | (Inr roles, h) \<Rightarrow> (emit [WriteJSON 200 (JArray (map (toResponse env) roles))] c, h))"

section \<open>Unique names\<close>

fun inserted_name :: "role_event \<Rightarrow> string list" where
  "inserted_name (RoleInserted r (Inr i)) = [role_Name r]"
| "inserted_name e = []"

definition role_names :: "role_history \<Rightarrow> string list" where
  "role_names h = concat (map inserted_name h)"

fun role_counts_sound :: "string list \<Rightarrow> role_history \<Rightarrow> bool" where
  "role_counts_sound ns [] = True"
| "role_counts_sound ns (RolesCounted n (Inr k) # h) = (k = int (count_list ns n) \<and> role_counts_sound ns h)"
| "role_counts_sound ns (x # h) = role_counts_sound (ns @ inserted_name x) h"

lemma role_names_append [simp]: "role_names (h @ h') = role_names h @ role_names h'"
  by (simp add: role_names_def)

lemma role_names_simps [simp]:
  "role_names [] = []" "role_names [RolesCounted e r] = []" "role_names [RoleInserted u (Inl x)] = []"
  "role_names [RoleInserted u (Inr i)] = [role_Name u]"
  by (simp_all add: role_names_def)

lemma role_counts_sound_append:
  "role_counts_sound ns (h @ h') \<longleftrightarrow> role_counts_sound ns h \<and> role_counts_sound (ns @ role_names h) h'"
  by (induction ns h rule: role_counts_sound.induct) (simp_all add: role_names_def)

lemma ExistsByName_history:
  "roleRepository_ExistsByName env h n = (r, h') \<Longrightarrow> h' = h @ [RolesCounted n (role_count env h n)]"
  by (auto simp: roleRepository_ExistsByName_def Let_def split: sum.splits)

lemma role_Create_history:
  "roleRepository_Create env h x = (r, h') \<Longrightarrow> \<exists>x' q. h' = h @ [RoleInserted x' q] \<and> role_Name x' = role_Name x
     \<and> (\<forall>d. r = Inr d \<longrightarrow> (\<exists>i. q = Inr i) \<and> role_Name d = role_Name x) \<and> (\<forall>e. r = Inl e \<longrightarrow> q = Inl e)"
  by (auto simp: roleRepository_Create_def Let_def split: sum.splits option.splits)

lemma count_name_pos: "0 < int (count_list ns n) \<longleftrightarrow> n \<in> set ns"
  by (induction ns) auto

interpretation role_store: keyed_store "roleRepository_ExistsByName env" "roleRepository_Create env"
  role_Name role_names "role_counts_sound []" for env
proof unfold_locales
  fix h k r h' assume "roleRepository_ExistsByName env h k = (r, h')"
  then show "role_names h' = role_names h" by (auto dest!: ExistsByName_history)
next
  fix h k b h' assume a: "roleRepository_ExistsByName env h k = (Inr b, h')" and s: "role_counts_sound [] h'"
  then obtain n where n: "role_count env h k = Inr n" "b = (n > 0)"
    by (auto simp: roleRepository_ExistsByName_def Let_def split: sum.splits)
  with s ExistsByName_history [OF a] have "n = int (count_list (role_names h) k)"
    by (simp add: role_counts_sound_append)
  with n count_name_pos show "b \<longleftrightarrow> k \<in> set (role_names h)" by metis
next
  fix h d d' h' assume "roleRepository_Create env h d = (Inr d', h')"
  then show "role_names h' = role_names h @ [role_Name d] \<and> role_Name d' = role_Name d"
    by (auto dest!: role_Create_history)
next
  fix h d e h' assume "roleRepository_Create env h d = (Inl e, h')"
  then show "role_names h' = role_names h" by (auto dest!: role_Create_history)
next
  fix h d q h' assume "roleRepository_Create env h d = (q, h')" "role_counts_sound [] h'"
  then show "role_counts_sound [] h" by (auto dest!: role_Create_history simp: role_counts_sound_append)
qed

lemma role_Create_check_then_create:
  "roleService_Create env h req =
     check_then_create (roleRepository_ExistsByName env) (roleRepository_Create env) (Sentinel ErrRoleAlreadyExists)
       (\<lambda>h. new_role req) h (cr_Name req)"
  by (auto simp: roleService_Create_def check_then_create_def split: prod.splits sum.splits bool.splits)

text \<open>The status of the response to a creation request that bound to \<open>req\<close>.\<close>

definition create_status :: "role_env \<Rightarrow> role_history \<Rightarrow> CreateRoleRequest \<Rightarrow> gin_ctx \<Rightarrow> gin_event list" where
  "create_status env h req c =
     drop (length (gc_events c)) (gc_events (fst (RoleHandler_Create env (\<lambda>c. Inr req) h c)))"

text \<open>
  C22: creating a role over HTTP keeps the names of the stored roles distinct. It answers 201 when
  and only when the role was stored; and when the store's counts are right and the name is
  taken, nothing is stored and the answer is 409.
\<close>

theorem role_create_unique:
  assumes "RoleHandler_Create env (\<lambda>c. Inr req) h c = (c', h')" and "role_counts_sound [] h'"
    and "distinct (role_names h)" and "role_count env h (cr_Name req) = Inr n"
  shows "distinct (role_names h')
    \<and> ((\<exists>body. create_status env h req c = [WriteJSON 201 body]) \<longleftrightarrow> role_names h' = role_names h @ [cr_Name req])
    \<and> (cr_Name req \<in> set (role_names h) \<longrightarrow> role_names h' = role_names h
          \<and> (\<exists>body. create_status env h req c = [AbortWithStatusJSON 409 body]))"
proof -
  obtain r h1 where r: "roleService_Create env h req = (r, h1)" by fastforce
  have h': "h' = h1" using assms(1) r by (auto simp: RoleHandler_Create_def split: sum.splits)
  have r': "check_then_create (roleRepository_ExistsByName env) (roleRepository_Create env) (Sentinel ErrRoleAlreadyExists)
       (\<lambda>h. new_role req) h (cr_Name req) = (r, h')" using r h' by (simp add: role_Create_check_then_create)
  have k: "role_Name (new_role req) = cr_Name req" by (simp add: new_role_def)
  note spec = role_store.checked_create_keys [OF r' assms(2) k]
  have st: "create_status env h req c =
      (case r of Inl e \<Rightarrow> [AbortWithStatusJSON (if errors_is e ErrRoleAlreadyExists then 409 else 500)
            (Envelope (if errors_is e ErrRoleAlreadyExists then ''CONFLICT'' else ''INTERNAL'') (error_text e))]
        | Inr x \<Rightarrow> [WriteJSON 201 (toResponse env x)])"
    using r by (auto simp: create_status_def RoleHandler_Create_def httperror_Conflict_def httperror_Internal_def
        httperror_WriteErr_def httperror_Write_def split: sum.splits)
  have d: "distinct (role_names h')" using role_store.checked_create_distinct [OF r' assms(2) k assms(3)] .
  moreover have "(\<exists>body. create_status env h req c = [WriteJSON 201 body]) \<longleftrightarrow> role_names h' = role_names h @ [cr_Name req]"
    using spec st by auto
  moreover have "r = Inl (Sentinel ErrRoleAlreadyExists)" if "cr_Name req \<in> set (role_names h)"
  proof -
    have q: "roleRepository_ExistsByName env h (cr_Name req) = (Inr (n > 0), h @ [RolesCounted (cr_Name req) (Inr n)])"
      using assms(4) by (simp add: roleRepository_ExistsByName_def)
    have "role_counts_sound [] (h @ [RolesCounted (cr_Name req) (Inr n)])"
    proof (cases "n > 0")
      case True
      then have "h' = h @ [RolesCounted (cr_Name req) (Inr n)]"
        using r h' q by (simp add: roleService_Create_def)
      then show ?thesis using assms(2) by simp
    next
      case False
      then have "roleRepository_Create env (h @ [RolesCounted (cr_Name req) (Inr n)]) (new_role req) = (r, h')"
        using r h' q by (simp add: roleService_Create_def)
      then show ?thesis using assms(2) role_store.create_sound by blast
    qed
    from role_store.checked_create_duplicate [OF q this that] r' show ?thesis by simp
  qed
  ultimately show ?thesis using spec st by auto
qed

text \<open>
  \<open>GET /roles/:id\<close> answers once: 400 exactly for an id that is not an object id, without asking
  the database; 404 when there is no such role; 500 on any other database error; otherwise 200
  with the role.
\<close>

theorem role_get_status:
  "let i = param c ''id''; (c', h') = RoleHandler_GetByID env param h c
   in case role_from_hex env i of
        None \<Rightarrow> h' = h \<and> gc_events c' = gc_events c @ [AbortWithStatusJSON 400 (Envelope ''BAD_REQUEST'' ''invalid role id'')]
      | Some oid \<Rightarrow> h' = h @ [RoleFoundByID oid (role_by_id env h oid)] \<and>
         (case role_by_id env h oid of
            Inr r \<Rightarrow> gc_events c' = gc_events c @ [WriteJSON 200 (toResponse env r)]
          | Inl e \<Rightarrow>
             if errors_is e ErrNoDocuments
             then gc_events c' = gc_events c @ [AbortWithStatusJSON 404 (Envelope ''NOT_FOUND'' ''role not found'')]
             else \<not> errors_is e ErrInvalidRoleID \<and> \<not> errors_is e ErrRoleNotFound
               \<longrightarrow> gc_events c' = gc_events c @ [AbortWithStatusJSON 500 (Envelope ''INTERNAL'' (error_text e))])"
  by (auto simp: RoleHandler_GetByID_def roleService_GetByID_def roleRepository_FindByID_def role_decoded_def Let_def
      httperror_BadRequest_def httperror_NotFound_def httperror_Internal_def httperror_WriteErr_def httperror_Write_def
      split: prod.splits option.splits sum.splits)

section \<open>Witnesses\<close>

definition sample_role_env :: role_env where
  "sample_role_env =
     \<lparr>role_by_id = \<lambda>h i. Inl (Sentinel ErrNoDocuments), role_by_name = \<lambda>h n. Inl (Sentinel ErrNoDocuments),
      role_count = \<lambda>h n. Inr (int (count_list (role_names h) n)), role_insert = \<lambda>h r. Inr (Some (Suc (length h))),
      role_find_all = \<lambda>h. Inr [], role_now = \<lambda>h. 0, role_hex = \<lambda>i. replicate i CHR ''f'',
      role_from_hex = \<lambda>s. if s = [] then None else Some (length s)\<rparr>"

definition sample_ctx :: gin_ctx where
  "sample_ctx =
     \<lparr>gc_req = \<lparr>rq_Method = ''POST'', rq_Path = ''/roles'', rq_GetHeader = \<lambda>k. [], rq_ClientIP = ''c'', rq_RemoteAddr = ''c'',
        rq_SpanValid = False\<rparr>, gc_rid = None, gc_deadlines = [], gc_body_limits = [], gc_events = []\<rparr>"

theorem role_create_unique_witness:
  "let h = [RoleInserted \<lparr>role_ID = 1, role_Name = ''ab'', role_Description = [], role_CreatedAt = 0, role_UpdatedAt = 0\<rparr> (Inr (Some 1))]
   in \<exists>body. create_status sample_role_env h \<lparr>cr_Name = ''ab'', cr_Description = []\<rparr> sample_ctx = [AbortWithStatusJSON 409 body]"
proof -
  let ?h = "[RoleInserted \<lparr>role_ID = 1, role_Name = ''ab'', role_Description = [], role_CreatedAt = 0, role_UpdatedAt = 0\<rparr> (Inr (Some 1))]"
  let ?q = "\<lparr>cr_Name = ''ab'', cr_Description = []\<rparr>"
  have n: "role_count sample_role_env ?h (cr_Name ?q) = Inr 1" by (simp add: sample_role_env_def)
  obtain c' h' where r: "RoleHandler_Create sample_role_env (\<lambda>c. Inr ?q) ?h sample_ctx = (c', h')" by fastforce
  then have "h' = ?h @ [RolesCounted ''ab'' (Inr 1)]"
    using n by (simp add: RoleHandler_Create_def roleService_Create_def roleRepository_ExistsByName_def)
  then have "role_counts_sound [] h'" by simp
  from role_create_unique [OF r this _ n] show ?thesis by simp
qed

theorem role_get_status_witness:
  "gc_events (fst (RoleHandler_GetByID sample_role_env (\<lambda>c k. ''ff'') [] sample_ctx)) =
     [AbortWithStatusJSON 404 (Envelope ''NOT_FOUND'' ''role not found'')]"
  using role_get_status [where param = "\<lambda>c k. ''ff''" and c = sample_ctx and env = sample_role_env and h = "[]"]
  by (simp add: sample_role_env_def sample_ctx_def Let_def split: prod.splits)

end
