(* ===== verification/Api.thy ===== *)
theory Api
  imports ServerProgram UserCorrect Role
begin

text \<open>
  The HTTP interface as a whole: the handler of every route inside the chain of middlewares, and a
  type system for what it answers. The types are the schemas of docs/api.openapi.yaml, and the
  table of answers says which of them that document lists.
\<close>

section \<open>Schemas\<close>

text \<open>An object has its required members and, of those listed, only well-typed ones.\<close>

datatype schema =
    SString
  | SBool
  | SInteger
  | SArray schema
  | SObject "string list" "(string \<times> schema) list"

fun conforms :: "json \<Rightarrow> schema \<Rightarrow> bool" and members_conform :: "(string \<times> json) list \<Rightarrow> (string \<times> schema) list \<Rightarrow> bool" where
  "conforms (JString s) t = (t = SString)"
| "conforms (JTime n) t = (t = SString)"
| "conforms (JBool b) t = (t = SBool)"
| "conforms (JInt n) t = (t = SInteger)"
| "conforms JNull t = False"
| "conforms (JArray xs) t = (case t of SArray u \<Rightarrow> list_all (\<lambda>x. conforms x u) xs | _ \<Rightarrow> False)"
| "conforms (JObject kvs) t =
     (case t of
        SObject req props \<Rightarrow> set req \<subseteq> fst ` set kvs \<and> distinct (map fst kvs) \<and> members_conform kvs props
      | _ \<Rightarrow> False)"
| "members_conform [] props = True"
| "members_conform ((k, v) # kvs) props =
     ((case map_of props k of None \<Rightarrow> True | Some t \<Rightarrow> conforms v t) \<and> members_conform kvs props)"

definition ErrorSchema :: schema where
  "ErrorSchema = SObject [''error''] [(''error'', SObject [''message''] [(''code'', SString), (''message'', SString)])]"

definition RegisterResponseSchema :: schema where
  "RegisterResponseSchema = SObject [] [(''id'', SString), (''email'', SString)]"

definition UserResponseSchema :: schema where
  "UserResponseSchema = SObject [] [(''id'', SString), (''email'', SString), (''user_name'', SString)]"

definition UserPageSchema :: schema where
  "UserPageSchema = SObject [] [(''items'', SArray UserResponseSchema), (''next_cursor'', SString), (''has_more'', SBool)]"

definition RoleResponseSchema :: schema where
  "RoleResponseSchema = SObject [] [(''id'', SString), (''name'', SString), (''description'', SString)]"

definition StatusSchema :: schema where
  "StatusSchema = SObject [''status''] [(''status'', SString)]"

definition CheckSchema :: schema where
  "CheckSchema = SObject [''name'', ''severity'', ''ok'', ''consecutive_fails'', ''updated_at'']
     [(''name'', SString), (''severity'', SString), (''ok'', SBool), (''consecutive_fails'', SInteger),
      (''updated_at'', SString), (''error'', SString)]"

definition DetailedSchema :: schema where
  "DetailedSchema = SObject [''status'', ''checks''] [(''status'', SString), (''checks'', SArray CheckSchema)]"

text \<open>The answers the document lists; it gives the probes no body schema.\<close>

fun documented :: "server_handler \<Rightarrow> (int \<times> schema) list" where
  "documented H_Liveness = [(200, StatusSchema)]"
| "documented H_Readiness = [(200, StatusSchema), (503, StatusSchema)]"
| "documented H_DetailedReadiness = []"
| "documented H_Ping = [(200, SObject [] [(''msg'', SString)])]"
| "documented H_UserRegister = [(201, RegisterResponseSchema), (400, ErrorSchema), (409, ErrorSchema)]"
| "documented H_UserList = [(200, UserPageSchema), (400, ErrorSchema)]"
| "documented H_RoleCreate = [(201, RoleResponseSchema), (409, ErrorSchema)]"
| "documented H_RoleList = [(200, SArray RoleResponseSchema)]"
| "documented H_RoleGetByID = [(200, RoleResponseSchema), (400, ErrorSchema), (404, ErrorSchema)]"

text \<open>The answers it does not list.\<close>

fun undocumented :: "server_handler \<Rightarrow> (int \<times> schema) list" where
  "undocumented H_DetailedReadiness = [(200, DetailedSchema), (503, DetailedSchema)]"
| "undocumented H_UserRegister = [(500, ErrorSchema)]"
| "undocumented H_RoleCreate = [(400, ErrorSchema), (500, ErrorSchema)]"
| "undocumented H_RoleList = [(500, ErrorSchema)]"
| "undocumented H_RoleGetByID = [(500, ErrorSchema)]"
| "undocumented _ = []"

section \<open>The handlers of the routes\<close>

text \<open>
  Binding and query and path parameters are gin's; the databases are those of the user and role
  theories.
\<close>

record api_env =
  ae_users :: user_env
  ae_roles :: role_env
  ae_bind_register :: "gin_ctx \<Rightarrow> go_error + RegisterRequest"
  ae_bind_role :: "gin_ctx \<Rightarrow> go_error + CreateRoleRequest"
  ae_query :: "gin_ctx \<Rightarrow> string \<Rightarrow> string"
  ae_param :: "gin_ctx \<Rightarrow> string \<Rightarrow> string"

record api_state =
  as_users :: user_history
  as_roles :: role_history
  as_registry :: Registry

definition write_json :: "int \<times> json \<Rightarrow> gin_ctx \<Rightarrow> gin_ctx" where
  "write_json r c = emit [WriteJSON (fst r) (snd r)] c"

definition server_handle :: "api_env \<Rightarrow> server_handler \<Rightarrow> api_state \<Rightarrow> gin_ctx \<Rightarrow> gin_ctx \<times> api_state" where
  "server_handle env rt st c =
     (case rt of
        H_Liveness \<Rightarrow> (write_json (Liveness (as_registry st)) c, st)
      | H_Readiness \<Rightarrow> (write_json (Readiness (as_registry st)) c, st)
      | H_DetailedReadiness \<Rightarrow> (write_json (DetailedReadiness (as_registry st)) c, st)
      | H_Ping \<Rightarrow> (write_json (StatusOK, JObject [(''msg'', JString ''pong'')]) c, st)
      | H_UserRegister \<Rightarrow>
          (let (c, h) = UserHandler_Register (ae_users env) (ae_bind_register env) (as_users st) c in (c, st\<lparr>as_users := h\<rparr>))
      | H_UserList \<Rightarrow>
          (let (c, h) = UserHandler_List (ae_users env) (ae_query env) (as_users st) c in (c, st\<lparr>as_users := h\<rparr>))
      | H_RoleCreate \<Rightarrow>
          (let (c, h) = RoleHandler_Create (ae_roles env) (ae_bind_role env) (as_roles st) c in (c, st\<lparr>as_roles := h\<rparr>))
      | H_RoleList \<Rightarrow> (let (c, h) = RoleHandler_List (ae_roles env) (as_roles st) c in (c, st\<lparr>as_roles := h\<rparr>))
      | H_RoleGetByID \<Rightarrow>
          (let (c, h) = RoleHandler_GetByID (ae_roles env) (ae_param env) (as_roles st) c in (c, st\<lparr>as_roles := h\<rparr>)))"

text \<open>The response a call on gin's context makes: a status and, but for a bare abort, a body.\<close>

fun response_of :: "gin_event \<Rightarrow> (int \<times> json option) option" where
  "response_of (AbortWithStatus s) = Some (s, None)"
| "response_of (AbortWithStatusJSON s b) = Some (s, Some b)"
| "response_of (WriteJSON s b) = Some (s, Some b)"
| "response_of _ = None"

definition responses :: "gin_event list \<Rightarrow> (int \<times> json option) list" where
  "responses es = List.map_filter response_of es"

lemma responses_simps [simp]:
  "responses [] = []" "responses (e # es) = (case response_of e of None \<Rightarrow> responses es | Some r \<Rightarrow> r # responses es)"
  "responses (es @ es') = responses es @ responses es'"
  by (simp_all add: responses_def map_filter_def split: option.splits)

definition typed_answer :: "server_handler \<Rightarrow> int \<times> json option \<Rightarrow> bool" where
  "typed_answer rt r \<longleftrightarrow>
     (\<exists>body t. snd r = Some body \<and> (fst r, t) \<in> set (documented rt @ undocumented rt) \<and> conforms body t)"

section \<open>Every handler is well typed\<close>

lemma conforms_Envelope: "conforms (Envelope code message) ErrorSchema"
  by (simp add: Envelope_def ErrorSchema_def)

lemma members_conform_append:
  "members_conform (a @ b) props = (members_conform a props \<and> members_conform b props)"
  by (induction a) auto

lemma conforms_page: "conforms (page_json p) UserPageSchema"
  by (simp add: page_json_def UserPageSchema_def UserResponseSchema_def list_all_iff)

lemma conforms_role: "conforms (toResponse env r) RoleResponseSchema"
  by (simp add: toResponse_def RoleResponseSchema_def)

lemma conforms_register: "conforms (RegisterResponse env u) RegisterResponseSchema"
  by (simp add: RegisterResponse_def RegisterResponseSchema_def)

lemma conforms_check: "conforms (check_entry res) CheckSchema"
  by (cases "res_Err res") (simp_all add: check_entry_def CheckSchema_def)

lemma conforms_status: "conforms (JObject [(''status'', JString s)]) StatusSchema"
  by (simp add: StatusSchema_def)

lemma conforms_detailed: "conforms (JObject [(''status'', JString s), (''checks'', JArray (map check_entry rs))]) DetailedSchema"
  by (simp add: DetailedSchema_def list_all_iff conforms_check)

lemmas typing = conforms_Envelope conforms_page conforms_role conforms_register conforms_status conforms_detailed

lemmas http_defs =
  httperror_BadRequest_def httperror_Conflict_def httperror_NotFound_def httperror_Internal_def httperror_WriteErr_def
  httperror_Write_def write_json_def StatusOK_def StatusServiceUnavailable_def

text \<open>One answer of a handler, added to the calls made before.\<close>

definition adds_answer :: "server_handler \<Rightarrow> gin_ctx \<Rightarrow> gin_ctx \<Rightarrow> bool" where
  "adds_answer rt c c' \<longleftrightarrow>
     (\<exists>ev r. gc_events c' = gc_events c @ [ev] \<and> response_of ev = Some r \<and> typed_answer rt r)"

lemma adds_answerI:
  "gc_events c' = gc_events c @ [ev] \<Longrightarrow> response_of ev = Some (s, Some b) \<Longrightarrow>
     (s, t) \<in> set (documented rt @ undocumented rt) \<Longrightarrow> conforms b t \<Longrightarrow> adds_answer rt c c'"
  unfolding adds_answer_def typed_answer_def by (metis fst_conv snd_conv)

lemma answer_json:
  "(s, t) \<in> set (documented rt @ undocumented rt) \<Longrightarrow> conforms b t \<Longrightarrow> adds_answer rt c (emit [WriteJSON s b] c)"
  "(s, t) \<in> set (documented rt @ undocumented rt) \<Longrightarrow> conforms b t \<Longrightarrow> adds_answer rt c (emit [AbortWithStatusJSON s b] c)"
  using adds_answerI [of "emit [WriteJSON s b] c" c "WriteJSON s b" s b t rt]
    adds_answerI [of "emit [AbortWithStatusJSON s b] c" c "AbortWithStatusJSON s b" s b t rt] by simp_all

lemma answer_health:
  "adds_answer H_Liveness c (write_json (Liveness r) c)" "adds_answer H_Readiness c (write_json (Readiness r) c)"
  "adds_answer H_DetailedReadiness c (write_json (DetailedReadiness r) c)"
  "adds_answer H_Ping c (write_json (StatusOK, JObject [(''msg'', JString ''pong'')]) c)"
  by (auto simp: Liveness_def Readiness_def DetailedReadiness_def Let_def http_defs intro!: answer_json typing)

lemma answer_users:
  "adds_answer H_UserRegister c (fst (UserHandler_Register env bind h c))"
  "adds_answer H_UserList c (fst (UserHandler_List env query h c))"
  by (auto simp: UserHandler_Register_def UserHandler_List_def Let_def http_defs intro!: answer_json typing
      split: sum.splits prod.splits)

lemma answer_roles:
  "adds_answer H_RoleCreate c (fst (RoleHandler_Create renv rbind rh c))"
  "adds_answer H_RoleGetByID c (fst (RoleHandler_GetByID renv param rh c))"
  "adds_answer H_RoleList c (fst (RoleHandler_List renv rh c))"
  by (auto simp: RoleHandler_Create_def RoleHandler_GetByID_def RoleHandler_List_def Let_def http_defs list_all_iff
      intro!: answer_json typing split: sum.splits prod.splits)

lemma server_handle_answer: "adds_answer rt c (fst (server_handle env rt st c))"
  using answer_health [of c] answer_users [of c] answer_roles [of c]
  by (cases rt) (simp_all add: server_handle_def Let_def split_def)

section \<open>Through the chain\<close>

text \<open>A handler that returns, having answered exactly once, a request \<open>rq\<close> with an answer of \<open>P rq\<close>.\<close>

type_synonym response = "int \<times> json option"

definition answers :: "(gin_request \<Rightarrow> response \<Rightarrow> bool) \<Rightarrow> gin_handler \<Rightarrow> bool" where
  "answers P h \<longleftrightarrow>
     (\<forall>c. \<exists>c' es r. h c = Returned c' \<and> gc_events c' = gc_events c @ es \<and> responses es = [r] \<and> P (gc_req c) r)"

lemma answersD:
  assumes "answers P h"
  obtains c' es r where "h c = Returned c'" "gc_events c' = gc_events c @ es" "responses es = [r]" "P (gc_req c) r"
  using assms unfolding answers_def by blast

lemma answersI:
  "(\<And>c. \<exists>c' es r. h c = Returned c' \<and> gc_events c' = gc_events c @ es \<and> responses es = [r] \<and> P (gc_req c) r) \<Longrightarrow> answers P h"
  by (simp add: answers_def)

lemma answers_mono: "answers P h \<Longrightarrow> (\<And>rq r. P rq r \<Longrightarrow> Q rq r) \<Longrightarrow> answers Q h"
  unfolding answers_def by blast

definition preflight :: "gin_request \<Rightarrow> bool" where
  "preflight rq \<longleftrightarrow> rq_Method rq = ''OPTIONS''"

text \<open>The limiters, as the request finds them, do not both let it through.\<close>

definition limited ::
  "(rat \<Rightarrow> int \<Rightarrow> 'l) \<Rightarrow> (int \<Rightarrow> 'l \<Rightarrow> bool \<times> 'l) \<Rightarrow> int \<Rightarrow> 'l rate_limit_state option \<Rightarrow> gin_request \<Rightarrow> bool" where
  "limited mk allow now limiters rq =
     (case limiters of
        None \<Rightarrow> False
      | Some st \<Rightarrow>
          \<not> (fst (global_allow allow now st) \<and> fst (per_ip_allow mk allow now rq (snd (global_allow allow now st)))))"

definition too_many :: "response \<Rightarrow> bool" where
  "too_many r \<longleftrightarrow> r = (429, Some (JObject [(''error'', JString ''rate limit exceeded'')]))"

lemma responses_cors: "responses (cors_headers cfg origin) = []"
  by (simp add: cors_headers_def Let_def)

lemma answers_CORS:
  assumes "answers P h"
  shows "answers (\<lambda>rq r. if preflight rq then r = (204, None) else P rq r) (CORS cfg h)"
proof (rule answersI)
  fix c :: gin_ctx
  let ?hs = "cors_headers cfg (rq_GetHeader (gc_req c) ''Origin'')"
  obtain c' es r where h: "h (emit ?hs c) = Returned c'" "gc_events c' = gc_events (emit ?hs c) @ es" "responses es = [r]"
    "P (gc_req (emit ?hs c)) r"
    by (rule answersD [OF assms])
  show "\<exists>c' es r. CORS cfg h c = Returned c' \<and> gc_events c' = gc_events c @ es \<and> responses es = [r]
      \<and> (if preflight (gc_req c) then r = (204, None) else P (gc_req c) r)"
  proof (cases "preflight (gc_req c)")
    case True
    then show ?thesis by (simp add: CORS_def Let_def responses_cors preflight_def)
  next
    case False
    then have "CORS cfg h c = Returned c'" "gc_events c' = gc_events c @ (?hs @ es)" "responses (?hs @ es) = [r]"
      using h by (simp_all add: CORS_def Let_def responses_cors preflight_def)
    with h(4) False show ?thesis by (cases r) auto
  qed
qed

lemma answers_context:
  assumes "answers P h"
  shows "answers P (Timeout d h)" "answers P (BodyLimit n h)"
proof -
  have "\<exists>c' es r. h (f c) = Returned c' \<and> gc_events c' = gc_events c @ es \<and> responses es = [r] \<and> P (gc_req c) r"
    if "gc_events (f c) = gc_events c" "gc_req (f c) = gc_req c" for c and f :: "gin_ctx \<Rightarrow> gin_ctx"
    using answersD [OF assms, of "f c"] that by metis
  from this [where f = "\<lambda>c. c"] this [where f = "\<lambda>c. c\<lparr>gc_deadlines := d # gc_deadlines c\<rparr>"]
    this [where f = "\<lambda>c. c\<lparr>gc_body_limits := n # gc_body_limits c\<rparr>"]
  show "answers P (Timeout d h)" "answers P (BodyLimit n h)"
    unfolding answers_def Timeout_def BodyLimit_def by auto
qed

lemma RateLimit_limited:
  "fst (RateLimit mk allow now st h c) = (if limited mk allow now st (gc_req c) then Returned (tooMany 1 c) else h c)"
  by (cases st) (auto simp: RateLimit_def limited_def Let_def split: prod.splits)

lemma answers_RateLimit:
  assumes "answers P h"
  shows "answers (\<lambda>rq r. if limited mk allow now st rq then too_many r else P rq r) (\<lambda>c. fst (RateLimit mk allow now st h c))"
proof (rule answersI)
  fix c
  obtain c' es r where h: "h c = Returned c'" "gc_events c' = gc_events c @ es" "responses es = [r]" "P (gc_req c) r"
    by (rule answersD [OF assms])
  show "\<exists>c' es r. fst (RateLimit mk allow now st h c) = Returned c' \<and> gc_events c' = gc_events c @ es
      \<and> responses es = [r] \<and> (if limited mk allow now st (gc_req c) then too_many r else P (gc_req c) r)"
    using h by (cases r) (simp add: RateLimit_limited tooMany_def too_many_def)
qed

lemma answers_RequestLogger:
  assumes "answers P h"
  shows "answers P (RequestLogger status latency h)"
proof (rule answersI)
  fix c
  obtain c' es r where h: "h c = Returned c'" "gc_events c' = gc_events c @ es" "responses es = [r]" "P (gc_req c) r"
    by (rule answersD [OF assms])
  then show "\<exists>c' es r. RequestLogger status latency h c = Returned c' \<and> gc_events c' = gc_events c @ es \<and> responses es = [r]
      \<and> P (gc_req c) r"
    by (cases r) (simp add: RequestLogger_def Let_def)
qed

lemma answers_RequestID:
  assumes "answers P h"
  shows "answers P (RequestID uuid h)"
proof (rule answersI)
  fix c :: gin_ctx
  define rid where "rid = (if rq_GetHeader (gc_req c) HeaderRequestID = [] then uuid else rq_GetHeader (gc_req c) HeaderRequestID)"
  define c1 where "c1 = emit [RespSet HeaderRequestID rid] ((emit [CtxSet HeaderRequestID rid] c)\<lparr>gc_rid := Some rid\<rparr>)"
  obtain c' es r where h: "h c1 = Returned c'" "gc_events c' = gc_events c1 @ es" "responses es = [r]" "P (gc_req c1) r"
    by (rule answersD [OF assms])
  have "RequestID uuid h c = h c1" by (simp add: RequestID_def Let_def c1_def rid_def)
  moreover have "gc_events c1 = gc_events c @ [CtxSet HeaderRequestID rid, RespSet HeaderRequestID rid]" "gc_req c1 = gc_req c"
    by (simp_all add: c1_def)
  ultimately show "\<exists>c' es r. RequestID uuid h c = Returned c' \<and> gc_events c' = gc_events c @ es \<and> responses es = [r]
      \<and> P (gc_req c) r"
    using h by (cases r) simp
qed

lemma answers_Recovery:
  assumes "answers P h"
  shows "answers P (Recovery h)"
proof (rule answersI)
  fix c
  obtain c' es r where h: "h c = Returned c'" "gc_events c' = gc_events c @ es" "responses es = [r]" "P (gc_req c) r"
    by (rule answersD [OF assms])
  then show "\<exists>c' es r. Recovery h c = Returned c' \<and> gc_events c' = gc_events c @ es \<and> responses es = [r] \<and> P (gc_req c) r"
    by (cases r) (simp add: Recovery_def)
qed

text \<open>
  The interface of a middleware: around a handler that answers exactly once it still answers
  exactly once; to the requests of \<open>stops\<close> the answer is its own, to all others the handler's.
\<close>

locale middleware =
  fixes wrap :: gin_middleware
    and stops :: "gin_request \<Rightarrow> bool"
    and own :: "response \<Rightarrow> bool"
  assumes answers_once: "answers P h \<Longrightarrow> answers (\<lambda>rq r. if stops rq then own r else P rq r) (wrap h)"
begin

lemma keeps: "(\<And>rq. \<not> stops rq) \<Longrightarrow> answers P h \<Longrightarrow> answers P (wrap h)"
  using answers_once [of P h] by simp

end

interpretation cors_mw: middleware "CORS cfg" preflight "\<lambda>r. r = (204, None)" for cfg
  by unfold_locales (rule answers_CORS)

interpretation timeout_mw: middleware "Timeout d" "\<lambda>_. False" "\<lambda>_. False" for d
  by unfold_locales (simp add: answers_context)

interpretation body_limit_mw: middleware "BodyLimit n" "\<lambda>_. False" "\<lambda>_. False" for n
  by unfold_locales (simp add: answers_context)

interpretation rate_limit_mw: middleware "\<lambda>h c. fst (RateLimit mk allow now st h c)" "limited mk allow now st" too_many
  for mk allow now st
  by unfold_locales (rule answers_RateLimit)

interpretation logger_mw: middleware "RequestLogger status latency" "\<lambda>_. False" "\<lambda>_. False" for status latency
  by unfold_locales (simp add: answers_RequestLogger)

interpretation request_id_mw: middleware "RequestID uuid" "\<lambda>_. False" "\<lambda>_. False" for uuid
  by unfold_locales (simp add: answers_RequestID)

interpretation recovery_mw: middleware Recovery "\<lambda>_. False" "\<lambda>_. False"
  by unfold_locales (simp add: answers_Recovery)

lemma answers_chain:
  assumes "answers P h"
  shows "answers (\<lambda>rq r. if limited mk allow now limiters rq then too_many r
      else if preflight rq then r = (204, None) else P rq r)
    (router_chain cfg uuid status latency mk allow now limiters h)"
  unfolding router_chain_def
  by (intro recovery_mw.keeps request_id_mw.keeps logger_mw.keeps rate_limit_mw.answers_once body_limit_mw.keeps
      timeout_mw.keeps cors_mw.answers_once assms) auto

text \<open>
  C4: whatever the databases answer and the limiters decide, a request to any route gets exactly one
  response: 429 when a limiter refuses it, else 204 when it is a preflight (its method is OPTIONS),
  and otherwise one of the answers listed for its route, with a body of the schema listed. All
  handlers but the user list also answer 500 on errors of a database, which the interface document
  does not mention. The body of a 429 is not an error envelope.
\<close>

theorem api_responses_typed:
  "\<exists>c' es r. router_chain cfg uuid status latency mk allow now limiters (\<lambda>c. Returned (fst (server_handle env rt st c))) c = Returned c'
     \<and> gc_events c' = gc_events c @ es \<and> responses es = [r]
     \<and> (if limited mk allow now limiters (gc_req c) then \<exists>body. r = (429, Some body) \<and> \<not> conforms body ErrorSchema
        else if rq_Method (gc_req c) = ''OPTIONS'' then r = (204, None)
        else typed_answer rt r)"
proof -
  have "answers (\<lambda>_. typed_answer rt) (\<lambda>c. Returned (fst (server_handle env rt st c)))"
  proof (rule answersI)
    fix c
    from server_handle_answer [of rt c env st] show "\<exists>c' es r. Returned (fst (server_handle env rt st c)) = Returned c'
        \<and> gc_events c' = gc_events c @ es \<and> responses es = [r] \<and> typed_answer rt r"
      by (force simp: adds_answer_def)
  qed
  from answers_chain [OF this] obtain c' es r where
    c': "router_chain cfg uuid status latency mk allow now limiters (\<lambda>c. Returned (fst (server_handle env rt st c))) c = Returned c'"
    "gc_events c' = gc_events c @ es" "responses es = [r]"
    "if limited mk allow now limiters (gc_req c) then too_many r
      else if preflight (gc_req c) then r = (204, None) else typed_answer rt r"
    by (rule answersD)
  have "\<not> conforms (JObject [(''error'', JString m)]) ErrorSchema" for m by (simp add: ErrorSchema_def)
  with c' show ?thesis unfolding preflight_def too_many_def
    by (intro exI [of _ c'] exI [of _ es] exI [of _ r]) (auto simp del: conforms.simps split: if_splits)
qed

definition sample_api_env :: "user_env \<Rightarrow> api_env" where
  "sample_api_env users =
     \<lparr>ae_users = users, ae_roles = sample_role_env, ae_bind_register = \<lambda>c. Inl (NewError ''EOF''),
      ae_bind_role = \<lambda>c. Inr \<lparr>cr_Name = ''admin'', cr_Description = []\<rparr>, ae_query = \<lambda>c k. [], ae_param = \<lambda>c k. []\<rparr>"

theorem api_responses_typed_witness:
  "\<exists>r. responses (gc_events (outcome_ctx (router_chain sample_config ''u'' (\<lambda>_. 200) (\<lambda>_. 0) sample_new_limiter sample_allow 0 None
      (\<lambda>c. Returned (fst (server_handle (sample_api_env sample_user_env) H_RoleCreate
         \<lparr>as_users = [], as_roles = [], as_registry = NewRegistry []\<rparr> c))) sample_request))) = [r]"
  using api_responses_typed [where cfg = sample_config and uuid = "''u''" and status = "\<lambda>_. 200" and latency = "\<lambda>_. 0"
      and mk = sample_new_limiter and allow = sample_allow and now = 0 and limiters = None and c = sample_request
      and env = "sample_api_env sample_user_env" and rt = H_RoleCreate
      and st = "\<lparr>as_users = [], as_roles = [], as_registry = NewRegistry []\<rparr>"]
  by (auto simp: sample_request_def)

end
