(* ===== verification/WorkerProgram.thy ===== *)
theory WorkerProgram
  imports Wiring KafkaRetryFlow SqsRetryFlow UserCorrect
begin

text \<open>
  cmd/worker: the providers, the generated initialiser, the group of consumer loops that \<open>Run\<close>
  starts, and \<open>main\<close>. The loops are those of the Kafka and SQS theories; the group is a step
  relation over the order in which they return.
\<close>

section \<open>providers.go\<close>

definition provide_client :: "app_env \<Rightarrow> broker_client \<Rightarrow> kgo_Opt list \<Rightarrow> provided" where
  "provide_client env c opts =
     (case ae_new_client env c opts of
        Some err \<Rightarrow> (Some err, [ClientFailed c err], [])
      | None \<Rightarrow> (None, [ClientOpened c opts], [ClientClosed c]))"

definition ProvideMainConsumer :: "app_env \<Rightarrow> KafkaConfig \<Rightarrow> provided" where
  "ProvideMainConsumer env cfg = provide_client env MainConsumerClient (kafka_NewConsumer cfg)"

definition retry_consumer_opts :: "KafkaConfig \<Rightarrow> kgo_Opt list" where
  "retry_consumer_opts cfg =
     (let suffix = kc_RetrySuffix (kafka_Consumer cfg);
          suffix = (if suffix = [] then ''.retry'' else suffix);
          grp = kafka_GroupID cfg @ ''-retry''
      in kafka_NewConsumerForTopics cfg grp [kafka_Topic cfg @ suffix])"

definition ProvideRetryConsumer :: "app_env \<Rightarrow> KafkaConfig \<Rightarrow> provided" where
  "ProvideRetryConsumer env cfg = provide_client env RetryConsumerClient (retry_consumer_opts cfg)"

definition ProvideProducerClient :: "app_env \<Rightarrow> KafkaConfig \<Rightarrow> provided" where
  "ProvideProducerClient env cfg = provide_client env ProducerClient (kafka_NewProducer cfg)"

definition ProvideSQSClient :: "app_env \<Rightarrow> SQSConfig \<Rightarrow> provided" where
  "ProvideSQSClient env cfg =
     (case sqs_NewClient (\<lambda>region. case ae_aws_config env region of None \<Rightarrow> Inr () | Some e \<Rightarrow> Inl e) (\<lambda>_ endpoint. endpoint)
             (sqs_Region cfg) (sqs_Endpoint cfg) of
        Inl err \<Rightarrow> (Some err, [], [])
      | Inr c \<Rightarrow> (None, [SqsClientMade], []))"

text \<open>The user feature's event handler, as the Kafka consumer calls it.\<close>

definition ProvideMessageHandler :: kafka_handler where
  "ProvideMessageHandler h r = (fst (EventHandler_Handle [] (Topic r) (Offset r) (Value r)), h)"

text \<open>The template consumes nothing from SQS.\<close>

definition ProvideSQSHandler :: "sqs_handler option" where
  "ProvideSQSHandler = None"

definition ProvideKafkaChecker :: KafkaChecker where
  "ProvideKafkaChecker = NewKafkaChecker (30 * second)"

definition ProvideSQSChecker :: SQSChecker where
  "ProvideSQSChecker = NewSQSChecker (30 * second)"

text \<open>\<open>k\<close> and \<open>s\<close> are the checkers with the heartbeats they have had at each moment.\<close>

definition worker_health_registry ::
  "(health_history \<Rightarrow> int) \<Rightarrow> (health_history \<Rightarrow> KafkaChecker) \<Rightarrow> (health_history \<Rightarrow> SQSChecker) \<Rightarrow> Config \<Rightarrow> Registry" where
  "worker_health_registry now k s cfg =
     (let r = NewRegistry [];
          r = Register (KafkaChecker_checker now k) r
      in if sc_QueueURL (sqs_Consumer (cfg_SQS cfg)) \<noteq> [] then Register (SQSChecker_checker now s) r else r)"

section \<open>wire_gen.go\<close>

text \<open>
  The clients are those named by \<open>broker_client\<close>. The registry is given the clock and the
  checkers' heartbeats.
\<close>

record WorkerApp =
  wa_Config :: Config
  wa_Logger :: slog_handler
  wa_Handler :: kafka_handler
  wa_Health :: "(health_history \<Rightarrow> int) \<Rightarrow> (health_history \<Rightarrow> KafkaChecker) \<Rightarrow> (health_history \<Rightarrow> SQSChecker) \<Rightarrow> Registry"
  wa_SQSHandler :: "sqs_handler option"
  wa_SQSChecker :: SQSChecker
  wa_KafkaChecker :: KafkaChecker
  wa_cleanup :: "app_event list"

definition InitializeWorker :: "app_env \<Rightarrow> string \<Rightarrow> (go_error + WorkerApp) \<times> app_event list" where
  "InitializeWorker env cfgPath =
     (case ae_load env cfgPath of
        Inl err \<Rightarrow> (Inl err, [])
      | Inr cfg \<Rightarrow>
         (case ProvideMainConsumer env (cfg_Kafka cfg) of
            (Some err, es, _) \<Rightarrow> (Inl err, es)
          | (None, es, cleanup) \<Rightarrow>
         (case ProvideRetryConsumer env (cfg_Kafka cfg) of
            (Some err, es2, _) \<Rightarrow> (Inl err, es @ es2 @ cleanup)
          | (None, es2, cleanup2) \<Rightarrow>
         (case ProvideProducerClient env (cfg_Kafka cfg) of
            (Some err, es3, _) \<Rightarrow> (Inl err, es @ es2 @ es3 @ cleanup2 @ cleanup)
          | (None, es3, cleanup3) \<Rightarrow>
         (case ProvideSQSClient env (cfg_SQS cfg) of
            (Some err, es4, _) \<Rightarrow> (Inl err, es @ es2 @ es3 @ es4 @ cleanup3 @ cleanup2 @ cleanup)
          | (None, es4, cleanup4) \<Rightarrow>
         (case ProvideObservability env (cfg_Observability cfg) of
            (Some err, es5, _) \<Rightarrow> (Inl err, es @ es2 @ es3 @ es4 @ es5 @ cleanup4 @ cleanup3 @ cleanup2 @ cleanup)
          | (None, es5, cleanup5) \<Rightarrow>
              (Inr \<lparr>wa_Config = cfg, wa_Logger = logger_New (cfg_Logger cfg), wa_Handler = ProvideMessageHandler,
                    wa_Health = (\<lambda>now k s. worker_health_registry now k s cfg), wa_SQSHandler = ProvideSQSHandler,
                    wa_SQSChecker = ProvideSQSChecker, wa_KafkaChecker = ProvideKafkaChecker,
                    wa_cleanup = cleanup5 @ cleanup4 @ cleanup3 @ cleanup2 @ cleanup\<rparr>,
               es @ es2 @ es3 @ es4 @ es5)))))))"

section \<open>The consumer group\<close>

datatype worker_task = KafkaMain | KafkaRetryTask | SqsMain | SqsRetryTask

definition worker_tasks :: "Config \<Rightarrow> sqs_handler option \<Rightarrow> worker_task list" where
  "worker_tasks cfg handler =
     [KafkaMain, KafkaRetryTask]
     @ (if sc_QueueURL (sqs_Consumer (cfg_SQS cfg)) \<noteq> [] \<and> handler \<noteq> None then [SqsMain, SqsRetryTask] else [])"

record worker_env =
  we_kafka_main :: kafka_env
  we_kafka_retry :: kafka_env
  we_sqs_main :: sqs_env
  we_sqs_retry :: sqs_env

definition kafka_main_run :: "Config \<Rightarrow> kafka_env \<Rightarrow> nat \<Rightarrow> go_error option" where
  "kafka_main_run cfg env fuel =
     map_option fst (kafka_Consume env ProvideMessageHandler
       \<lparr>ko_Consumer = kafka_Consumer (cfg_Kafka cfg), ko_Producer = True, ko_Heartbeat = True, ko_OnDone = False\<rparr> fuel [])"

definition kafka_retry_run :: "Config \<Rightarrow> kafka_env \<Rightarrow> nat \<Rightarrow> go_error option" where
  "kafka_retry_run cfg env fuel = map_option fst (kafka_ConsumeRetry env (kafka_Consumer (cfg_Kafka cfg)) True fuel [])"

definition sqs_main_run :: "Config \<Rightarrow> sqs_handler \<times> sqs_env \<Rightarrow> nat \<Rightarrow> go_error option" where
  "sqs_main_run cfg x fuel =
     map_option fst (sqs_Consume (snd x) (fst x)
       \<lparr>co_Consumer = sqs_Consumer (cfg_SQS cfg), co_Producer = True, co_Heartbeat = True, co_OnDone = False\<rparr> fuel [])"

definition sqs_retry_run :: "Config \<Rightarrow> sqs_env \<Rightarrow> nat \<Rightarrow> go_error option" where
  "sqs_retry_run cfg env fuel = map_option fst (sqs_ConsumeRetry env (sqs_Consumer (cfg_SQS cfg)) True fuel [])"

text \<open>What a task of the group returned, if it returned within \<open>fuel\<close> turns of its loop.\<close>

definition worker_task_run :: "Config \<Rightarrow> sqs_handler option \<Rightarrow> worker_env \<Rightarrow> worker_task \<Rightarrow> nat \<Rightarrow> go_error option" where
  "worker_task_run cfg handler env t fuel =
     (case t of
        KafkaMain \<Rightarrow> kafka_main_run cfg (we_kafka_main env) fuel
      | KafkaRetryTask \<Rightarrow> kafka_retry_run cfg (we_kafka_retry env) fuel
      | SqsMain \<Rightarrow> (case handler of None \<Rightarrow> None | Some h \<Rightarrow> sqs_main_run cfg (h, we_sqs_main env) fuel)
      | SqsRetryTask \<Rightarrow> sqs_retry_run cfg (we_sqs_retry env) fuel)"

text \<open>
  What golang.org/x/sync/errgroup documents: the tasks still running and the first error returned.
  \<open>Wait\<close> returns that error once none is running. The theorems take it as a hypothesis on what
  \<open>Wait\<close> returned.
\<close>

inductive group_reach :: "('t \<Rightarrow> nat \<Rightarrow> go_error option) \<Rightarrow> 't list \<Rightarrow> 't list \<Rightarrow> go_error option \<Rightarrow> bool"
  for run :: "'t \<Rightarrow> nat \<Rightarrow> go_error option" and tasks :: "'t list" where
  start: "group_reach run tasks tasks None"
| finish: "group_reach run tasks (a @ t # b) err \<Longrightarrow> run t fuel = Some e \<Longrightarrow>
     group_reach run tasks (a @ b) (if err = None then Some e else err)"

section \<open>Run and main\<close>

datatype worker_handler = WH_Liveness | WH_Readiness | WH_DetailedReadiness

record worker_health_server =
  whs_Addr :: string
  whs_Routes :: "(string \<times> string \<times> worker_handler) list"
  whs_ReadHeaderTimeout :: duration

text \<open>
  The server \<open>startHealthServer\<close> starts; its two goroutines are in WorkerHealth.
\<close>

definition startHealthServer :: "Config \<Rightarrow> worker_health_server option" where
  "startHealthServer cfg =
     (let port = wrk_HealthPort (cfg_Worker cfg)
      in if port = 0 then None
         else Some \<lparr>whs_Addr = '':'' @ itoa port,
                whs_Routes = [(''GET'', ''/healthz'', WH_Liveness), (''GET'', ''/readyz'', WH_Readiness),
                  (''GET'', ''/internal/readyz'', WH_DetailedReadiness)],
                whs_ReadHeaderTimeout = 5 * second\<rparr>)"

text \<open>\<open>Run\<close> around the group, given what \<open>Wait\<close> returned.\<close>

definition worker_Run :: "WorkerApp \<Rightarrow> go_error option \<Rightarrow> go_error option \<times> app_event list" where
  "worker_Run w waited =
     (let cfg = wa_Config w;
          healthSrv = startHealthServer cfg
      in (waited,
          [HealthStarted]
          @ (case healthSrv of None \<Rightarrow> [] | Some srv \<Rightarrow> [Listening (whs_Addr srv)])
          @ (if SqsMain \<in> set (worker_tasks cfg (wa_SQSHandler w)) then []
             else [LoggedInfo (''SQS consumer skipped '' @ [CHR 0xE2, CHR 0x80, CHR 0x94] @ '' queue_url empty or handler nil'')])
          @ (case healthSrv of None \<Rightarrow> [] | Some srv \<Rightarrow> [ShutdownServer (5 * second)])))"

text \<open>\<open>os.Exit(1)\<close> skips the deferred cleanup.\<close>

definition worker_main :: "app_env \<Rightarrow> string \<Rightarrow> (WorkerApp \<Rightarrow> go_error option) \<Rightarrow> int \<times> app_event list" where
  "worker_main env config_path wait =
     (let cfgPath = (if config_path = [] then ''config/config.yaml'' else config_path)
      in case InitializeWorker env cfgPath of
           (Inl err, es) \<Rightarrow> (1, es @ [LoggedError ''init worker: '' (error_text err)])
         | (Inr app, es) \<Rightarrow>
            (case worker_Run app (wait app) of
               (Some err, es2) \<Rightarrow>
                 if \<not> errors_is err ContextCanceled
                 then (1, es @ [LoggedInfo ''worker starting''] @ es2 @ [LoggedError ''worker stopped'' (error_text err)])
                 else (0, es @ [LoggedInfo ''worker starting''] @ es2 @ [LoggedInfo ''worker exited cleanly''] @ wa_cleanup app)
             | (None, es2) \<Rightarrow>
                 (0, es @ [LoggedInfo ''worker starting''] @ es2 @ [LoggedInfo ''worker exited cleanly''] @ wa_cleanup app)))"

end
