(* ===== verification/KafkaDelivery.thy ===== *)
theory KafkaDelivery
  imports KafkaCorrect
begin

text \<open>
  What the commits of the consumer mean to the broker. Committing a record moves the group past every
  record of the same partition with a smaller offset, whether it was processed or not. This theory says
  exactly which records the loop of internal/platform/kafka/consumer.go loses that way, when the client
  goes on fetching where it stopped, as franz-go does within a session.
\<close>

section \<open>Turns and offsets\<close>

text \<open>
  For each completed turn the records that were polled, those put up for commit, and those whose
  commit the broker acknowledged. A commit that fails is only logged: it moves no offset.
\<close>

record kafka_turn =
  kt_polled :: "kgo_record list"
  kt_put :: "kgo_record list"
  kt_acked :: "kgo_record list"

fun acked_of :: "kafka_history \<Rightarrow> kgo_record list" where
  "acked_of [] = []"
| "acked_of (Committed rs None # t) = rs @ acked_of t"
| "acked_of (_ # t) = acked_of t"

lemma acked_committed: "set (acked_of t) \<subseteq> set (committed_of t)"
  by (induction t rule: acked_of.induct) auto

fun kafka_trace ::
  "kafka_env \<Rightarrow> kafka_handler \<Rightarrow> bool \<Rightarrow> bool \<Rightarrow> KafkaConsumerConfig \<Rightarrow> nat \<Rightarrow> kafka_history
     \<Rightarrow> kafka_turn list" where
  "kafka_trace env handle hp hb cfg 0 h = []"
| "kafka_trace env handle hp hb cfg (Suc n) h =
     (case kafka_consume_turn env handle hp hb cfg h of
        Inl r \<Rightarrow> []
      | Inr h' \<Rightarrow>
          \<lparr>kt_polled = snd (poll env h), kt_put = committed_of (drop (length h) h'),
           kt_acked = acked_of (drop (length h) h')\<rparr> # kafka_trace env handle hp hb cfg n h')"

definition same_partition :: "kgo_record \<Rightarrow> kgo_record \<Rightarrow> bool" where
  "same_partition a b \<longleftrightarrow> Topic a = Topic b \<and> Partition a = Partition b"

definition before :: "kgo_record \<Rightarrow> kgo_record \<Rightarrow> bool" where
  "before a b \<longleftrightarrow> (same_partition a b \<longrightarrow> Offset a < Offset b)"

text \<open>The client goes on where it stopped: in each partition the offsets only grow.\<close>

definition in_order :: "kafka_turn list \<Rightarrow> bool" where
  "in_order T \<longleftrightarrow> sorted_wrt before (concat (map kt_polled T))"

definition covered :: "kgo_record list \<Rightarrow> kgo_record \<Rightarrow> bool" where
  "covered cs r \<longleftrightarrow> list_ex (\<lambda>c. same_partition r c \<and> Offset r \<le> Offset c) cs"

definition skipped :: "kafka_turn \<Rightarrow> kgo_record list" where
  "skipped t = drop (length (kt_put t)) (kt_polled t)"

text \<open>
  Delivered, never put up for commit, and yet behind the group's offset, which only an acknowledged
  commit moves.
\<close>

definition lost :: "kafka_turn list \<Rightarrow> kgo_record \<Rightarrow> bool" where
  "lost T r \<longleftrightarrow>
     r \<in> set (concat (map kt_polled T)) \<and> r \<notin> set (concat (map kt_put T)) \<and> covered (concat (map kt_acked T)) r"

text \<open>Each turn puts up a prefix of what it polled, and what is acknowledged is of it.\<close>

definition prefixed :: "kafka_turn \<Rightarrow> bool" where
  "prefixed t \<longleftrightarrow> kt_put t = take (length (kt_put t)) (kt_polled t) \<and> set (kt_acked t) \<subseteq> set (kt_put t)"

section \<open>What a turn commits and handles\<close>

lemma consume_turn_split:
  assumes "kafka_consume_turn env handle hp hb cfg h = Inr h'" "handler_ok handle"
  shows "\<exists>t n. h' = h @ t \<and> committed_of t = take n (snd (poll env h))
    \<and> map fst (handled_of t) = take (Suc n) (snd (poll env h)) \<and> n \<le> length (snd (poll env h))"
proof -
  from consume_turn_batch [OF assms] obtain t n where
    t: "h' = h @ beats hb @ t @ commits env (h @ beats hb @ t) (take n (snd (poll env h)))"
    "batch_post cfg (snd (poll env h)) n t" by blast
  then show ?thesis
    by (intro exI [of _ "beats hb @ t @ commits env (h @ beats hb @ t) (take n (snd (poll env h)))"] exI [of _ n])
      (auto simp: hist_simps batch_post_def)
qed

lemma trace_prefixed:
  assumes "handler_ok handle" "t \<in> set (kafka_trace env handle hp hb cfg n h)"
  shows "prefixed t"
  using assms(2)
proof (induction n arbitrary: h)
  case (Suc n)
  show ?case
  proof (cases "kafka_consume_turn env handle hp hb cfg h")
    case (Inr h')
    from consume_turn_split [OF Inr assms(1)] obtain u m where
      u: "h' = h @ u" "committed_of u = take m (snd (poll env h))" "m \<le> length (snd (poll env h))" by auto
    from Suc.prems Inr consider "t = \<lparr>kt_polled = snd (poll env h), kt_put = committed_of (drop (length h) h'),
          kt_acked = acked_of (drop (length h) h')\<rparr>"
      | "t \<in> set (kafka_trace env handle hp hb cfg n h')" by auto
    then show ?thesis
    proof cases
      case 1
      then show ?thesis using u acked_committed [of u] by (simp add: prefixed_def)
    next
      case 2
      then show ?thesis by (rule Suc.IH)
    qed
  qed (use Suc.prems in simp)
qed simp

section \<open>Loss\<close>

lemma sorted_wrt_concat_nth:
  assumes "sorted_wrt R (concat xss)" "i < j" "j < length xss" "x \<in> set (xss ! i)" "y \<in> set (xss ! j)"
  shows "R x y"
proof -
  have "xss = take j xss @ xss ! j # drop (Suc j) xss" using assms(3) by (rule id_take_nth_drop)
  then have "concat xss = concat (take j xss) @ xss ! j @ concat (drop (Suc j) xss)"
    by (metis concat.simps(2) concat_append)
  with assms(1,5) have "\<forall>x \<in> set (concat (take j xss)). R x y" by (auto simp: sorted_wrt_append)
  moreover have "xss ! i \<in> set (take j xss)" using assms(2,3) by (auto simp: in_set_conv_nth)
  ultimately show ?thesis using assms(4) by auto
qed

lemma sorted_wrt_concat_in: "sorted_wrt R (concat xss) \<Longrightarrow> xs \<in> set xss \<Longrightarrow> sorted_wrt R xs"
  by (induction xss) (auto simp: sorted_wrt_append)

lemma sorted_wrt_take_drop:
  assumes "sorted_wrt R xs" "x \<in> set (take n xs)" "y \<in> set (drop n xs)"
  shows "R x y"
  using assms by (metis append_take_drop_id sorted_wrt_append)

lemma not_before_self: "\<not> before r r"
  by (simp add: before_def same_partition_def)

lemma committed_not_skipped:
  assumes "in_order T" "\<forall>t \<in> set T. prefixed t" "i < length T" "l < length T"
    and "c \<in> set (kt_put (T ! l))" "r \<in> set (skipped (T ! i))" "l \<le> i"
  shows "before c r"
proof -
  have s: "sorted_wrt before (concat (map kt_polled T))" using assms(1) by (simp add: in_order_def)
  have p: "kt_put (T ! l) = take (length (kt_put (T ! l))) (kt_polled (T ! l))" using assms(2,4) by (auto simp: prefixed_def)
  with assms(5) have c: "c \<in> set (kt_polled (T ! l))" by (metis in_set_takeD)
  have r: "r \<in> set (kt_polled (T ! i))" using assms(6) by (auto simp: skipped_def dest: in_set_dropD)
  show ?thesis
  proof (cases "l = i")
    case True
    have "sorted_wrt before (kt_polled (T ! i))" using s assms(3) by (auto intro: sorted_wrt_concat_in)
    then show ?thesis using assms(5,6) p True unfolding skipped_def by (metis sorted_wrt_take_drop)
  next
    case False
    then show ?thesis using sorted_wrt_concat_nth [OF s, of l i c r] assms(3,4,7) c r by simp
  qed
qed

lemma skipped_before_later:
  assumes "in_order T" "\<forall>t \<in> set T. prefixed t" "i < j" "j < length T"
    and "r \<in> set (kt_polled (T ! i))" "c \<in> set (kt_put (T ! j))"
  shows "before r c"
proof -
  have "kt_put (T ! j) = take (length (kt_put (T ! j))) (kt_polled (T ! j))" using assms(2,4) by (auto simp: prefixed_def)
  with assms(6) have "c \<in> set (kt_polled (T ! j))" by (metis in_set_takeD)
  then show ?thesis
    using sorted_wrt_concat_nth [of before "map kt_polled T" i j r c] assms(1,3-5) by (simp add: in_order_def)
qed

lemma in_concat_nth: "x \<in> set (concat (map f T)) \<longleftrightarrow> (\<exists>i < length T. x \<in> set (f (T ! i)))"
  by (auto simp: set_conv_nth [of T])

lemma lost_iff:
  assumes "in_order T" "\<forall>t \<in> set T. prefixed t"
  shows "lost T r \<longleftrightarrow>
    (\<exists>j < length T. \<exists>i < j. r \<in> set (skipped (T ! i)) \<and> list_ex (same_partition r) (kt_acked (T ! j)))"
proof
  assume l: "lost T r"
  then have "r \<in> set (concat (map kt_polled T))" by (simp only: lost_def)
  then obtain i where i: "i < length T" "r \<in> set (kt_polled (T ! i))" by (auto simp only: in_concat_nth)
  have "r \<notin> set (kt_put (T ! i))" using l i(1) by (auto simp: lost_def)
  moreover have "kt_put (T ! i) = take (length (kt_put (T ! i))) (kt_polled (T ! i))" using assms(2) i(1) by (auto simp: prefixed_def)
  ultimately have sk: "r \<in> set (skipped (T ! i))"
    using i(2) unfolding skipped_def by (metis Un_iff append_take_drop_id set_append)
  from l have "covered (concat (map kt_acked T)) r" by (simp add: lost_def)
  then obtain c where c: "c \<in> set (concat (map kt_acked T))" "same_partition r c" "Offset r \<le> Offset c"
    by (auto simp: covered_def list_ex_iff)
  then obtain j where j: "j < length T" "c \<in> set (kt_acked (T ! j))" by (auto simp only: in_concat_nth)
  then have put: "c \<in> set (kt_put (T ! j))" using assms(2) by (auto simp: prefixed_def)
  have "\<not> before c r" using c(2,3) by (auto simp: before_def same_partition_def)
  with committed_not_skipped [OF assms i(1) j(1) put sk] have "i < j" by fastforce
  then show "\<exists>j < length T. \<exists>i < j. r \<in> set (skipped (T ! i)) \<and> list_ex (same_partition r) (kt_acked (T ! j))"
    using sk j c(2) by (auto simp: list_ex_iff)
next
  assume "\<exists>j < length T. \<exists>i < j. r \<in> set (skipped (T ! i)) \<and> list_ex (same_partition r) (kt_acked (T ! j))"
  then obtain i j c where ij: "i < j" "j < length T" and r: "r \<in> set (skipped (T ! i))"
    and c: "c \<in> set (kt_acked (T ! j))" "same_partition r c" by (auto simp: list_ex_iff)
  have put: "c \<in> set (kt_put (T ! j))" using c(1) ij assms(2) by (auto simp: prefixed_def)
  from r have rp: "r \<in> set (kt_polled (T ! i))" by (auto simp: skipped_def dest: in_set_dropD)
  have "before r c" by (rule skipped_before_later [OF assms ij rp put])
  then have "covered (concat (map kt_acked T)) r"
    using c ij by (auto simp: covered_def list_ex_iff before_def intro!: bexI [of _ c] bexI [of _ "T ! j"])
  moreover have "r \<notin> set (concat (map kt_put T))"
  proof
    assume "r \<in> set (concat (map kt_put T))"
    then obtain l where l: "l < length T" "r \<in> set (kt_put (T ! l))" by (auto simp only: in_concat_nth)
    have "before r r"
    proof (cases "l \<le> i")
      case True
      then show ?thesis using committed_not_skipped [OF assms _ l(1) l(2) r] ij by simp
    next
      case False
      then show ?thesis using skipped_before_later [OF assms _ l(1) rp l(2)] by simp
    qed
    then show False by (simp add: not_before_self)
  qed
  moreover have "r \<in> set (concat (map kt_polled T))" using rp ij by (auto simp only: in_concat_nth intro: less_trans)
  ultimately show "lost T r" by (simp add: lost_def)
qed

text \<open>
  C3: which records the consumer loses. As long as the client goes on fetching where it stopped, a
  record that was delivered to it ends up behind the offset of its partition, as the acknowledged
  commits have moved it, without having been put up for commit itself, if and only if a batch was
  stopped at it or before it and a later turn had a commit with a record of its partition
  acknowledged. So nothing is lost while no handler is cancelled and no republish fails, and after a
  failed republish everything left of the batch is as soon as a later commit succeeds, although the
  loop means it to be fetched again.
\<close>
theorem kafka_lost_iff:
  assumes "handler_ok handle" "in_order (kafka_trace env handle hp hb cfg n h)"
  shows "lost (kafka_trace env handle hp hb cfg n h) r \<longleftrightarrow>
    (\<exists>j < length (kafka_trace env handle hp hb cfg n h). \<exists>i < j.
       r \<in> set (skipped (kafka_trace env handle hp hb cfg n h ! i))
       \<and> list_ex (same_partition r) (kt_acked (kafka_trace env handle hp hb cfg n h ! j)))"
  using lost_iff [OF assms(2)] trace_prefixed [OF assms(1)] by simp

text \<open>Only the record the batch was stopped at was handled; those after it were not even looked at.\<close>

lemma skipped_unhandled:
  assumes "kafka_consume_turn env handle hp hb cfg h = Inr h'" "handler_ok handle" "distinct (snd (poll env h))"
    and "r \<in> set (tl (drop (length (committed_of (drop (length h) h'))) (snd (poll env h))))"
  shows "r \<notin> fst ` set (handled_of (drop (length h) h'))"
proof -
  from consume_turn_split [OF assms(1,2)] obtain t n where t: "h' = h @ t" "committed_of t = take n (snd (poll env h))"
    "map fst (handled_of t) = take (Suc n) (snd (poll env h))" "n \<le> length (snd (poll env h))" by blast
  then have "r \<in> set (drop (Suc n) (snd (poll env h)))" using assms(4) by (simp add: drop_Suc tl_drop)
  moreover have "fst ` set (handled_of (drop (length h) h')) = set (take (Suc n) (snd (poll env h)))"
    using t(1,3) by (metis append_eq_conv_conj list.set_map)
  ultimately show ?thesis using assms(3) by (metis disjoint_iff set_take_disj_set_drop_if_distinct order_refl)
qed

text \<open>A handler that never fails has every batch committed whole, and nothing is lost.\<close>

lemma batch_never_failing:
  assumes "\<And>h r. fst (handle h r) = None"
  shows "fst (kafka_process_batch env handle hp cfg cs rs h) = cs @ rs"
proof (induction rs arbitrary: cs h)
  case (Cons r rs)
  have "fst (kafka_process_record env handle hp cfg r h)"
    using assms [of h r] by (cases "handle h r") (simp add: kafka_process_record_def)
  then obtain h' where "kafka_process_record env handle hp cfg r h = (True, h')"
    by (metis prod.collapse)
  then show ?case using Cons.IH by simp
qed simp

lemma turn_never_failing:
  assumes "kafka_consume_turn env handle hp hb cfg h = Inr h'" "handler_ok handle" "\<And>h r. fst (handle h r) = None"
  shows "committed_of (drop (length h) h') = snd (poll env h)"
proof -
  let ?rs = "snd (poll env h)"
  obtain h2 where b: "kafka_process_batch env handle hp cfg [] ?rs (h @ beats hb) = (?rs, h2)"
    using batch_never_failing [of handle env hp cfg "[]" ?rs "h @ beats hb"] assms(3) by (metis append_Nil prod.collapse)
  from process_batch_history [OF b assms(2)] obtain t m where
    "h2 = (h @ beats hb) @ t" "batch_post cfg ?rs m t" by auto
  with consume_turn_shape [OF assms(1) b] show ?thesis by (simp add: hist_simps batch_post_def)
qed

lemma trace_never_failing:
  assumes "handler_ok handle" "\<And>h r. fst (handle h r) = None"
  shows "list_all (\<lambda>t. kt_put t = kt_polled t) (kafka_trace env handle hp hb cfg n h)"
proof (induction n arbitrary: h)
  case (Suc n)
  show ?case
  proof (cases "kafka_consume_turn env handle hp hb cfg h")
    case (Inr h')
    from turn_never_failing [OF this assms] Inr Suc.IH [of h'] show ?thesis by simp
  qed simp
qed simp

lemma nothing_lost: "list_all (\<lambda>t. kt_put t = kt_polled t) T \<Longrightarrow> \<not> lost T r"
  by (auto simp: lost_def list_all_iff)

section \<open>A lost record\<close>

text \<open>
  A broker that accepts no message: the first batch stops at its failing record, the second poll goes on
  after the batch and its record is committed.
\<close>

definition offset_record :: "string \<Rightarrow> int \<Rightarrow> kgo_record" where
  "offset_record v k = (sample_record v)\<lparr>Offset := k\<rparr>"

definition refusing_env :: kafka_env where
  "refusing_env =
     \<lparr>produce = (\<lambda>h r. Some (NewError ''down'')), new_uuid = (\<lambda>h. ''u''), inject = (\<lambda>h b. []),
      ctx_err = (\<lambda>h. None), wait_timer = (\<lambda>h d. None),
      poll = (\<lambda>h. ([], if h = [] then [offset_record ''bad'' 0, offset_record ''ok'' 1] else [offset_record ''ok'' 2])),
      commit_records = (\<lambda>h rs. None)\<rparr>"

theorem kafka_lost_iff_witness:
  "lost (kafka_trace refusing_env sample_handler True True sample_cfg 2 []) (offset_record ''bad'' 0)
   \<and> lost (kafka_trace refusing_env sample_handler True True sample_cfg 2 []) (offset_record ''ok'' 1)"
proof -
  have t: "kafka_trace refusing_env sample_handler True True sample_cfg 2 [] =
      [\<lparr>kt_polled = [offset_record ''bad'' 0, offset_record ''ok'' 1], kt_put = [], kt_acked = []\<rparr>,
       \<lparr>kt_polled = [offset_record ''ok'' 2], kt_put = [offset_record ''ok'' 2], kt_acked = [offset_record ''ok'' 2]\<rparr>]"
    by code_simp
  have "in_order (kafka_trace refusing_env sample_handler True True sample_cfg 2 [])" unfolding t by code_simp
  note l = kafka_lost_iff [OF sample_handler_ok this]
  show ?thesis unfolding l unfolding t
    by (intro conjI exI [of _ "1::nat"] exI [of _ "0::nat"]) (simp_all add: skipped_def same_partition_def offset_record_def sample_record_def)
qed

end
