(* ===== verification/WorkerCorrect.thy ===== *)
theory WorkerCorrect
  imports WorkerProgram KafkaDelivery
begin

text \<open>
  cmd/worker: what the providers open is closed, what the group of consumers returns, what the
  health registry shows of a worker without an SQS handler, and what the retry client consumes.
\<close>

section \<open>Start and stop\<close>

lemma undone_client: "undone (provide_client env c opts)"
  by (auto simp: undone_def provide_client_def release_def intro!: exI [of _ "[HeldClient c]"] split: option.splits)

interpretation main_consumer_provider: provider "ProvideMainConsumer env" for env
  by unfold_locales (simp add: ProvideMainConsumer_def undone_client)

interpretation retry_consumer_provider: provider "ProvideRetryConsumer env" for env
  by unfold_locales (simp add: ProvideRetryConsumer_def undone_client)

interpretation producer_provider: provider "ProvideProducerClient env" for env
  by unfold_locales (simp add: ProvideProducerClient_def undone_client)

interpretation sqs_provider: provider "ProvideSQSClient env" for env
  by unfold_locales
    (auto simp: undone_def ProvideSQSClient_def intro!: exI [of _ "[]"] split: sum.splits)

definition worker_providers :: "app_env \<Rightarrow> Config \<Rightarrow> provided list" where
  "worker_providers env cfg =
     [ProvideMainConsumer env (cfg_Kafka cfg), ProvideRetryConsumer env (cfg_Kafka cfg),
      ProvideProducerClient env (cfg_Kafka cfg), ProvideSQSClient env (cfg_SQS cfg),
      ProvideObservability env (cfg_Observability cfg)]"

lemma worker_providers_undone: "\<forall>p \<in> set (worker_providers env cfg). undone p"
  by (simp add: worker_providers_def main_consumer_provider.leaves_nothing retry_consumer_provider.leaves_nothing
      producer_provider.leaves_nothing sqs_provider.leaves_nothing otel_provider.leaves_nothing)

definition worker_started :: "go_error option \<times> app_event list \<times> app_event list \<Rightarrow> (go_error + WorkerApp) \<times> app_event list \<Rightarrow> Config \<Rightarrow> bool" where
  "worker_started a w cfg =
     (case w of
        (Inl err, es) \<Rightarrow> a = (Some err, es, [])
      | (Inr app, es) \<Rightarrow> a = (None, es, wa_cleanup app) \<and> wa_Config app = cfg \<and> wa_SQSHandler app = ProvideSQSHandler)"

lemma InitializeWorker_acquire:
  assumes "ae_load env cfgPath = Inr cfg"
  shows "worker_started (acquire (worker_providers env cfg) []) (InitializeWorker env cfgPath) cfg"
proof -
  obtain r1 es1 c1 where p1: "ProvideMainConsumer env (cfg_Kafka cfg) = (r1, es1, c1)" by (metis prod_cases3)
  obtain r2 es2 c2 where p2: "ProvideRetryConsumer env (cfg_Kafka cfg) = (r2, es2, c2)" by (metis prod_cases3)
  obtain r3 es3 c3 where p3: "ProvideProducerClient env (cfg_Kafka cfg) = (r3, es3, c3)" by (metis prod_cases3)
  obtain r4 es4 c4 where p4: "ProvideSQSClient env (cfg_SQS cfg) = (r4, es4, c4)" by (metis prod_cases3)
  obtain r5 es5 c5 where p5: "ProvideObservability env (cfg_Observability cfg) = (r5, es5, c5)" by (metis prod_cases3)
  note ps = p1 p2 p3 p4 p5
  show ?thesis
    by (cases r1; cases r2; cases r3; cases r4; cases r5)
      (simp_all add: worker_started_def worker_providers_def InitializeWorker_def assms ps)
qed

lemma InitializeWorker_released:
  "case InitializeWorker env cfgPath of
     (Inl err, es) \<Rightarrow> held_after [] es = Some []
   | (Inr app, es) \<Rightarrow> held_after [] (es @ wa_cleanup app) = Some []"
proof (cases "ae_load env cfgPath")
  case (Inl e)
  then show ?thesis by (simp add: InitializeWorker_def)
next
  case (Inr cfg)
  obtain r es held where a: "acquire (worker_providers env cfg) [] = (r, es, held)" by (metis prod_cases3)
  have "held_after [] (es @ held) = Some [] \<and> (r \<noteq> None \<longrightarrow> held = [])"
    using acquire_releases [OF worker_providers_undone, of "[]" "[]" env cfg] a by simp
  with InitializeWorker_acquire [OF Inr] a show ?thesis
    by (auto simp: worker_started_def split: prod.splits sum.splits)
qed

section \<open>The contract of a consumer\<close>

text \<open>
  What the group relies on: a consumer whose context can only be cancelled returns nothing but a
  cancellation, it returns once the context is done, and more turns do not change what it returned.
\<close>

locale group_consumer =
  fixes run :: "'x \<Rightarrow> nat \<Rightarrow> go_error option"
    and cancels :: "'x \<Rightarrow> bool"
    and done_after :: "'x \<Rightarrow> nat \<Rightarrow> bool"
  assumes returns_cancel: "cancels x \<Longrightarrow> run x n = Some e \<Longrightarrow> errors_is e ContextCanceled"
    and stops: "done_after x n \<Longrightarrow> run x (Suc n) \<noteq> None"
    and stays: "run x n = Some e \<Longrightarrow> n \<le> k \<Longrightarrow> run x k = Some e"
begin

lemma one_result: "run x n = Some e \<Longrightarrow> run x k = Some e' \<Longrightarrow> e = e'"
  using stays [of x n e k] stays [of x k e' n] by (cases "n \<le> k") auto

lemma group_err:
  "group_reach (\<lambda>t. run (f t)) ts rem err \<Longrightarrow> \<forall>t \<in> set ts. cancels (f t) \<Longrightarrow>
     set rem \<subseteq> set ts \<and> length rem \<le> length ts \<and> (err = None \<longleftrightarrow> length rem = length ts)
     \<and> (\<forall>e. err = Some e \<longrightarrow> errors_is e ContextCanceled)"
proof (induction rule: group_reach.induct)
  case (finish a t b err fuel e)
  then show ?case using returns_cancel [of "f t" fuel e] by (cases err) auto
qed simp

lemma group_drains:
  "group_reach (\<lambda>t. run (f t)) ts rem err \<Longrightarrow> \<forall>t \<in> set rem. \<exists>n. done_after (f t) n \<Longrightarrow>
     \<exists>err. group_reach (\<lambda>t. run (f t)) ts [] err"
proof (induction rem arbitrary: err)
  case (Cons t rem)
  then obtain n where "done_after (f t) n" by auto
  then obtain e where "run (f t) (Suc n) = Some e" using stops by blast
  from group_reach.finish [where a = "[]" and t = t and b = rem and fuel = "Suc n", of "\<lambda>t. run (f t)" ts err e]
    Cons.prems(1) this
  have "group_reach (\<lambda>t. run (f t)) ts rem (if err = None then Some e else err)" by simp
  from Cons.IH [OF this] Cons.prems(2) show ?case by simp
qed auto

end

definition kafka_cancels :: "kafka_env \<Rightarrow> bool" where
  "kafka_cancels env \<longleftrightarrow> (\<forall>h e. ctx_err env h = Some e \<longrightarrow> errors_is e ContextCanceled)"

definition kafka_done_after :: "kafka_env \<Rightarrow> nat \<Rightarrow> bool" where
  "kafka_done_after env n \<longleftrightarrow> (\<forall>h. n \<le> length h \<longrightarrow> ctx_err env h \<noteq> None)"

definition sqs_cancels :: "sqs_env \<Rightarrow> bool" where
  "sqs_cancels env \<longleftrightarrow>
     (\<forall>h e. sqs_ctx_err env h = Some e \<longrightarrow> errors_is e ContextCanceled)
     \<and> (\<forall>h d e. sqs_wait env h d = Some e \<longrightarrow> errors_is e ContextCanceled)"

definition sqs_done_after :: "sqs_env \<Rightarrow> nat \<Rightarrow> bool" where
  "sqs_done_after env n \<longleftrightarrow> (\<forall>h. n \<le> length h \<longrightarrow> sqs_ctx_err env h \<noteq> None)"

lemma kafka_loop_stays:
  "kafka_consume_loop env handle hp hb cfg n h = Some r \<Longrightarrow> n \<le> k \<Longrightarrow> kafka_consume_loop env handle hp hb cfg k h = Some r"
proof (induction n arbitrary: h k)
  case (Suc n)
  then show ?case by (cases k) (auto split: sum.splits)
qed simp

lemma sqs_loop_stays:
  "sqs_consume_loop env handle hp hb cfg n h = Some r \<Longrightarrow> n \<le> k \<Longrightarrow> sqs_consume_loop env handle hp hb cfg k h = Some r"
proof (induction n arbitrary: h k)
  case (Suc n)
  then show ?case by (cases k) (auto split: sum.splits)
qed simp

lemma kafka_returns_cancel:
  assumes "kafka_cancels env" "kafka_Consume env handle opts n h = Some (e, h')"
  shows "errors_is e ContextCanceled"
proof -
  from assms(2) obtain h1 where "kafka_consume_loop env handle (ko_Producer opts) (ko_Heartbeat opts)
      (kafka_consumer_defaults (ko_Consumer opts)) n h = Some (e, h1)"
    by (auto simp: kafka_Consume_def)
  from consume_loop_return [OF this] assms(1) show ?thesis by (auto simp: kafka_cancels_def)
qed

lemma kafka_stops:
  "handler_ok handle \<Longrightarrow> kafka_done_after env n \<Longrightarrow> \<exists>e h'. kafka_Consume env handle opts (Suc n) h = Some (e, h')"
  unfolding kafka_done_after_def using kafka_consume_returns [of handle n env opts h] by blast

lemma sqs_returns_cancel:
  assumes "sqs_handler_ok handle" "sqs_cancels env" "sqs_Consume env handle opts n h = Some (e, h')"
  shows "errors_is e ContextCanceled"
proof -
  from assms(3) obtain h1 where "sqs_consume_loop env handle (co_Producer opts) (co_Heartbeat opts)
      (defaultsForConsumer (co_Consumer opts)) n h = Some (e, h1)"
    by (auto simp: sqs_Consume_def)
  from sqs_loop_return [OF assms(1) this] assms(2) show ?thesis by (auto simp: sqs_cancels_def)
qed

lemma sqs_stops:
  "sqs_handler_ok handle \<Longrightarrow> sqs_done_after env n \<Longrightarrow> \<exists>e h'. sqs_Consume env handle opts (Suc n) h = Some (e, h')"
  unfolding sqs_Consume_def sqs_done_after_def
  using sqs_loop_enough [of handle n env h n "co_Producer opts" "co_Heartbeat opts" "defaultsForConsumer (co_Consumer opts)"]
  by force

lemma kafka_Consume_stays:
  assumes "kafka_Consume env handle opts n h = Some r" "n \<le> k"
  shows "kafka_Consume env handle opts k h = Some r"
proof -
  let ?run = "\<lambda>n. kafka_consume_loop env handle (ko_Producer opts) (ko_Heartbeat opts) (kafka_consumer_defaults (ko_Consumer opts)) n h"
  from assms(1) obtain x where "?run n = Some x" by (auto simp: kafka_Consume_def)
  moreover from kafka_loop_stays [OF this assms(2)] have "?run k = Some x" .
  ultimately show ?thesis using assms(1) by (simp add: kafka_Consume_def)
qed

lemma sqs_Consume_stays:
  assumes "sqs_Consume env handle opts n h = Some r" "n \<le> k"
  shows "sqs_Consume env handle opts k h = Some r"
proof -
  let ?run = "\<lambda>n. sqs_consume_loop env handle (co_Producer opts) (co_Heartbeat opts) (defaultsForConsumer (co_Consumer opts)) n h"
  from assms(1) obtain x where "?run n = Some x" by (auto simp: sqs_Consume_def)
  moreover from sqs_loop_stays [OF this assms(2)] have "?run k = Some x" .
  ultimately show ?thesis using assms(1) by (simp add: sqs_Consume_def)
qed

lemma message_handler_ok: "handler_ok ProvideMessageHandler"
  by (simp add: handler_ok_def ProvideMessageHandler_def)

lemma sqs_retry_handler_ok: "sqs_handler_ok (sqs_retry_handler env mainURL)"
  by (auto simp: sqs_handler_ok_def sqs_retry_handler_def sqs_Publish_def Let_def split: option.splits)

lemma message_handler_never_fails: "fst (ProvideMessageHandler h r) = None"
  by (simp add: ProvideMessageHandler_def EventHandler_Handle_def)

lemma message_batch:
  "kafka_process_batch env ProvideMessageHandler hp cfg cs rs h = (cs @ rs, h @ map (\<lambda>r. Handled r None) rs)"
proof (induction rs arbitrary: cs h)
  case (Cons r rs)
  have "kafka_process_record env ProvideMessageHandler hp cfg r h = (True, h @ [Handled r None])"
    by (simp add: kafka_process_record_def ProvideMessageHandler_def EventHandler_Handle_def)
  then show ?case using Cons.IH by simp
qed simp

text \<open>
  C8: the worker as it ships loses no event. A turn of its main consumer that goes round again polls,
  beats, hands each record that was polled to the handler once, in order, each time with success, and
  then puts exactly these records up for commit; this is all it does. And whatever the broker and the
  producer answer, and however many turns are made, no record is passed over.
\<close>
theorem worker_loses_nothing:
  assumes "cfg' = kafka_consumer_defaults (kafka_Consumer (cfg_Kafka cfg))"
  shows "(kafka_consume_turn env ProvideMessageHandler True True cfg' h = Inr h' \<longrightarrow>
      h' = h @ [Polled, Heartbeat] @ map (\<lambda>r. Handled r None) (snd (poll env h))
           @ commits env (h @ [Polled, Heartbeat] @ map (\<lambda>r. Handled r None) (snd (poll env h))) (snd (poll env h)))
    \<and> list_all (\<lambda>t. kt_put t = kt_polled t) (kafka_trace env ProvideMessageHandler True True cfg' n h0)
    \<and> \<not> lost (kafka_trace env ProvideMessageHandler True True cfg' n h0) r"
proof -
  have "kafka_process_batch env ProvideMessageHandler True cfg' [] (snd (poll env h)) (h @ beats True)
      = (snd (poll env h), (h @ [Polled, Heartbeat]) @ map (\<lambda>r. Handled r None) (snd (poll env h)))"
    by (simp add: message_batch beats_def)
  from consume_turn_shape [OF _ this] show ?thesis
    using trace_never_failing [OF message_handler_ok message_handler_never_fails] nothing_lost by auto
qed

text \<open>The error of a result; the facts a consumer's laws need of it.\<close>

lemma map_fst_Some: "map_option fst r = Some e \<Longrightarrow> \<exists>h. r = Some (e, h)"
  by auto

lemmas kafka_laws = kafka_returns_cancel kafka_stops [OF message_handler_ok] kafka_stops [OF retry_handler_ok] kafka_Consume_stays

interpretation kafka_main: group_consumer "kafka_main_run cfg" kafka_cancels kafka_done_after for cfg
  unfolding kafka_main_run_def
  by unfold_locales (auto dest!: map_fst_Some dest: kafka_laws)

interpretation kafka_retry: group_consumer "kafka_retry_run cfg" kafka_cancels kafka_done_after for cfg
  unfolding kafka_retry_run_def kafka_ConsumeRetry_def Let_def
  by unfold_locales (auto dest!: map_fst_Some dest: kafka_laws)

interpretation sqs_main: group_consumer "sqs_main_run cfg"
    "\<lambda>(handle, env). sqs_handler_ok handle \<and> sqs_cancels env" "\<lambda>(handle, env) n. sqs_handler_ok handle \<and> sqs_done_after env n" for cfg
  unfolding sqs_main_run_def
  by unfold_locales (auto dest!: map_fst_Some intro: sqs_stops dest: sqs_returns_cancel sqs_Consume_stays)

interpretation sqs_retry: group_consumer "sqs_retry_run cfg" sqs_cancels sqs_done_after for cfg
  unfolding sqs_retry_run_def sqs_ConsumeRetry_def Let_def split_def
  by unfold_locales (auto dest!: map_fst_Some intro: sqs_stops [OF sqs_retry_handler_ok] dest: sqs_returns_cancel [OF sqs_retry_handler_ok] sqs_Consume_stays)

section \<open>The group\<close>

definition task_cancels :: "sqs_handler option \<Rightarrow> worker_env \<Rightarrow> worker_task \<Rightarrow> bool" where
  "task_cancels handler env t =
     (case t of
        KafkaMain \<Rightarrow> kafka_cancels (we_kafka_main env)
      | KafkaRetryTask \<Rightarrow> kafka_cancels (we_kafka_retry env)
      | SqsMain \<Rightarrow> (case handler of None \<Rightarrow> False | Some h \<Rightarrow> sqs_handler_ok h \<and> sqs_cancels (we_sqs_main env))
      | SqsRetryTask \<Rightarrow> sqs_cancels (we_sqs_retry env))"

definition task_done_after :: "sqs_handler option \<Rightarrow> worker_env \<Rightarrow> worker_task \<Rightarrow> nat \<Rightarrow> bool" where
  "task_done_after handler env t n =
     (case t of
        KafkaMain \<Rightarrow> kafka_done_after (we_kafka_main env) n
      | KafkaRetryTask \<Rightarrow> kafka_done_after (we_kafka_retry env) n
      | SqsMain \<Rightarrow> (case handler of None \<Rightarrow> False | Some h \<Rightarrow> sqs_handler_ok h \<and> sqs_done_after (we_sqs_main env) n)
      | SqsRetryTask \<Rightarrow> sqs_done_after (we_sqs_retry env) n)"

interpretation worker_group: group_consumer "worker_task_run cfg handler env" "task_cancels handler env"
    "task_done_after handler env" for cfg handler env
proof
  show "errors_is e ContextCanceled" if "task_cancels handler env t" "worker_task_run cfg handler env t n = Some e" for t n e
    using that
    by (cases t) (auto simp: task_cancels_def worker_task_run_def split: option.splits
        dest: kafka_main.returns_cancel kafka_retry.returns_cancel sqs_main.returns_cancel [rotated] sqs_retry.returns_cancel)
  show "worker_task_run cfg handler env t (Suc n) \<noteq> None" if "task_done_after handler env t n" for t n
    using that
    by (cases t) (simp_all add: task_done_after_def worker_task_run_def kafka_main.stops kafka_retry.stops sqs_main.stops
        sqs_retry.stops del: not_None_eq split: option.splits)
  show "worker_task_run cfg handler env t k = Some e" if "worker_task_run cfg handler env t n = Some e" "n \<le> k" for t n k e
    using that
    by (cases t) (auto simp: worker_task_run_def split: option.splits
        intro: kafka_main.stays kafka_retry.stays sqs_main.stays sqs_retry.stays)
qed

text \<open>
  C7: once the context of the group is done, every consumer still running returns: if each one's
  context is done after \<open>n\<close> events, \<open>n + 1\<close> turns of its loop are enough, whatever the brokers,
  the records and the handlers do; and from wherever the group is, \<open>Wait\<close> can return.
\<close>

theorem worker_group_stops:
  assumes "\<forall>t \<in> set (worker_tasks cfg handler). task_done_after handler env t n"
    and "group_reach (worker_task_run cfg handler env) (worker_tasks cfg handler) rem err"
    and "\<forall>t \<in> set (worker_tasks cfg handler). task_cancels handler env t"
  shows "(\<forall>t \<in> set rem. worker_task_run cfg handler env t (Suc n) \<noteq> None)
    \<and> (\<exists>e. group_reach (worker_task_run cfg handler env) (worker_tasks cfg handler) [] (Some e) \<and> errors_is e ContextCanceled)"
proof -
  note inv = worker_group.group_err [where f = "\<lambda>t. t" and cfg = cfg and handler = handler and env = env
      and ts = "worker_tasks cfg handler"]
  from inv [OF assms(2,3)] have rem: "set rem \<subseteq> set (worker_tasks cfg handler)" by blast
  with assms(1) have stop: "\<forall>t \<in> set rem. worker_task_run cfg handler env t (Suc n) \<noteq> None"
    using worker_group.stops by blast
  have "\<forall>t \<in> set rem. \<exists>n. task_done_after handler env t n" using rem assms(1) by blast
  from worker_group.group_drains [where f = "\<lambda>t. t", OF assms(2) this] obtain w where
    w: "group_reach (worker_task_run cfg handler env) (worker_tasks cfg handler) [] w" by blast
  with inv [OF w assms(3)] have "\<exists>e. w = Some e \<and> errors_is e ContextCanceled"
    by (cases w) (auto simp: worker_tasks_def)
  with stop w show ?thesis by blast
qed

text \<open>
  C6: whatever the consumers do and in whatever order they return, what \<open>Wait\<close> returns is a
  cancellation, so a worker that started exits with status 0 and closes everything: no failure
  of a broker ever ends the group.
\<close>

theorem worker_exits_zero:
  assumes "InitializeWorker env cfgPath = (Inr app, es)" "cfgPath \<noteq> []"
    and "\<forall>t \<in> set (worker_tasks (wa_Config app) (wa_SQSHandler app)). task_cancels (wa_SQSHandler app) wenv t"
    and "group_reach (worker_task_run (wa_Config app) (wa_SQSHandler app) wenv)
           (worker_tasks (wa_Config app) (wa_SQSHandler app)) [] waited"
  shows "\<exists>es' e. worker_main env cfgPath (\<lambda>_. waited) = (0, es') \<and> held_after [] es' = Some []
    \<and> waited = Some e \<and> errors_is e ContextCanceled"
proof -
  from worker_group.group_err [where f = "\<lambda>t. t", OF assms(4,3)] obtain e where
    e: "waited = Some e" "errors_is e ContextCanceled"
    by (cases waited) (auto simp: worker_tasks_def)
  have rel: "held_after [] (es @ wa_cleanup app) = Some []"
    using InitializeWorker_released [of env cfgPath] assms(1) by simp
  then obtain hs where hs: "held_after [] es = Some hs" "held_after hs (wa_cleanup app) = Some []"
    by (auto simp: held_after_append bind_eq_Some_conv)
  from assms(1,2) e hs show ?thesis
    by (auto simp: worker_main_def worker_Run_def Let_def held_after_append split: option.splits)
qed

text \<open>
  C33: the worker gives back the clients and the telemetry providers it opened, exactly once, when
  starting fails at any point and when it exits cleanly; only a failure that is not a
  cancellation, which ends it with status 1, leaves everything open.
\<close>

theorem worker_releases:
  assumes "worker_main env path wait = (status, es)"
  shows "case InitializeWorker env (if path = [] then ''config/config.yaml'' else path) of
      (Inl err, _) \<Rightarrow> status = 1 \<and> held_after [] es = Some []
    | (Inr app, es0) \<Rightarrow>
        if \<exists>e. wait app = Some e \<and> \<not> errors_is e ContextCanceled
        then status = 1 \<and> held_after [] es = held_after [] es0
        else status = 0 \<and> held_after [] es = Some []"
proof -
  obtain r es0 where i: "InitializeWorker env (if path = [] then ''config/config.yaml'' else path) = (r, es0)" by fastforce
  note rel = InitializeWorker_released [of env "if path = [] then ''config/config.yaml'' else path", unfolded i]
  show ?thesis
  proof (cases r)
    case (Inl e)
    with assms i rel show ?thesis by (auto simp: worker_main_def held_after_append)
  next
    case (Inr app)
    then obtain hs where "held_after [] es0 = Some hs" "held_after hs (wa_cleanup app) = Some []"
      using rel by (auto simp: held_after_append bind_eq_Some_conv)
    with assms i Inr show ?thesis
      by (auto simp: worker_main_def worker_Run_def Let_def held_after_append split: option.splits if_splits)
  qed
qed

text \<open>
  C11: the generated initialiser is the reference one: it acquires the main, retry and producer
  clients, the SQS client and telemetry in this order, and on a failure runs exactly the cleanups
  of those acquired before, the last first.
\<close>

theorem worker_init_acquires:
  "case ae_load env cfgPath of
     Inl err \<Rightarrow> InitializeWorker env cfgPath = (Inl err, [])
   | Inr cfg \<Rightarrow> worker_started (acquire (worker_providers env cfg) []) (InitializeWorker env cfgPath) cfg"
  using InitializeWorker_acquire by (auto simp: InitializeWorker_def split: sum.splits)

section \<open>The retry path between the clients\<close>

lemma retry_consumer_topic:
  assumes "\<not> has_suffix (kafka_Topic k) (kc_RetrySuffix (kafka_consumer_defaults (kafka_Consumer k)))"
  shows "kafka_Topic k @ (if kc_RetrySuffix (kafka_Consumer k) = [] then ''.retry'' else kc_RetrySuffix (kafka_Consumer k))
    = destTopic (kafka_Topic k) (kafka_consumer_defaults (kafka_Consumer k)) False"
  using assms by (simp add: destTopic_def Let_def trim_suffix_def kafka_consumer_defaults_def)

lemma retry_defaults_suffix [simp]: "kc_RetrySuffix (kafka_retry_defaults cfg) = kc_RetrySuffix cfg"
  by (simp add: kafka_retry_defaults_def Let_def)

text \<open>
  C32: the retry client consumes, under a group of its own, exactly the topic the main consumer
  sends its retries to, unless the topic's name already ends with the suffix; and what the retry
  consumer's handler publishes goes to the topic the main client consumes if the suffix is
  configured. If it is left empty, for the default, it goes back to the retry topic, which the
  main client does not consume.
\<close>

theorem worker_retry_wiring:
  assumes "\<not> has_suffix (kafka_Topic k) (kc_RetrySuffix (kafka_consumer_defaults (kafka_Consumer k)))"
    and "retry = destTopic (kafka_Topic k) (kafka_consumer_defaults (kafka_Consumer k)) False" "Topic r = retry"
    and "kafka_retry_handler env (kafka_retry_defaults (kafka_Consumer k)) h r = (e, h @ t)"
    and "(q, x) \<in> set (produced_of t)" "trace_writes env"
  shows "retry_consumer_opts k = kafka_NewConsumerForTopics k (kafka_GroupID k @ ''-retry'') [retry]
    \<and> kafka_GroupID k @ ''-retry'' \<noteq> kafka_GroupID k
    \<and> (kc_RetrySuffix (kafka_Consumer k) \<noteq> [] \<longrightarrow> ConsumeTopics [Topic q] \<in> set (kafka_NewConsumer k))
    \<and> (kc_RetrySuffix (kafka_Consumer k) = [] \<longrightarrow>
         Topic q = retry \<and> (\<forall>ts. ConsumeTopics ts \<in> set (kafka_NewConsumer k) \<longrightarrow> Topic q \<notin> set ts))"
proof -
  let ?s = "kc_RetrySuffix (kafka_Consumer k)"
  have retry: "retry = kafka_Topic k @ (if ?s = [] then ''.retry'' else ?s)"
    using retry_consumer_topic [OF assms(1)] assms(2) by simp
  have q: "Topic q = trim_suffix retry ?s"
    using retry_handler_count(2) [OF assms(4-6)] assms(3) by simp
  show ?thesis
    using q by (simp add: retry retry_consumer_opts_def kafka_NewConsumer_def kafka_NewConsumerForTopics_def Let_def)
qed

section \<open>A worker without an SQS handler\<close>

text \<open>The refresher: the first round at once, one more at every tick.\<close>

fun refresher_rounds :: "(health_history \<Rightarrow> int) \<Rightarrow> nat \<Rightarrow> Registry \<Rightarrow> health_history \<Rightarrow> (Registry \<times> health_history) option" where
  "refresher_rounds now 0 r h = Some (r, h)"
| "refresher_rounds now (Suc n) r h =
     (case runAll now r h of None \<Rightarrow> None | Some (r', h') \<Rightarrow> refresher_rounds now n r' h')"

definition sqs_stale :: "(health_history \<Rightarrow> int) \<Rightarrow> (health_history \<Rightarrow> KafkaChecker) \<Rightarrow> nat \<Rightarrow> Registry \<Rightarrow> bool" where
  "sqs_stale now k n r \<longleftrightarrow>
     reg_checkers r = [KafkaChecker_checker now k, SQSChecker_checker now (\<lambda>h. ProvideSQSChecker)]
     \<and> (\<exists>a b. reg_results r = [(''kafka'', a), (''sqs'', b)]
          \<and> res_Severity a = SeverityDegraded \<and> res_Severity b = SeverityDegraded \<and> res_Name b = ''sqs''
          \<and> res_ConsecutiveFails b = int n
          \<and> (0 < n \<longrightarrow> res_Err b = Some (NewError ''sqs: no poll observed yet'')))"

lemma sqs_never_polled: "SQSChecker_Check t ProvideSQSChecker = Some (NewError ''sqs: no poll observed yet'')"
  by (simp add: SQSChecker_Check_def ProvideSQSChecker_def NewSQSChecker_def Let_def)

lemma sqs_stale_step:
  assumes "sqs_stale now k n r" "int (Suc n) < 2 ^ 63"
  shows "\<exists>r' h'. runAll now r h = Some (r', h') \<and> sqs_stale now k (Suc n) r'"
proof -
  have w: "wrap64 (int n + 1) = int n + 1" using assms(2) by (simp add: int64_range_def)
  with assms(1) show ?thesis
    by (auto simp: sqs_stale_def runAll_def run_check_def KafkaChecker_checker_def SQSChecker_checker_def
        sqs_never_polled Let_def)
qed

lemma sqs_stale_rounds:
  "sqs_stale now k n r \<Longrightarrow> int (n + m) < 2 ^ 63 \<Longrightarrow>
     \<exists>r' h'. refresher_rounds now m r h = Some (r', h') \<and> sqs_stale now k (n + m) r'"
proof (induction m arbitrary: n r h)
  case (Suc m)
  have "int (Suc n) < 2 ^ 63" using Suc.prems(2) by simp
  from sqs_stale_step [OF Suc.prems(1) this] obtain r1 h1 where
    "runAll now r h = Some (r1, h1)" "sqs_stale now k (Suc n) r1" by blast
  with Suc.IH [of "Suc n" r1 h1] Suc.prems(2) show ?case by simp
qed simp

text \<open>
  C34: with a queue configured but no handler provided, as the template ships, the worker starts
  no SQS consumer, so nothing beats the SQS checker; yet it is registered, so every round of
  checks reports it as failing, for ever, while readiness stays 200.
\<close>

theorem worker_sqs_degraded:
  assumes "sc_QueueURL (sqs_Consumer (cfg_SQS cfg)) \<noteq> []" "0 < n" "int n < 2 ^ 63"
  shows "worker_tasks cfg ProvideSQSHandler = [KafkaMain, KafkaRetryTask]
    \<and> (\<exists>r h' res. refresher_rounds now n (worker_health_registry now k (\<lambda>h. ProvideSQSChecker) cfg) h = Some (r, h')
         \<and> res \<in> set (Snapshot r) \<and> res_Name res = ''sqs''
         \<and> res_Err res = Some (NewError ''sqs: no poll observed yet'') \<and> res_ConsecutiveFails res = int n
         \<and> fst (Readiness r) = StatusOK)"
proof -
  let ?r = "worker_health_registry now k (\<lambda>h. ProvideSQSChecker) cfg"
  have "sqs_stale now k 0 ?r"
    using assms(1) by (simp add: sqs_stale_def worker_health_registry_def Register_def NewRegistry_def
        KafkaChecker_checker_def SQSChecker_checker_def Let_def)
  from sqs_stale_rounds [OF this, of n h] assms(3) obtain r h' where
    r: "refresher_rounds now n ?r h = Some (r, h')" "sqs_stale now k n r" by auto
  then obtain a b where ab: "reg_results r = [(''kafka'', a), (''sqs'', b)]" "res_Severity a = SeverityDegraded"
    "res_Severity b = SeverityDegraded" "res_Name b = ''sqs''" "res_ConsecutiveFails b = int n"
    "res_Err b = Some (NewError ''sqs: no poll observed yet'')"
    using assms(2) by (auto simp: sqs_stale_def)
  have "b \<in> set (Snapshot r)" "fst (Readiness r) = StatusOK"
    using ab by (simp_all add: Snapshot_def Readiness_def registry_ready_def SeverityDegraded_def SeverityCritical_def)
  moreover have "worker_tasks cfg ProvideSQSHandler = [KafkaMain, KafkaRetryTask]"
    by (simp add: worker_tasks_def ProvideSQSHandler_def)
  ultimately show ?thesis using r(1) ab by blast
qed

text \<open>
  The Kafka checker is beaten after every poll, also one that brought nothing but errors of an
  unreachable broker.
\<close>

lemma kafka_failing_poll_beats:
  assumes "ctx_err env h = None" "poll env h = (errs, [])" "\<forall>fe \<in> set errs. \<not> errors_is (fe_Err fe) ContextCanceled"
  shows "kafka_consume_turn env handle hp True cfg h = Inr (h @ [Polled, Heartbeat])"
proof -
  have "find (\<lambda>fe. errors_is (fe_Err fe) ContextCanceled) errs = None" using assms(3) by (simp add: find_None_iff)
  then show ?thesis by (simp add: kafka_consume_turn_def assms(1,2))
qed

section \<open>Concrete workers\<close>

text \<open>The consumers of the Kafka and SQS samples, all four at once.\<close>

definition sample_worker_env :: worker_env where
  "sample_worker_env =
     \<lparr>we_kafka_main = sample_env, we_kafka_retry = sample_env, we_sqs_main = two_message_env, we_sqs_retry = two_message_env\<rparr>"

definition sqs_config :: Config where
  "sqs_config = sample_config\<lparr>cfg_SQS := \<lparr>sqs_Region = [], sqs_Endpoint = [], sqs_Consumer = sample_sqs_cfg\<rparr>\<rparr>"

lemma sample_tasks: "worker_tasks sqs_config (Some sample_sqs_handler) = [KafkaMain, KafkaRetryTask, SqsMain, SqsRetryTask]"
  by (simp add: worker_tasks_def sqs_config_def sample_sqs_cfg_def)

lemma sample_kafka_ctx: "kafka_cancels sample_env" "kafka_done_after sample_env 8"
  by (auto simp: kafka_cancels_def kafka_done_after_def sample_env_def split: if_splits)

lemma sample_sqs_ctx: "sqs_cancels two_message_env" "sqs_done_after two_message_env 8"
  by (auto simp: sqs_cancels_def sqs_done_after_def two_message_env_def sample_sqs_env_def split: if_splits)

lemma sample_task: "task_cancels (Some sample_sqs_handler) sample_worker_env t"
  "task_done_after (Some sample_sqs_handler) sample_worker_env t 8"
  by (cases t; simp add: task_cancels_def task_done_after_def sample_worker_env_def sample_kafka_ctx sample_sqs_ctx
      sample_sqs_handler_ok)+

theorem worker_group_stops_witness:
  "worker_task_run sqs_config (Some sample_sqs_handler) sample_worker_env SqsMain (Suc 8) \<noteq> None"
proof -
  have "\<forall>t \<in> set rem. worker_task_run sqs_config (Some sample_sqs_handler) sample_worker_env t (Suc 8) \<noteq> None"
    if "rem = worker_tasks sqs_config (Some sample_sqs_handler)" for rem
    using worker_group_stops [where cfg = sqs_config and handler = "Some sample_sqs_handler" and env = sample_worker_env and n = 8
        and rem = rem and err = None] sample_task group_reach.start that by blast
  then show ?thesis by (simp add: sample_tasks)
qed

lemma sample_worker:
  "\<exists>app es. InitializeWorker sample_app_env ''c'' = (Inr app, es) \<and> wa_Config app = sample_config \<and> wa_SQSHandler app = None"
  by (simp add: InitializeWorker_def sample_app_env_def ProvideMainConsumer_def ProvideRetryConsumer_def
      ProvideProducerClient_def provide_client_def ProvideSQSClient_def ProvideObservability_def otel_Init_def
      sqs_NewClient_def sample_config_def ProvideSQSHandler_def Let_def)

theorem worker_exits_zero_witness:
  "\<exists>e. fst (worker_main sample_app_env ''c'' (\<lambda>_. Some e)) = 0"
proof -
  obtain app es where i: "InitializeWorker sample_app_env ''c'' = (Inr app, es)"
    "wa_Config app = sample_config" "wa_SQSHandler app = None" using sample_worker by blast
  let ?run = "worker_task_run (wa_Config app) (wa_SQSHandler app) sample_worker_env"
  let ?tasks = "worker_tasks (wa_Config app) (wa_SQSHandler app)"
  have tasks: "?tasks = [KafkaMain, KafkaRetryTask]" by (simp add: worker_tasks_def i)
  have c: "\<forall>t \<in> set ?tasks. task_cancels (wa_SQSHandler app) sample_worker_env t"
    unfolding tasks by (simp add: task_cancels_def sample_worker_env_def sample_kafka_ctx)
  have d: "\<forall>t \<in> set ?tasks. \<exists>n. task_done_after (wa_SQSHandler app) sample_worker_env t n"
    unfolding tasks by (auto simp: task_done_after_def sample_worker_env_def intro: sample_kafka_ctx)
  from worker_group.group_drains [where f = "\<lambda>t. t", OF group_reach.start d] obtain w where
    w: "group_reach ?run ?tasks [] w" by blast
  have ne: "''c'' \<noteq> []" by simp
  from worker_exits_zero [OF i(1) ne c w] show ?thesis by (metis fst_conv)
qed

definition no_producer_env :: app_env where
  "no_producer_env = sample_app_env\<lparr>ae_new_client := \<lambda>c opts. if c = ProducerClient then Some (NewError ''no broker'') else None\<rparr>"

theorem worker_releases_witness:
  "fst (worker_main no_producer_env [] (\<lambda>_. None)) = 1 \<and> held_after [] (snd (worker_main no_producer_env [] (\<lambda>_. None))) = Some []"
proof -
  have "\<exists>e es. InitializeWorker no_producer_env ''config/config.yaml'' = (Inl e, es)"
    by (simp add: InitializeWorker_def no_producer_env_def sample_app_env_def ProvideMainConsumer_def ProvideRetryConsumer_def
        ProvideProducerClient_def provide_client_def)
  with worker_releases [OF prod.collapse [symmetric], of no_producer_env "[]" "\<lambda>_. None"] show ?thesis by auto
qed

definition sample_kafka :: KafkaConfig where
  "sample_kafka = \<lparr>kafka_Brokers = [], kafka_GroupID = ''g'', kafka_Topic = ''t'', kafka_Consumer = sample_cfg\<rparr>"

theorem worker_retry_wiring_witness:
  "\<exists>q :: kgo_record. ConsumeTopics [Topic q] \<in> set (kafka_NewConsumer sample_kafka)
    \<and> retry_consumer_opts sample_kafka = kafka_NewConsumerForTopics sample_kafka ''g-retry'' [''t.retry'']"
proof -
  define q where "q = kafka_publish_record trip_env [] ''t'' ''k'' ''bad''
    [KafkaWithIdempotencyKey ''u'', KafkaWithHeader HeaderRetryCount ''1'']"
  have c: "kafka_Consumer sample_kafka = sample_cfg" by (simp add: sample_kafka_def)
  have a: "kafka_retry_handler trip_env (kafka_retry_defaults (kafka_Consumer sample_kafka)) [] sample_retry_record
      = (None, [] @ [Waited (2 * second) None, Produced q None])"
    unfolding q_def c by code_simp
  have s: "\<not> has_suffix (kafka_Topic sample_kafka) (kc_RetrySuffix (kafka_consumer_defaults (kafka_Consumer sample_kafka)))"
    by code_simp
  have b: "''t.retry'' = destTopic (kafka_Topic sample_kafka) (kafka_consumer_defaults (kafka_Consumer sample_kafka)) False"
    by code_simp
  have r: "Topic sample_retry_record = ''t.retry''" by code_simp
  have m: "(q, None) \<in> set (produced_of [Waited (2 * second) None, Produced q None])" by simp
  have n: "kc_RetrySuffix (kafka_Consumer sample_kafka) \<noteq> []" "kafka_GroupID sample_kafka @ ''-retry'' = ''g-retry''" by code_simp+
  from worker_retry_wiring [OF s b r a m trip_env_trace] n show ?thesis by auto
qed

theorem worker_sqs_degraded_witness:
  "\<exists>r h' res. refresher_rounds (\<lambda>h. 0) 100 (worker_health_registry (\<lambda>h. 0) (\<lambda>h. ProvideKafkaChecker) (\<lambda>h. ProvideSQSChecker)
      sqs_config) [] = Some (r, h') \<and> res \<in> set (Snapshot r) \<and> res_ConsecutiveFails res = 100"
proof -
  have "sc_QueueURL (sqs_Consumer (cfg_SQS sqs_config)) \<noteq> []" "0 < (100::nat)" "int 100 < 2 ^ 63"
    by (simp_all add: sqs_config_def sample_sqs_cfg_def)
  from worker_sqs_degraded [OF this, of "\<lambda>h. 0" "\<lambda>h. ProvideKafkaChecker" "[]"] show ?thesis by auto
qed

theorem worker_loses_nothing_witness:
  "kafka_consume_turn sample_env ProvideMessageHandler True True
      (kafka_consumer_defaults (kafka_Consumer (cfg_Kafka sample_config))) []
    = Inr [Polled, Heartbeat, Handled (sample_record ''ok'') None, Handled (sample_record ''bad'') None,
           Committed [sample_record ''ok'', sample_record ''bad''] None]"
proof -
  let ?cfg = "kafka_consumer_defaults (kafka_Consumer (cfg_Kafka sample_config))"
  have "\<not> isl (kafka_consume_turn sample_env ProvideMessageHandler True True ?cfg [])" by code_simp
  then obtain h' where turn: "kafka_consume_turn sample_env ProvideMessageHandler True True ?cfg [] = Inr h'"
    by (cases "kafka_consume_turn sample_env ProvideMessageHandler True True ?cfg []") simp_all
  have p: "snd (poll sample_env []) = [sample_record ''ok'', sample_record ''bad'']" by code_simp
  have "commits sample_env ([Polled, Heartbeat] @ map (\<lambda>r. Handled r None) (snd (poll sample_env []))) (snd (poll sample_env []))
      = [Committed [sample_record ''ok'', sample_record ''bad''] None]"
    by code_simp
  with worker_loses_nothing [where cfg = sample_config and env = sample_env and h = "[]" and h' = h', OF refl] turn p
  show ?thesis by simp
qed

end
