(* ===== verification/Stripper.thy ===== *)
theory Stripper
  imports GoStd
begin

text \<open>
  cmd/init/stripper.go on the bytes of one file: the scanner, the block stripper with its buffered
  lines, the run collapser and the residual-marker filter; a reference definition of block removal
  on lists of lines, to which the streaming stripper is equal; and what is left after stripping.
\<close>

abbreviation LF :: char where "LF \<equiv> CHR 0x0A"
abbreviation CR :: char where "CR \<equiv> CHR 0x0D"

section \<open>bufio.Scanner\<close>

text \<open>
  \<open>ScanLines\<close>: lines without their newline and without one carriage return before it; what
  follows the last newline is a line if it is not empty. A line that does not fit the 10 MB
  buffer with its newline ends the scan with an error; the lines before it were delivered.
\<close>

definition max_token :: int where "max_token = 10 * 1024 * 1024"

fun raw_lines :: "string \<Rightarrow> string list" where
  "raw_lines [] = []"
| "raw_lines (c # s) =
     (if c = LF then [] # raw_lines s
      else case raw_lines s of
             [] \<Rightarrow> [[c]]
           | l # ls \<Rightarrow> (c # l) # ls)"

definition drop_cr :: "string \<Rightarrow> string" where
  "drop_cr l = (if l \<noteq> [] \<and> last l = CR then butlast l else l)"

definition token_ok :: "string \<Rightarrow> bool" where
  "token_ok l \<longleftrightarrow> int (length l) < max_token"

definition scan_lines :: "string \<Rightarrow> string list \<times> go_error option" where
  "scan_lines data =
     (let ls = raw_lines data
      in (map drop_cr (takeWhile token_ok ls),
          if list_all token_ok ls then None else Some (NewError ''bufio.Scanner: token too long'')))"

section \<open>The stripper\<close>

definition unlines :: "string list \<Rightarrow> string" where
  "unlines ls = concat (map (\<lambda>l. l @ [LF]) ls)"

record strip_state =
  st_out :: string
  st_kept :: "string list"
  st_inBlock :: bool
  st_lineNo :: int
  st_startLine :: int

definition strip_flush :: "strip_state \<Rightarrow> strip_state" where
  "strip_flush st = st\<lparr>st_out := st_out st @ unlines (st_kept st), st_kept := []\<rparr>"

definition containsToken :: "string \<Rightarrow> string \<Rightarrow> bool" where
  "containsToken line token = contains line token"

definition strip_line :: "string \<Rightarrow> string \<Rightarrow> string \<Rightarrow> strip_state \<Rightarrow> strip_state" where
  "strip_line startToken endToken line st =
     (let st = st\<lparr>st_lineNo := st_lineNo st + 1\<rparr>
      in if \<not> st_inBlock st \<and> containsToken line startToken then
           (let st = st\<lparr>st_inBlock := True, st_startLine := st_lineNo st\<rparr>;
                st = (if st_kept st \<noteq> [] \<and> trim_space (last (st_kept st)) = []
                      then st\<lparr>st_kept := butlast (st_kept st)\<rparr> else st)
            in strip_flush st)
         else if st_inBlock st \<and> containsToken line endToken then st\<lparr>st_inBlock := False\<rparr>
         else if st_inBlock st then st
         else st\<lparr>st_kept := st_kept st @ [line]\<rparr>)"

definition strip_init :: strip_state where
  "strip_init = \<lparr>st_out = [], st_kept = [], st_inBlock = False, st_lineNo = 0, st_startLine = 0\<rparr>"

text \<open>Whether the original ended without a newline decides about the last one written.\<close>

definition trim_final :: "string \<Rightarrow> string \<Rightarrow> string" where
  "trim_final data result =
     (if data \<noteq> [] \<and> last data \<noteq> LF \<and> result \<noteq> [] \<and> last result = LF then butlast result else result)"

fun collapse_from :: "nat \<Rightarrow> string \<Rightarrow> string" where
  "collapse_from streak [] = []"
| "collapse_from streak (c # s) =
     (if c = LF then (if Suc streak \<le> 2 then c # collapse_from (Suc streak) s else collapse_from (Suc streak) s)
      else c # collapse_from 0 s)"

definition collapseBlankRuns :: "string \<Rightarrow> string" where
  "collapseBlankRuns b = collapse_from 0 b"

definition startToken :: "string \<Rightarrow> string" where
  "startToken feature = ''feature:'' @ feature @ '':start''"

definition endToken :: "string \<Rightarrow> string" where
  "endToken feature = ''feature:'' @ feature @ '':end''"

text \<open>The new bytes of the file at \<open>path\<close>, or the error.\<close>

definition strip_data :: "string \<Rightarrow> string \<Rightarrow> string \<Rightarrow> go_error + string" where
  "strip_data path feature data =
     (let (lines, err) = scan_lines data;
          st = strip_flush (fold (strip_line (startToken feature) (endToken feature)) lines strip_init)
      in case err of
           Some e \<Rightarrow> Inl (WrapError (''scan '' @ path @ '': '') e [])
         | None \<Rightarrow>
             if st_inBlock st
             then Inl (NewError (path @ '': unclosed feature:'' @ feature @ '' block opened at line '' @ itoa (st_startLine st)))
             else Inr (collapseBlankRuns (trim_final data (st_out st))))"

section \<open>Residual markers\<close>

text \<open>\<open>feature:[a-zA-Z0-9_-]+:(start|end)\<close>, anywhere.\<close>

definition name_char :: "char \<Rightarrow> bool" where
  "name_char c \<longleftrightarrow> c \<in> set ''ABCDEFGHIJKLMNOPQRSTUVWXYZabcdefghijklmnopqrstuvwxyz0123456789_-''"

definition marker_here :: "string \<Rightarrow> bool" where
  "marker_here s \<longleftrightarrow>
     has_prefix s ''feature:''
     \<and> (let r = drop 8 s; name = takeWhile name_char r; rest = dropWhile name_char r
        in name \<noteq> [] \<and> (has_prefix rest '':start'' \<or> has_prefix rest '':end''))"

fun residualMarker :: "string \<Rightarrow> bool" where
  "residualMarker [] = False"
| "residualMarker (c # s) = (marker_here (c # s) \<or> residualMarker s)"

text \<open>The new bytes of a visited file; None: it is left alone.\<close>

definition residual_data :: "string \<Rightarrow> string option" where
  "residual_data data =
     (if \<not> residualMarker data then None
      else let (lines, err) = scan_lines data;
               out = unlines (filter (\<lambda>l. \<not> residualMarker l) lines)
           in case err of Some e \<Rightarrow> None | None \<Rightarrow> Some (trim_final data out))"

section \<open>Lines\<close>

lemma raw_lines_nl: "LF \<notin> set l \<Longrightarrow> raw_lines (l @ LF # s) = l # raw_lines s"
proof (induction l)
  case (Cons c l)
  then show ?case by (cases l) auto
qed simp

lemma raw_lines_last: "LF \<notin> set l \<Longrightarrow> l \<noteq> [] \<Longrightarrow> raw_lines l = [l]"
proof (induction l)
  case (Cons c l)
  then show ?case by (cases l) auto
qed simp

lemma lines_cases:
  obtains "s = []" | l where "LF \<notin> set l" "l \<noteq> []" "s = l" | l r where "LF \<notin> set l" "s = l @ LF # r"
proof (cases "LF \<in> set s")
  case True
  then obtain l r where "s = l @ LF # r" "LF \<notin> set l" by (metis split_list_first)
  with that(3) show ?thesis by blast
next
  case False
  with that(1,2) show ?thesis by blast
qed

lemma lines_induct [case_names Nil Last Line]:
  assumes "P []" and "\<And>l. LF \<notin> set l \<Longrightarrow> l \<noteq> [] \<Longrightarrow> P l" and "\<And>l s. LF \<notin> set l \<Longrightarrow> P s \<Longrightarrow> P (l @ LF # s)"
  shows "P s"
proof (induction "length s" arbitrary: s rule: less_induct)
  case less
  show ?case
  proof (cases s rule: lines_cases)
    case (3 l r)
    then show ?thesis using less assms(3) by simp
  qed (use assms in auto)
qed

lemma raw_lines_no_LF: "l \<in> set (raw_lines s) \<Longrightarrow> LF \<notin> set l"
  by (induction s rule: lines_induct) (auto simp: raw_lines_last raw_lines_nl)

lemma unlines_simps [simp]: "unlines [] = []" "unlines (l # ls) = l @ LF # unlines ls" "unlines (ls @ ks) = unlines ls @ unlines ks"
  by (simp_all add: unlines_def)

lemma unlines_raw: "unlines (raw_lines s) = (if s = [] \<or> last s = LF then s else s @ [LF])"
  by (induction s rule: lines_induct) (auto simp: raw_lines_last raw_lines_nl dest: last_in_set)

lemma trim_final_raw: "trim_final s (unlines (raw_lines s)) = s"
  by (simp add: unlines_raw trim_final_def)

lemma raw_unlines: "\<forall>l \<in> set ls. LF \<notin> set l \<Longrightarrow> raw_lines (unlines ls) = ls"
  by (induction ls) (auto simp: raw_lines_nl)

lemma contains_self: "contains s s"
  unfolding contains_iff by (metis append_Nil append_Nil2)

lemma contains_trans: "contains a b \<Longrightarrow> contains b c \<Longrightarrow> contains a c"
  unfolding contains_iff by (metis append.assoc)

text \<open>A text without newline lies within one line.\<close>

text \<open>A text without a line feed that occurs in two lines occurs in one of them.\<close>

lemma prefix_split:
  assumes "l @ LF # s = t @ b" "LF \<notin> set t"
  shows "\<exists>b'. l = t @ b'"
proof -
  from assms(1) consider us where "l = t @ us" | us where "t = l @ us" "LF # s = us @ b"
    by (auto simp: append_eq_append_conv2)
  then show ?thesis
  proof cases
    case 2
    with assms(2) have "us = []" by (cases us) auto
    with 2 show ?thesis by simp
  qed blast
qed

lemma contains_split: "contains (l @ LF # s) t \<Longrightarrow> LF \<notin> set t \<Longrightarrow> contains l t \<or> contains s t"
proof (induction l)
  case Nil
  then consider b where "LF # s = t @ b" | "contains s t" by (auto simp: has_prefix_iff)
  then show ?case
  proof cases
    case 1
    with prefix_split [of "[]" s t b] Nil.prems(2) show ?thesis by simp
  qed simp
next
  case (Cons c l)
  then consider b where "(c # l) @ LF # s = t @ b" | "contains (l @ LF # s) t" by (auto simp: has_prefix_iff)
  then show ?case
  proof cases
    case 1
    with prefix_split Cons.prems(2) obtain b' where "c # l = t @ b'" by blast
    then show ?thesis unfolding contains_iff by (metis append_Nil)
  qed (use Cons in auto)
qed

lemma contains_unlines: "contains (unlines ls) t \<Longrightarrow> LF \<notin> set t \<Longrightarrow> t \<noteq> [] \<Longrightarrow> \<exists>l \<in> set ls. contains l t"
  by (induction ls) (auto dest: contains_split)

lemma contains_raw:
  assumes "contains s t" "LF \<notin> set t" "t \<noteq> []"
  shows "\<exists>l \<in> set (raw_lines s). contains l t"
proof -
  have "contains (unlines (raw_lines s)) t"
  proof (cases "s = [] \<or> last s = LF")
    case False
    have "contains (s @ [LF]) s" unfolding contains_iff by (metis append_Nil)
    with False assms(1) show ?thesis using contains_trans by (auto simp: unlines_raw)
  qed (use assms(1) in \<open>simp add: unlines_raw\<close>)
  then show ?thesis using contains_unlines assms(2,3) by blast
qed

lemma raw_line_contains: "l \<in> set (raw_lines s) \<Longrightarrow> contains s l"
proof (induction s rule: lines_induct)
  case (Line k s)
  then consider "l = k" | "contains s l" by (auto simp: raw_lines_nl)
  then show ?case
  proof cases
    case 1
    then show ?thesis unfolding contains_iff by (metis append_Nil)
  next
    case 2
    then show ?thesis unfolding contains_iff by (metis append.assoc append_Cons)
  qed
qed (auto simp: raw_lines_last intro: contains_self)

section \<open>The reference: blocks of lines\<close>

definition drop_blank :: "string list \<Rightarrow> string list" where
  "drop_blank ls = (if ls \<noteq> [] \<and> trim_space (last ls) = [] then butlast ls else ls)"

text \<open>
  The lines before a start marker, less one blank line at their end; nothing up to and including
  the end marker; and so on. None: a block is not closed.
\<close>

function without_blocks :: "string \<Rightarrow> string \<Rightarrow> string list \<Rightarrow> string list option" where
  "without_blocks s e ls =
     (let pre = takeWhile (\<lambda>l. \<not> contains l s) ls
      in case dropWhile (\<lambda>l. \<not> contains l s) ls of
           [] \<Rightarrow> Some pre
         | m # body \<Rightarrow>
            (case dropWhile (\<lambda>l. \<not> contains l e) body of
               [] \<Rightarrow> None
             | m' # rest \<Rightarrow> map_option (\<lambda>r. drop_blank pre @ r) (without_blocks s e rest)))"
  by pat_completeness auto
termination
proof (relation "measure (\<lambda>(s, e, ls). length ls)")
  fix s e ls pre m body m' and rest :: "string list"
  assume "dropWhile (\<lambda>l. \<not> contains l s) ls = m # body" "dropWhile (\<lambda>l. \<not> contains l e) body = m' # rest"
  then have "length (m # body) \<le> length ls" "length (m' # rest) \<le> length body"
    by (metis length_dropWhile_le)+
  then show "((s, e, rest), s, e, ls) \<in> measure (\<lambda>(s, e, ls). length ls)" by simp
qed simp

declare without_blocks.simps [simp del]

lemma dropWhile_split:
  "dropWhile P xs = y # ys \<Longrightarrow> xs = takeWhile P xs @ y # ys \<and> \<not> P y \<and> (\<forall>x \<in> set (takeWhile P xs). P x)"
  by (metis dropWhile_eq_Cons_conv set_takeWhileD takeWhile_dropWhile_id)

lemma dropWhile_none: "dropWhile P xs = [] \<Longrightarrow> takeWhile P xs = xs \<and> (\<forall>x \<in> set xs. P x)"
  by (simp add: dropWhile_eq_Nil_conv takeWhile_eq_all_conv)

lemma without_blocks_nil:
  "dropWhile (\<lambda>l. \<not> contains l s) ls = [] \<Longrightarrow> without_blocks s e ls = Some ls"
  by (subst without_blocks.simps) (simp add: Let_def dropWhile_none [THEN conjunct1] del: dropWhile_eq_Nil_conv)

lemma without_blocks_open:
  "dropWhile (\<lambda>l. \<not> contains l s) ls = m # body \<Longrightarrow> dropWhile (\<lambda>l. \<not> contains l e) body = [] \<Longrightarrow>
     without_blocks s e ls = None"
  by (subst without_blocks.simps) (simp add: Let_def del: dropWhile_eq_Nil_conv)

lemma without_blocks_block:
  "dropWhile (\<lambda>l. \<not> contains l s) ls = m # body \<Longrightarrow> dropWhile (\<lambda>l. \<not> contains l e) body = m' # rest \<Longrightarrow>
     without_blocks s e ls =
       map_option (\<lambda>r. drop_blank (takeWhile (\<lambda>l. \<not> contains l s) ls) @ r) (without_blocks s e rest)"
  by (subst without_blocks.simps) (simp add: Let_def)

lemma strip_outside:
  "\<not> st_inBlock st \<Longrightarrow> \<forall>l \<in> set ls. \<not> contains l s \<Longrightarrow>
     fold (strip_line s e) ls st = st\<lparr>st_kept := st_kept st @ ls, st_lineNo := st_lineNo st + int (length ls)\<rparr>"
  by (induction ls arbitrary: st) (simp_all add: strip_line_def containsToken_def)

lemma strip_inside:
  "st_inBlock st \<Longrightarrow> \<forall>l \<in> set ls. \<not> contains l e \<Longrightarrow>
     fold (strip_line s e) ls st = st\<lparr>st_lineNo := st_lineNo st + int (length ls)\<rparr>"
  by (induction ls arbitrary: st) (simp_all add: strip_line_def containsToken_def)

lemma strip_start:
  "\<not> st_inBlock st \<Longrightarrow> contains m s \<Longrightarrow>
     strip_line s e m st =
       st\<lparr>st_lineNo := st_lineNo st + 1, st_inBlock := True, st_startLine := st_lineNo st + 1,
          st_out := st_out st @ unlines (drop_blank (st_kept st)), st_kept := []\<rparr>"
  by (simp add: strip_line_def containsToken_def strip_flush_def drop_blank_def Let_def)

lemma strip_end:
  "st_inBlock st \<Longrightarrow> contains m e \<Longrightarrow> strip_line s e m st = st\<lparr>st_lineNo := st_lineNo st + 1, st_inBlock := False\<rparr>"
  by (simp add: strip_line_def containsToken_def)

lemma strip_fold:
  assumes "\<not> st_inBlock st" "st_kept st = []"
  shows "case without_blocks s e ls of
      None \<Rightarrow> st_inBlock (strip_flush (fold (strip_line s e) ls st))
    | Some r \<Rightarrow> \<not> st_inBlock (strip_flush (fold (strip_line s e) ls st))
        \<and> st_out (strip_flush (fold (strip_line s e) ls st)) = st_out st @ unlines r"
  using assms
proof (induction s e ls arbitrary: st rule: without_blocks.induct)
  case (1 s e ls)
  let ?pre = "takeWhile (\<lambda>l. \<not> contains l s) ls"
  show ?case
  proof (cases "dropWhile (\<lambda>l. \<not> contains l s) ls")
    case Nil
    from dropWhile_none [OF this] have "\<forall>l \<in> set ls. \<not> contains l s" "?pre = ls" by auto
    then show ?thesis
      using 1(2,3) without_blocks_nil [OF Nil, of e] by (simp add: strip_outside strip_flush_def)
  next
    case (Cons m body)
    from dropWhile_split [OF this] have ls: "ls = ?pre @ m # body" "contains m s" "\<forall>l \<in> set ?pre. \<not> contains l s" by auto
    define st1 where "st1 = fold (strip_line s e) (?pre @ [m]) st"
    have st1: "st_inBlock st1" "st_kept st1 = []" "st_out st1 = st_out st @ unlines (drop_blank ?pre)"
      using 1(2,3) ls(2,3) by (simp_all add: st1_def strip_outside strip_start)
    have f: "fold (strip_line s e) ls st = fold (strip_line s e) body st1"
      by (subst ls(1)) (simp add: st1_def)
    show ?thesis
    proof (cases "dropWhile (\<lambda>l. \<not> contains l e) body")
      case Nil
      from dropWhile_none [OF this] have "\<forall>l \<in> set body. \<not> contains l e" by auto
      then show ?thesis
        using without_blocks_open [OF Cons Nil] st1 by (simp add: f strip_inside strip_flush_def)
    next
      case body_split: (Cons m' rest)
      let ?in = "takeWhile (\<lambda>l. \<not> contains l e) body"
      from dropWhile_split [OF body_split] have body: "body = ?in @ m' # rest" "contains m' e" "\<forall>l \<in> set ?in. \<not> contains l e" by auto
      define st2 where "st2 = fold (strip_line s e) (?in @ [m']) st1"
      have st2: "\<not> st_inBlock st2" "st_kept st2 = []" "st_out st2 = st_out st1"
        using st1 body(2,3) by (simp_all add: st2_def strip_inside strip_end)
      have f2: "fold (strip_line s e) body st1 = fold (strip_line s e) rest st2"
        by (subst body(1)) (simp add: st2_def)
      from 1(1) [OF refl Cons body_split st2(1,2)]
      show ?thesis
        using without_blocks_block [OF Cons body_split] st1(3) st2(3) by (auto simp: f f2 split: option.splits)
    qed
  qed
qed

text \<open>
  C16: the streaming stripper, with its buffered lines and its flush on every start marker, is
  equal to the reference that removes whole blocks from the list of lines: it fails exactly if a
  line is too long or a block is not closed, and otherwise writes the lines outside the blocks.
\<close>

theorem strip_data_equiv:
  "strip_data path feature data =
     (case scan_lines data of
        (lines, Some e) \<Rightarrow> Inl (WrapError (''scan '' @ path @ '': '') e [])
      | (lines, None) \<Rightarrow>
         (case without_blocks (startToken feature) (endToken feature) lines of
            Some ls \<Rightarrow> Inr (collapseBlankRuns (trim_final data (unlines ls)))
          | None \<Rightarrow> Inl (NewError (path @ '': unclosed feature:'' @ feature @ '' block opened at line ''
              @ itoa (st_startLine (fold (strip_line (startToken feature) (endToken feature)) lines strip_init))))))"
proof -
  obtain lines err where sc: "scan_lines data = (lines, err)" by fastforce
  have st: "\<not> st_inBlock strip_init" "st_kept strip_init = []" "st_out strip_init = []" by (simp_all add: strip_init_def)
  note f = strip_fold [OF st(1,2), of "startToken feature" "endToken feature" lines]
  show ?thesis
  proof (cases err)
    case None
    then show ?thesis using sc f st(3)
      by (cases "without_blocks (startToken feature) (endToken feature) lines")
        (auto simp: strip_data_def Let_def strip_flush_def)
  qed (use sc in \<open>simp add: strip_data_def Let_def\<close>)
qed

section \<open>What stripping leaves\<close>

lemma without_blocks_no_start:
  "without_blocks s e ls = Some r \<Longrightarrow> (\<forall>l \<in> set r. \<not> contains l s) \<and> set r \<subseteq> set ls"
proof (induction s e ls arbitrary: r rule: without_blocks.induct)
  case (1 s e ls)
  let ?pre = "takeWhile (\<lambda>l. \<not> contains l s) ls"
  have pre: "\<forall>l \<in> set ?pre. \<not> contains l s \<and> l \<in> set ls" by (auto dest: set_takeWhileD)
  show ?case
  proof (cases "dropWhile (\<lambda>l. \<not> contains l s) ls")
    case Nil
    then show ?thesis using 1(2) without_blocks_nil [OF Nil, of e] dropWhile_none [OF Nil] by auto
  next
    case (Cons m body)
    with 1(2) without_blocks_open obtain m' rest where rest: "dropWhile (\<lambda>l. \<not> contains l e) body = m' # rest"
      by (cases "dropWhile (\<lambda>l. \<not> contains l e) body") fastforce+
    obtain r' where r': "without_blocks s e rest = Some r'" "r = drop_blank ?pre @ r'"
      using 1(2) without_blocks_block [OF Cons rest] by auto
    have "set rest \<subseteq> set ls"
      by (metis Cons rest set_dropWhileD set_subset_Cons subset_iff)
    moreover have "set (drop_blank ?pre) \<subseteq> set ?pre" by (auto simp: drop_blank_def dest: in_set_butlastD)
    ultimately show ?thesis using 1(1) [OF refl Cons rest r'(1)] r'(2) pre by auto
  qed
qed

lemma without_blocks_none: "\<forall>l \<in> set ls. \<not> contains l s \<Longrightarrow> without_blocks s e ls = Some ls"
  by (intro without_blocks_nil) (simp add: dropWhile_eq_Nil_conv)

lemma collapse_contains_0:
  assumes "LF \<notin> set t"
  shows "has_prefix (collapse_from k s) t \<Longrightarrow> k = 0 \<Longrightarrow> has_prefix s t"
  using assms
proof (induction s arbitrary: k t)
  case (Cons c s)
  show ?case
  proof (cases t)
    case (Cons x t')
    with Cons.prems have "c \<noteq> LF" "x = c" by (auto simp: has_prefix_def split: if_splits)
    with Cons.prems Cons have "has_prefix (collapse_from 0 s) t'" "LF \<notin> set t'" by (auto simp: has_prefix_def)
    from Cons.IH [OF this(1) refl this(2)] show ?thesis using Cons \<open>x = c\<close> by (simp add: has_prefix_def)
  qed (simp add: has_prefix_def)
qed simp

lemma collapse_contains:
  "contains (collapse_from k s) t \<Longrightarrow> LF \<notin> set t \<Longrightarrow> t \<noteq> [] \<Longrightarrow> contains s t"
proof (induction s arbitrary: k)
  case (Cons c s)
  show ?case
  proof (cases "c = LF")
    case True
    with Cons.prems(2,3) have "\<not> has_prefix (LF # collapse_from (Suc k) s) t"
      by (cases t) (auto simp: has_prefix_def)
    with True Cons show ?thesis by (auto split: if_splits)
  next
    case False
    then have "has_prefix (c # collapse_from 0 s) t \<or> contains (collapse_from 0 s) t" using Cons.prems(1) by simp
    then show ?thesis
    proof
      assume "has_prefix (c # collapse_from 0 s) t"
      then have "has_prefix (collapse_from 0 (c # s)) t" using False by simp
      from collapse_contains_0 [OF Cons.prems(2) this refl] show ?thesis by simp
    qed (use Cons in auto)
  qed
qed simp

lemma collapse_long: "2 \<le> k \<Longrightarrow> collapse_from k s = collapse_from 2 s"
proof (induction s arbitrary: k)
  case (Cons c s)
  have "collapse_from (Suc k) s = collapse_from 2 s" "collapse_from (Suc 2) s = collapse_from 2 s"
    using Cons.IH [of "Suc k"] Cons.IH [of "Suc 2"] Cons.prems by simp_all
  with Cons.prems show ?case by simp
qed simp

lemma collapse_same: "collapse_from k (collapse_from k s) = collapse_from k s"
proof (induction s arbitrary: k)
  case (Cons c s)
  have "collapse_from k (collapse_from (Suc k) s) = collapse_from (Suc k) s" if "2 \<le> k"
    using Cons.IH [of 2] collapse_long [OF that] collapse_long [of "Suc k" s] that by simp
  with Cons show ?case by auto
qed simp

lemma collapse_set: "set (collapse_from k s) \<subseteq> set s"
  by (induction s arbitrary: k) (auto split: if_splits)

lemma trim_final_set: "set (trim_final data r) \<subseteq> set r"
  by (auto simp: trim_final_def dest: in_set_butlastD)

lemma contains_butlast: "contains r (butlast r)"
proof (cases r rule: rev_cases)
  case (snoc xs x)
  then show ?thesis unfolding contains_iff by (intro exI [of _ "[]"] exI [of _ "[x]"]) simp
qed simp

lemma trim_final_contains: "contains (trim_final data r) t \<Longrightarrow> contains r t"
proof -
  assume a: "contains (trim_final data r) t"
  have "contains r (trim_final data r)"
    by (simp add: trim_final_def contains_butlast contains_self)
  then show ?thesis using a contains_trans by blast
qed

lemma unlines_set: "set (unlines ls) \<subseteq> insert LF (\<Union> (set ` set ls))"
  by (induction ls) auto

lemma scan_lines_None:
  "scan_lines data = (lines, None) \<longleftrightarrow> lines = map drop_cr (raw_lines data) \<and> (\<forall>l \<in> set (raw_lines data). token_ok l)"
proof (cases "\<forall>l \<in> set (raw_lines data). token_ok l")
  case True
  then have "takeWhile token_ok (raw_lines data) = raw_lines data" by (simp add: takeWhile_eq_all_conv)
  with True show ?thesis by (simp add: scan_lines_def Let_def list_all_iff eq_commute)
qed (auto simp: scan_lines_def Let_def list_all_iff)

lemma drop_cr_contains: "contains l (drop_cr l)"
  by (simp add: drop_cr_def contains_butlast contains_self)

lemma drop_cr_id: "CR \<notin> set l \<Longrightarrow> drop_cr l = l"
  by (auto simp: drop_cr_def dest: last_in_set)

lemma contains_set: "contains l t \<Longrightarrow> set t \<subseteq> set l"
  by (auto simp: contains_iff)

lemma contains_length: "contains l t \<Longrightarrow> length t \<le> length l"
  by (auto simp: contains_iff)

text \<open>Every text without newline that a stripped file holds was in a line that was kept.\<close>

lemma strip_data_contains:
  assumes "strip_data path feature data = Inr r" "contains r t" "LF \<notin> set t" "t \<noteq> []"
  shows "\<exists>l. contains l t \<and> \<not> contains l (startToken feature) \<and> (\<exists>k \<in> set (raw_lines data). contains k l \<and> token_ok k)"
proof -
  obtain lines ls where sc: "scan_lines data = (lines, None)" and
    ls: "without_blocks (startToken feature) (endToken feature) lines = Some ls" and
    r: "r = collapseBlankRuns (trim_final data (unlines ls))"
    using assms(1) unfolding strip_data_equiv by (auto split: prod.splits option.splits)
  from without_blocks_no_start [OF ls] have no: "\<forall>l \<in> set ls. \<not> contains l (startToken feature)" "set ls \<subseteq> set lines"
    by auto
  have "contains (unlines ls) t"
    using collapse_contains [of 0 "trim_final data (unlines ls)" t] trim_final_contains assms(2-4) r
    by (auto simp: collapseBlankRuns_def)
  then obtain l where l: "l \<in> set ls" "contains l t" using contains_unlines assms(3,4) by blast
  then obtain k where "k \<in> set (raw_lines data)" "l = drop_cr k" "token_ok k"
    using no(2) sc by (auto simp: scan_lines_None)
  then show ?thesis using l no(1) drop_cr_contains by blast
qed

lemma startToken_no_LF: "LF \<notin> set feature \<Longrightarrow> LF \<notin> set (startToken feature) \<and> startToken feature \<noteq> []"
  by (simp add: startToken_def)

lemma strip_data_result:
  assumes "strip_data path feature data = Inr r"
  obtains lines ls where "scan_lines data = (lines, None)"
    "without_blocks (startToken feature) (endToken feature) lines = Some ls"
    "r = collapseBlankRuns (trim_final data (unlines ls))"
  using assms unfolding strip_data_equiv by (auto split: prod.splits option.splits)

lemma strip_data_bytes:
  assumes "strip_data path feature data = Inr r"
  shows "set r \<subseteq> insert LF (set data)"
proof -
  obtain lines ls where sc: "scan_lines data = (lines, None)" and
    ls: "without_blocks (startToken feature) (endToken feature) lines = Some ls" and
    r: "r = collapseBlankRuns (trim_final data (unlines ls))" by (rule strip_data_result [OF assms])
  have d: "set (drop_cr l) \<subseteq> set data" if "l \<in> set (raw_lines data)" for l
    using contains_trans [OF raw_line_contains [OF that] drop_cr_contains] by (rule contains_set)
  have "set ls \<subseteq> drop_cr ` set (raw_lines data)"
    using without_blocks_no_start [OF ls] sc by (auto simp: scan_lines_None)
  with d have "\<Union> (set ` set ls) \<subseteq> set data" by blast
  then show ?thesis
    using order_trans [OF collapse_set order_trans [OF trim_final_set unlines_set]] r
    by (force simp: collapseBlankRuns_def)
qed

lemma collapse_no_three:
  "\<not> contains (collapse_from k s) [LF, LF, LF]
    \<and> (Suc 0 \<le> k \<longrightarrow> \<not> has_prefix (collapse_from k s) [LF, LF]) \<and> (2 \<le> k \<longrightarrow> \<not> has_prefix (collapse_from k s) [LF])"
  by (induction s arbitrary: k) (auto simp: has_prefix_def numeral_2_eq_2)

lemma strip_data_again:
  assumes "strip_data path feature data = Inr r" "CR \<notin> set data" "\<not> contains r (startToken feature)"
  shows "strip_data path' feature r = Inr r"
proof -
  obtain lines ls where r: "r = collapseBlankRuns (trim_final data (unlines ls))" by (rule strip_data_result [OF assms(1)])
  have nocr: "CR \<notin> set r" using strip_data_bytes [OF assms(1)] assms(2) by auto
  have lines_r: "map drop_cr (raw_lines r) = raw_lines r"
  proof (rule map_idI)
    fix l assume "l \<in> set (raw_lines r)"
    then have "CR \<notin> set l" using raw_line_contains [of l r] nocr by (auto simp: contains_iff)
    then show "drop_cr l = l" by (rule drop_cr_id)
  qed
  have small: "token_ok l" if l: "l \<in> set (raw_lines r)" for l
  proof (cases "l = []")
    case False
    from strip_data_contains [OF assms(1) raw_line_contains [OF l] raw_lines_no_LF [OF l] False]
    obtain k m where "contains k l" "contains m k" "token_ok m" by blast
    then have "length l \<le> length m" using contains_length by (meson order_trans)
    then show ?thesis using \<open>token_ok m\<close> by (simp add: token_ok_def)
  qed (simp add: token_ok_def max_token_def)
  have "scan_lines r = (raw_lines r, None)" using small by (simp add: scan_lines_None lines_r)
  moreover have "without_blocks (startToken feature) (endToken feature) (raw_lines r) = Some (raw_lines r)"
    using assms(3) raw_line_contains contains_trans by (intro without_blocks_none) blast
  ultimately show ?thesis using r by (simp add: strip_data_equiv trim_final_raw collapseBlankRuns_def collapse_same)
qed

text \<open>
  After a successful strip no start marker of the feature is left anywhere in the file, no
  byte came in that was not there, newlines aside, and no three newlines follow each other. In a
  file without carriage returns, stripping once more changes nothing and cannot fail.
\<close>

theorem strip_data_done:
  assumes "strip_data path feature data = Inr r" "LF \<notin> set feature"
  shows "\<not> contains r (startToken feature) \<and> set r \<subseteq> insert LF (set data) \<and> \<not> contains r [LF, LF, LF]
    \<and> (CR \<notin> set data \<longrightarrow> strip_data path' feature r = Inr r)"
proof -
  note tok = startToken_no_LF [OF assms(2)]
  have no: "\<not> contains r (startToken feature)"
    using strip_data_contains [OF assms(1) _ tok [THEN conjunct1] tok [THEN conjunct2]] by blast
  obtain lines ls where "r = collapseBlankRuns (trim_final data (unlines ls))" by (rule strip_data_result [OF assms(1)])
  then show ?thesis
    using no strip_data_bytes [OF assms(1)] collapse_no_three [of 0] strip_data_again [OF assms(1) _ no]
    by (simp add: collapseBlankRuns_def)
qed

theorem strip_data_done_witness:
  "let data = ''a'' @ [LF] @ ''feature:k:start'' @ [LF] @ ''b'' @ [LF] @ ''feature:k:end'' @ [LF] @ ''c''
   in strip_data ''f'' ''k'' data = Inr (''a'' @ [LF] @ ''c'')
      \<and> strip_data ''g'' ''k'' (''a'' @ [LF] @ ''c'') = Inr (''a'' @ [LF] @ ''c'')"
proof -
  let ?d = "''a'' @ [LF] @ ''feature:k:start'' @ [LF] @ ''b'' @ [LF] @ ''feature:k:end'' @ [LF] @ ''c''"
  have s: "strip_data ''f'' ''k'' ?d = Inr (''a'' @ [LF] @ ''c'')" by code_simp
  have k: "LF \<notin> set ''k''" by simp
  have c: "CR \<notin> set ?d" by simp
  from strip_data_done [OF s k, where path' = "''g''"] c
  have "strip_data ''g'' ''k'' (''a'' @ [LF] @ ''c'') = Inr (''a'' @ [LF] @ ''c'')" by blast
  with s show ?thesis by (simp add: Let_def)
qed

section \<open>Residual markers are gone\<close>

lemma name_char_colon: "\<not> name_char (CHR '':'')" "\<not> name_char LF"
  by (simp_all add: name_char_def)

lemma marker_here_iff:
  "marker_here s \<longleftrightarrow> (\<exists>n w b. s = ''feature:'' @ n @ w @ b \<and> n \<noteq> [] \<and> list_all name_char n \<and> w \<in> {'':start'', '':end''})"
proof
  assume m: "marker_here s"
  define r where "r = drop 8 s"
  have s: "s = ''feature:'' @ r"
  proof -
    have "take 8 s = ''feature:''" using m by (simp add: marker_here_def has_prefix_def eval_nat_numeral)
    then show ?thesis using append_take_drop_id [of 8 s] by (simp only: r_def)
  qed
  have "takeWhile name_char r \<noteq> []"
    "has_prefix (dropWhile name_char r) '':start'' \<or> has_prefix (dropWhile name_char r) '':end''"
    using m unfolding marker_here_def r_def Let_def by blast+
  then obtain w b where w: "dropWhile name_char r = w @ b" "w \<in> {'':start'', '':end''}" "takeWhile name_char r \<noteq> []"
    unfolding has_prefix_iff by blast
  have "r = takeWhile name_char r @ w @ b" using w(1) by (metis takeWhile_dropWhile_id)
  moreover have "list_all name_char (takeWhile name_char r)" by (auto simp: list_all_iff dest: set_takeWhileD)
  ultimately show "\<exists>n w b. s = ''feature:'' @ n @ w @ b \<and> n \<noteq> [] \<and> list_all name_char n \<and> w \<in> {'':start'', '':end''}"
    using s w(2,3) by (intro exI [of _ "takeWhile name_char r"] exI [of _ w] exI [of _ b]) simp
next
  assume "\<exists>n w b. s = ''feature:'' @ n @ w @ b \<and> n \<noteq> [] \<and> list_all name_char n \<and> w \<in> {'':start'', '':end''}"
  then obtain n w b where n: "s = ''feature:'' @ n @ w @ b" "n \<noteq> []" "list_all name_char n" "w \<in> {'':start'', '':end''}"
    by blast
  then obtain v where v: "w = CHR '':'' # v" by auto
  have "takeWhile name_char (n @ w @ b) = n" "dropWhile name_char (n @ w @ b) = w @ b"
    using n(3) v name_char_colon by (simp_all add: list_all_iff)
  then show "marker_here s" using n(1,2,4) by (auto simp: marker_here_def has_prefix_def)
qed

lemma residualMarker_iff:
  "residualMarker s \<longleftrightarrow> (\<exists>n w. n \<noteq> [] \<and> list_all name_char n \<and> w \<in> {'':start'', '':end''} \<and> contains s (''feature:'' @ n @ w))"
proof (induction s)
  case Nil
  then show ?case by simp
next
  case (Cons c s)
  have "marker_here (c # s) \<longleftrightarrow>
      (\<exists>n w. n \<noteq> [] \<and> list_all name_char n \<and> w \<in> {'':start'', '':end''} \<and> has_prefix (c # s) (''feature:'' @ n @ w))"
    unfolding marker_here_iff has_prefix_iff by (auto simp del: append_Cons)
  with Cons show ?case unfolding residualMarker.simps contains.simps by blast
qed

lemma residual_lines:
  assumes "\<forall>l \<in> set ls. \<not> residualMarker l"
  shows "\<not> residualMarker (trim_final data (unlines ls))"
proof
  assume "residualMarker (trim_final data (unlines ls))"
  then obtain n w where n: "n \<noteq> []" "list_all name_char n" "w \<in> {'':start'', '':end''}"
    "contains (trim_final data (unlines ls)) (''feature:'' @ n @ w)" unfolding residualMarker_iff by blast
  have "LF \<notin> set n" using n(2) name_char_colon by (auto simp: list_all_iff)
  then have lf: "LF \<notin> set (''feature:'' @ n @ w)" using n(3) by auto
  then obtain l where "l \<in> set ls" "contains l (''feature:'' @ n @ w)"
    using contains_unlines [OF trim_final_contains [OF n(4)] lf] by blast
  then show False using assms n(1-3) unfolding residualMarker_iff by blast
qed

lemma residual_data_clean:
  "residual_data data = Some r \<Longrightarrow> \<not> residualMarker r"
proof -
  assume "residual_data data = Some r"
  then have "\<exists>ls. r = trim_final data (unlines (filter (\<lambda>l. \<not> residualMarker l) ls))"
    unfolding residual_data_def by (cases "scan_lines data") (auto split: if_splits option.splits)
  then obtain ls where "r = trim_final data (unlines (filter (\<lambda>l. \<not> residualMarker l) ls))" ..
  then show ?thesis using residual_lines [of "filter (\<lambda>l. \<not> residualMarker l) ls" data] by simp
qed

lemma residual_data_None:
  assumes "residual_data data = None" "\<forall>l \<in> set (raw_lines data). token_ok l"
  shows "\<not> residualMarker data"
proof
  assume m: "residualMarker data"
  have "scan_lines data = (map drop_cr (raw_lines data), None)" using assms(2) by (simp add: scan_lines_None)
  with m have "residual_data data \<noteq> None" by (simp add: residual_data_def)
  with assms(1) show False by simp
qed

text \<open>The comment promises the other lines byte for byte; a carriage return before a newline is lost.\<close>

lemma residual_data_drops_cr:
  "residual_data (''a'' @ [CR, LF] @ ''feature:k:end'' @ [LF]) = Some (''a'' @ [LF])"
  by code_simp

end
