(* ===== verification/InitTool.thy ===== *)
theory InitTool
  imports Stripper
begin

text \<open>
  cmd/init: the program that turns the template into a project. The tree under the project root
  is a list of files, each a path relative to the root and its bytes, in the order a walk visits
  them; every operation is logged with the error it ended in, if any. Failures of the operating system, the answers of external
  commands and what these do to the files are the environment, as functions of the state.
\<close>

section \<open>The tree and the operating system\<close>

type_synonym tree = "(string \<times> string) list"

datatype init_event =
    RemovedAll string "go_error option"
  | RemovedFile string
  | Wrote string "go_error option"
  | Ran string "string list" "go_error option"

record init_state =
  is_files :: tree
  is_log :: "init_event list"

text \<open>
  What an attempt to read, stat or visit a file fails with; the error of a failed write or removal
  with what it leaves; an executed command's error, output and tree; \<open>exec.LookPath\<close>;
  \<open>git status --porcelain\<close>; and the form, with the module path and the feature keys it returns.
\<close>

record init_env =
  ie_root :: string
  ie_visit :: "init_state \<Rightarrow> string \<Rightarrow> go_error option"
  ie_read :: "init_state \<Rightarrow> string \<Rightarrow> go_error option"
  ie_stat :: "init_state \<Rightarrow> string \<Rightarrow> go_error option"
  ie_write :: "init_state \<Rightarrow> string \<Rightarrow> (go_error \<times> string) option"
  ie_remove_all :: "init_state \<Rightarrow> string \<Rightarrow> (go_error \<times> (string \<Rightarrow> bool)) option"
  ie_remove :: "init_state \<Rightarrow> string \<Rightarrow> bool"
  ie_exec :: "init_state \<Rightarrow> string \<Rightarrow> string list \<Rightarrow> go_error option \<times> string \<times> tree"
  ie_look_path :: "init_state \<Rightarrow> string \<Rightarrow> go_error option"
  ie_git_status :: "init_state \<Rightarrow> go_error + string"
  ie_form :: "string \<Rightarrow> go_error + (string \<times> string list)"

type_synonym init_step = "init_state \<Rightarrow> go_error option \<times> init_state"

text \<open>Go on unless there was an error; the same over a list.\<close>

definition then_do :: "go_error option \<times> init_state \<Rightarrow> init_step \<Rightarrow> go_error option \<times> init_state" where
  "then_do r f = (case r of (None, s) \<Rightarrow> f s | (Some e, s) \<Rightarrow> (Some e, s))"

fun each :: "('a \<Rightarrow> init_step) \<Rightarrow> 'a list \<Rightarrow> init_step" where
  "each f [] s = (None, s)"
| "each f (x # xs) s = then_do (f x s) (each f xs)"

definition wrapped :: "string \<Rightarrow> go_error option \<times> init_state \<Rightarrow> go_error option \<times> init_state" where
  "wrapped m r = (map_option (\<lambda>e. WrapError (m @ '': '') e []) (fst r), snd r)"

definition full_path :: "init_env \<Rightarrow> string \<Rightarrow> string" where
  "full_path env f = (if ie_root env = ''/'' then ''/'' @ f else ie_root env @ ''/'' @ f)"

definition below :: "string \<Rightarrow> string \<Rightarrow> bool" where
  "below p f \<longleftrightarrow> f = p \<or> has_prefix f (p @ ''/'')"

definition os_RemoveAll :: "init_env \<Rightarrow> string \<Rightarrow> init_step" where
  "os_RemoveAll env p s =
     (let s' = s\<lparr>is_log := is_log s @ [RemovedAll p (map_option fst (ie_remove_all env s p))]\<rparr>
      in case ie_remove_all env s p of
           None \<Rightarrow> (None, s'\<lparr>is_files := filter (\<lambda>(f, _). \<not> below p f) (is_files s)\<rparr>)
         | Some (e, left) \<Rightarrow> (Some e, s'\<lparr>is_files := filter (\<lambda>(f, _). below p f \<longrightarrow> left f) (is_files s)\<rparr>))"

definition os_WriteFile :: "init_env \<Rightarrow> string \<Rightarrow> string \<Rightarrow> init_step" where
  "os_WriteFile env f data s =
     (let s' = s\<lparr>is_log := is_log s @ [Wrote f (map_option fst (ie_write env s f))]\<rparr>
      in case ie_write env s f of
           None \<Rightarrow> (None, s'\<lparr>is_files := alist_set f data (is_files s)\<rparr>)
         | Some (e, left) \<Rightarrow> (Some e, s'\<lparr>is_files := alist_set f left (is_files s)\<rparr>))"

definition os_Exec :: "init_env \<Rightarrow> string \<Rightarrow> string list \<Rightarrow> init_state \<Rightarrow> go_error option \<times> string \<times> init_state" where
  "os_Exec env bin args s =
     (let (e, out, files) = ie_exec env s bin args
      in (e, out, s\<lparr>is_files := files, is_log := is_log s @ [Ran bin args e]\<rparr>))"

section \<open>stripper.go on the tree\<close>

definition stripFeatureFromFile :: "init_env \<Rightarrow> string \<Rightarrow> string \<Rightarrow> init_step" where
  "stripFeatureFromFile env feature f s =
     (case map_of (is_files s) f of
        None \<Rightarrow> (None, s)
      | Some data \<Rightarrow>
         (case ie_read env s f of
            Some e \<Rightarrow> (Some (WrapError (''read '' @ full_path env f @ '': '') e []), s)
          | None \<Rightarrow>
             (case strip_data (full_path env f) feature data of
                Inl e \<Rightarrow> (Some e, s)
              | Inr result \<Rightarrow>
                 (case ie_stat env s f of
                    Some e \<Rightarrow> (Some (WrapError (''stat '' @ full_path env f @ '': '') e []), s)
                  | None \<Rightarrow> os_WriteFile env f result s))))"

definition residual_skip_dirs :: "string list" where
  "residual_skip_dirs = [''.git'', ''node_modules'', ''vendor'', ''bin'']"

definition dirs_of :: "string \<Rightarrow> string list" where
  "dirs_of f = butlast (split_on (CHR ''/'') f)"

definition residual_visit :: "init_env \<Rightarrow> string \<Rightarrow> init_step" where
  "residual_visit env f s =
     (if list_ex (\<lambda>d. d \<in> set residual_skip_dirs) (dirs_of f) then (None, s)
      else case ie_visit env s f of
             Some e \<Rightarrow> (Some e, s)
           | None \<Rightarrow>
              (case (ie_read env s f, map_of (is_files s) f) of
                 (None, Some data) \<Rightarrow>
                   (case residual_data data of
                      None \<Rightarrow> (None, s)
                    | Some result \<Rightarrow> if ie_stat env s f \<noteq> None then (None, s) else os_WriteFile env f result s)
               | _ \<Rightarrow> (None, s)))"

definition stripAllResidualMarkers :: "init_env \<Rightarrow> init_step" where
  "stripAllResidualMarkers env s = each (residual_visit env) (map fst (is_files s)) s"

section \<open>manifest.go\<close>

record Feature =
  ft_Name :: string
  ft_DeletePaths :: "string list"
  ft_MarkerFiles :: "string list"

definition allMarkerFiles :: "string list" where
  "allMarkerFiles =
     [''cmd/server/wire.go'', ''cmd/server/providers.go'', ''cmd/server/main.go'', ''cmd/worker/wire.go'',
      ''cmd/worker/providers.go'', ''cmd/worker/main.go'', ''internal/platform/config/config.go'',
      ''internal/platform/database/mongo.go'', ''internal/user/wire.go'', ''config/config.yaml'', ''.mockery.yaml'',
      ''Makefile'', ''docker-compose.yml'', ''.env.example'', ''README.md'', ''CLAUDE.md'']"

definition Features :: "Feature list" where
  "Features =
     [\<lparr>ft_Name = ''kafka'',
       ft_DeletePaths = [''internal/platform/kafka'', ''internal/user/event_handler.go'', ''internal/user/event_handler_test.go'',
         ''internal/platform/health/kafka_checker.go'', ''internal/platform/health/kafka_checker_test.go''],
       ft_MarkerFiles = allMarkerFiles\<rparr>,
      \<lparr>ft_Name = ''sqs'',
       ft_DeletePaths = [''internal/platform/sqs'', ''internal/platform/health/sqs_checker.go'',
         ''internal/platform/health/sqs_checker_test.go'', ''docker-compose.localstack.yml'', ''scripts/sqs-create-dev-queues.sh''],
       ft_MarkerFiles = allMarkerFiles\<rparr>,
      \<lparr>ft_Name = ''observability'',
       ft_DeletePaths = [''internal/platform/observability'', ''internal/platform/database/mongo_otel.go'',
         ''internal/platform/config/config_observability_test.go'', ''docker-compose.signoz.yml'', ''deploy/signoz''],
       ft_MarkerFiles = allMarkerFiles\<rparr>,
      \<lparr>ft_Name = ''samples'',
       ft_DeletePaths = [''internal/user'', ''internal/role'', ''scripts/scaffold.sh''],
       ft_MarkerFiles = allMarkerFiles\<rparr>]"

definition WorkerMarkerFiles :: "string list" where "WorkerMarkerFiles = allMarkerFiles"

definition findFeature :: "string \<Rightarrow> Feature option" where
  "findFeature name = find (\<lambda>f. ft_Name f = name) Features"

definition computeStripList :: "bool \<Rightarrow> bool \<Rightarrow> bool \<Rightarrow> bool \<Rightarrow> string list" where
  "computeStripList noKafka noSQS noObs noSamples =
     (if noKafka then [''kafka''] else []) @ (if noSQS then [''sqs''] else [])
     @ (if noObs then [''observability''] else []) @ (if noSamples then [''samples''] else [])"

section \<open>rename.go\<close>

definition oldModule :: string where "oldModule = ''github.com/rock288/go-mongo-boilerplate''"

definition replaceableExtensions :: "string list" where
  "replaceableExtensions = [''.go'', ''.md'', ''.yaml'', ''.yml'', ''.sh'', ''.example'']"

definition validateModulePath :: "string \<Rightarrow> go_error option" where
  "validateModulePath s =
     (if s = [] then Some (NewError ''module path required'')
      else if \<not> contains s ''/'' then Some (NewError ''must contain /, e.g. github.com/you/repo'')
      else if has_prefix s ''/'' \<or> has_suffix s ''/'' then Some (NewError ''no leading/trailing slash'')
      else if list_ex (\<lambda>c. c \<in> {CHR '' '', CHR 0x09, LF}) s then Some (NewError ''no whitespace allowed'')
      else None)"

text \<open>\<open>filepath.Ext\<close> of a name: from its last dot on.\<close>

definition file_ext :: "string \<Rightarrow> string" where
  "file_ext name = (case last_index name (CHR ''.'') of None \<Rightarrow> [] | Some i \<Rightarrow> drop i name)"

definition rename_touches :: "init_env \<Rightarrow> string \<Rightarrow> bool" where
  "rename_touches env f =
     (let name = last (split_on (CHR ''/'') f);
          ext = to_lower (file_ext name);
          isSpecial = (name = ''Makefile'' \<or> name = ''Dockerfile'' \<or> name = ''go.mod'' \<or> has_prefix name ''.env'')
      in (ext \<in> set replaceableExtensions \<or> isSpecial) \<and> \<not> has_suffix (full_path env f) ''/cmd/init/rename.go'')"

definition rename_skip_dirs :: "string list" where
  "rename_skip_dirs = [''vendor'', ''.git'', ''node_modules'', ''bin'']"

definition rename_visit :: "init_env \<Rightarrow> string \<Rightarrow> string \<Rightarrow> init_step" where
  "rename_visit env newModule f s =
     (if list_ex (\<lambda>d. d \<in> set rename_skip_dirs) (dirs_of f) then (None, s)
      else case ie_visit env s f of
             Some e \<Rightarrow> (Some e, s)
           | None \<Rightarrow>
              if \<not> rename_touches env f then (None, s)
              else (case map_of (is_files s) f of
                      None \<Rightarrow> (None, s)
                    | Some data \<Rightarrow>
                       (case ie_read env s f of
                          Some e \<Rightarrow> (Some e, s)
                        | None \<Rightarrow>
                           if \<not> contains data oldModule then (None, s)
                           else os_WriteFile env f (replace_all data oldModule newModule) s)))"

text \<open>The walk starts at the root, whose own name may be one of those it skips.\<close>

definition renameModule :: "init_env \<Rightarrow> string \<Rightarrow> init_step" where
  "renameModule env newModule s =
     (if newModule = [] \<or> newModule = oldModule then (None, s)
      else case validateModulePath newModule of
             Some e \<Rightarrow> (Some (WrapError (''invalid module path \"'' @ newModule @ ''\": '') e []), s)
           | None \<Rightarrow>
              (case os_Exec env ''go'' [''mod'', ''edit'', ''-module='' @ newModule] s of
                 (Some e, out, s) \<Rightarrow>
                   (Some (WrapError (''go mod edit -module='' @ newModule @ '': '' @ trim_space out @ '': '') e []), s)
               | (None, out, s) \<Rightarrow>
                   if last (split_on (CHR ''/'') (ie_root env)) \<in> set rename_skip_dirs then (None, s)
                   else each (rename_visit env newModule) (map fst (is_files s)) s))"

definition detectCurrentModule :: "init_env \<Rightarrow> init_state \<Rightarrow> go_error + string" where
  "detectCurrentModule env s =
     (case (map_of (is_files s) ''go.mod'', ie_read env s ''go.mod'') of
        (None, _) \<Rightarrow> Inl (NewError ''open go.mod: no such file or directory'')
      | (Some data, Some e) \<Rightarrow> Inl e
      | (Some data, None) \<Rightarrow>
         (case find (\<lambda>l. has_prefix l ''module '') (split_on LF data) of
            Some line \<Rightarrow> Inr (trim_space (trim_prefix line ''module ''))
          | None \<Rightarrow> Inl (NewError ''no module directive in go.mod'')))"

section \<open>actions.go, deleter.go, destruct.go\<close>

definition deletePaths :: "init_env \<Rightarrow> string list \<Rightarrow> init_step" where
  "deletePaths env paths = each (\<lambda>p s. wrapped (''remove '' @ full_path env p) (os_RemoveAll env p s)) paths"

definition checkPrereqs :: "init_env \<Rightarrow> init_state \<Rightarrow> go_error option" where
  "checkPrereqs env s =
     (case find (\<lambda>bin. ie_look_path env s bin \<noteq> None) [''wire'', ''mockery''] of
        None \<Rightarrow> None
      | Some bin \<Rightarrow> Some (NewError (bin @ '' not found in PATH; install with:'' @ [LF]
          @ ''  go install github.com/google/wire/cmd/wire@latest'' @ [LF]
          @ ''  go install github.com/vektra/mockery/v3@latest'' @ [LF]
          @ ''and ensure $(go env GOPATH)/bin is on PATH'')))"

definition skipIfNoMockeryConfig :: "init_env \<Rightarrow> init_state \<Rightarrow> bool" where
  "skipIfNoMockeryConfig env s =
     (case (map_of (is_files s) ''.mockery.yaml'', ie_read env s ''.mockery.yaml'') of
        (Some data, None) \<Rightarrow>
          \<not> list_ex (\<lambda>line. let trimmed = trim_space line
                        in trimmed \<noteq> [] \<and> \<not> has_prefix trimmed ''#''
                           \<and> has_prefix line ''  '' \<and> has_suffix trimmed '':'' \<and> contains trimmed ''/'')
             (split_on LF data)
      | _ \<Rightarrow> True)"

record PostAction =
  pa_Name :: string
  pa_Bin :: string
  pa_Args :: "string list"
  pa_SkipIf :: "(init_env \<Rightarrow> init_state \<Rightarrow> bool) option"

definition PostActions :: "PostAction list" where
  "PostActions =
     [\<lparr>pa_Name = ''gofmt'', pa_Bin = ''gofmt'', pa_Args = [''-w'', ''.''], pa_SkipIf = None\<rparr>,
      \<lparr>pa_Name = ''wire regen'', pa_Bin = ''wire'', pa_Args = [''./...''], pa_SkipIf = None\<rparr>,
      \<lparr>pa_Name = ''go mod tidy'', pa_Bin = ''go'', pa_Args = [''mod'', ''tidy''], pa_SkipIf = None\<rparr>,
      \<lparr>pa_Name = ''mockery regen'', pa_Bin = ''mockery'', pa_Args = [], pa_SkipIf = Some skipIfNoMockeryConfig\<rparr>,
      \<lparr>pa_Name = ''go build'', pa_Bin = ''go'', pa_Args = [''build'', ''./...''], pa_SkipIf = None\<rparr>]"

definition run_post_action :: "init_env \<Rightarrow> PostAction \<Rightarrow> init_step" where
  "run_post_action env a s =
     (if (case pa_SkipIf a of None \<Rightarrow> False | Some skip \<Rightarrow> skip env s) then (None, s)
      else case os_Exec env (pa_Bin a) (pa_Args a) s of
             (e, out, s) \<Rightarrow>
               wrapped (pa_Name a @ '' (cd '' @ ie_root env @ '' && '' @ pa_Bin a @ '' ['' @ strings_join (pa_Args a) '' '' @ ''])'') (e, s))"

definition os_Remove :: "init_env \<Rightarrow> string \<Rightarrow> init_state \<Rightarrow> init_state" where
  "os_Remove env f s =
     s\<lparr>is_log := is_log s @ [RemovedFile f],
       is_files := (if ie_remove env s f then filter (\<lambda>(g, _). g \<noteq> f) (is_files s) else is_files s)\<rparr>"

definition runPostActions :: "init_env \<Rightarrow> init_step" where
  "runPostActions env s =
     (case checkPrereqs env s of
        Some e \<Rightarrow> (Some e, s)
      | None \<Rightarrow>
          each (run_post_action env) PostActions
            (os_Remove env ''cmd/worker/wire_gen.go'' (os_Remove env ''cmd/server/wire_gen.go'' s)))"

definition runOne :: "init_env \<Rightarrow> string \<Rightarrow> string list \<Rightarrow> init_step" where
  "runOne env bin args s =
     (case ie_look_path env s bin of
        Some e \<Rightarrow> (Some (WrapError (bin @ '' not in PATH: '') e []), s)
      | None \<Rightarrow> (case os_Exec env bin args s of (e, out, s) \<Rightarrow> (e, s)))"

definition selfDestruct :: "init_env \<Rightarrow> init_step" where
  "selfDestruct env s =
     then_do (then_do (then_do
       (wrapped ''remove cmd/init'' (os_RemoveAll env ''cmd/init'' s))
       (\<lambda>s. wrapped ''strip residual markers'' (stripAllResidualMarkers env s)))
       (\<lambda>s. wrapped ''final gofmt'' (runOne env ''gofmt'' [''-w'', ''.''] s)))
       (\<lambda>s. wrapped ''final go mod tidy'' (runOne env ''go'' [''mod'', ''tidy''] s))"

section \<open>prompt.go, main.go\<close>

record Selection =
  sel_Module :: string
  sel_Keep :: "string \<Rightarrow> bool"

definition runPrompt :: "init_env \<Rightarrow> string \<Rightarrow> go_error + Selection" where
  "runPrompt env defaultModule =
     (case ie_form env defaultModule of
        Inl e \<Rightarrow> Inl e
      | Inr (m, keepKeys) \<Rightarrow> Inr \<lparr>sel_Module = m, sel_Keep = \<lambda>k. k \<in> set keepKeys\<rparr>)"

definition stripListFromSelection :: "Selection \<Rightarrow> string list" where
  "stripListFromSelection s =
     computeStripList (\<not> sel_Keep s ''kafka'') (\<not> sel_Keep s ''sqs'') (\<not> sel_Keep s ''observability'') (\<not> sel_Keep s ''samples'')"

definition keptAndRemoved :: "bool \<Rightarrow> bool \<Rightarrow> bool \<Rightarrow> bool \<Rightarrow> string list \<times> string list" where
  "keptAndRemoved noKafka noSQS noObs noSamples =
     (let all = [(''kafka'', noKafka), (''sqs'', noSQS), (''observability'', noObs), (''samples'', noSamples)];
          removed = map fst (filter snd all);
          kept = map fst (filter (\<lambda>f. \<not> snd f) all)
      in (kept, removed @ (if noKafka \<and> noSQS then [''worker (cascade)''] else [])))"

definition printSummary :: "string \<Rightarrow> string list \<Rightarrow> string list \<Rightarrow> string list" where
  "printSummary modulePath kept removed =
     [[], [CHR 0xE2, CHR 0x9C, CHR 0x93] @ '' Bootstrap complete'']
     @ (if modulePath \<noteq> [] then [''  Module: '' @ modulePath] else [])
     @ (if kept \<noteq> [] then [''  Features kept:    '' @ strings_join kept '', ''] else [])
     @ (if removed \<noteq> [] then [''  Features removed: '' @ strings_join removed '', ''] else [])
     @ [[], ''Next steps:'', ''  make migrate-up   # apply Mongo migrations'', ''  make run          # start the HTTP server'']
     @ (if list_ex (\<lambda>k. k = ''kafka'' \<or> k = ''sqs'') kept then [''  make worker       # start the message consumer''] else [])
     @ [[]]"

definition isCleanGitTree :: "init_env \<Rightarrow> init_state \<Rightarrow> bool" where
  "isCleanGitTree env s = (case ie_git_status env s of Inl e \<Rightarrow> False | Inr out \<Rightarrow> trim_space out = [])"

record init_flags =
  fl_showVersion :: bool
  fl_nonInteractive :: bool
  fl_force :: bool
  fl_noKafka :: bool
  fl_noSQS :: bool
  fl_noObs :: bool
  fl_noSamples :: bool
  fl_module :: string

text \<open>
  \<open>log.Fatalf\<close> with its message; the version; nothing to do; or the end, with the error of the
  self-destruction, if any, and the summary: the features it names as kept and as removed.
\<close>

datatype init_exit =
    FatalExit string
  | VersionShown
  | NothingSelected
  | Bootstrapped "go_error option" "string list" "string list" "string list"

text \<open>Delete and strip each selected feature, then the worker.\<close>

definition strip_selected :: "init_env \<Rightarrow> string \<Rightarrow> init_step" where
  "strip_selected env name s =
     (case findFeature name of
        None \<Rightarrow> (Some (NewError (''unknown feature \"'' @ name @ ''\"'')), s)
      | Some feat \<Rightarrow>
          then_do (wrapped (''delete '' @ name) (deletePaths env (ft_DeletePaths feat) s))
            (each (\<lambda>f s. wrapped (''strip '' @ name @ '' from '' @ f) (stripFeatureFromFile env name f s)) (ft_MarkerFiles feat)))"

definition strip_worker :: "init_env \<Rightarrow> bool \<Rightarrow> init_step" where
  "strip_worker env cascade s =
     (if \<not> cascade then (None, s)
      else then_do (wrapped ''cascade-delete cmd/worker'' (deletePaths env [''cmd/worker''] s))
        (each (\<lambda>f s. wrapped (''strip worker from '' @ f) (stripFeatureFromFile env ''worker'' f s)) WorkerMarkerFiles))"

definition default_module :: "init_env \<Rightarrow> string \<Rightarrow> init_state \<Rightarrow> string" where
  "default_module env modulePath s =
     (if modulePath \<noteq> [] then modulePath
      else case detectCurrentModule env s of
             Inr detected \<Rightarrow> if detected \<noteq> [] \<and> detected \<noteq> oldModule then detected else ''github.com/yourorg/your-service''
           | Inl e \<Rightarrow> ''github.com/yourorg/your-service'')"

text \<open>Steps 1 to 3 of \<open>main\<close>: the rename, the strip of each selected feature, the cascade.\<close>

definition init_rename :: "init_env \<Rightarrow> string \<Rightarrow> init_step" where
  "init_rename env modulePath s =
     (if modulePath \<noteq> [] \<and> modulePath \<noteq> oldModule then wrapped ''rename module'' (renameModule env modulePath s) else (None, s))"

definition init_strip :: "init_env \<Rightarrow> string list \<Rightarrow> bool \<Rightarrow> bool \<Rightarrow> init_step" where
  "init_strip env selected noKafka noSQS s =
     then_do (each (strip_selected env) selected s) (strip_worker env (noKafka \<and> noSQS))"

text \<open>What is left of \<open>main\<close> once the selection is made.\<close>

definition init_apply ::
  "init_env \<Rightarrow> string list \<Rightarrow> string \<Rightarrow> bool \<Rightarrow> bool \<Rightarrow> bool \<Rightarrow> bool \<Rightarrow> init_state \<Rightarrow> init_exit \<times> init_state" where
  "init_apply env selected modulePath noKafka noSQS noObs noSamples s =
     (let moduleChanged = (modulePath \<noteq> [] \<and> modulePath \<noteq> oldModule)
      in case init_rename env modulePath s of
           (Some e, s) \<Rightarrow> (FatalExit (error_text e), s)
         | (None, s) \<Rightarrow>
            (case init_strip env selected noKafka noSQS s of
               (Some e, s) \<Rightarrow> (FatalExit (error_text e), s)
             | (None, s) \<Rightarrow>
                if selected = [] \<and> (\<not> noKafka \<or> \<not> noSQS) \<and> \<not> moduleChanged then (NothingSelected, s)
                else (case wrapped ''post-actions'' (runPostActions env s) of
                        (Some e, s) \<Rightarrow> (FatalExit (error_text e), s)
                      | (None, s) \<Rightarrow>
                         (let (kept, removed) = keptAndRemoved noKafka noSQS noObs noSamples;
                              (err, s) = selfDestruct env s
                          in (Bootstrapped err kept removed (printSummary modulePath kept removed), s)))))"

definition init_main :: "init_env \<Rightarrow> init_flags \<Rightarrow> init_state \<Rightarrow> init_exit \<times> init_state" where
  "init_main env fl s =
     (if fl_showVersion fl then (VersionShown, s)
      else if \<not> fl_force fl \<and> \<not> isCleanGitTree env s
        then (FatalExit (''dirty git tree at '' @ ie_root env @ ''; commit/stash first or pass --force''), s)
      else
        let selected = computeStripList (fl_noKafka fl) (fl_noSQS fl) (fl_noObs fl) (fl_noSamples fl)
        in if fl_nonInteractive fl
           then init_apply env selected (fl_module fl) (fl_noKafka fl) (fl_noSQS fl) (fl_noObs fl) (fl_noSamples fl) s
           else (case runPrompt env (default_module env (fl_module fl) s) of
                   Inl e \<Rightarrow> (FatalExit (''prompt: '' @ error_text e), s)
                 | Inr sel \<Rightarrow>
                     init_apply env (stripListFromSelection sel) (sel_Module sel) (\<not> sel_Keep sel ''kafka'') (\<not> sel_Keep sel ''sqs'')
                       (fl_noObs fl) (fl_noSamples fl) s))"

end
