(* ===== verification/InitCorrect.thy ===== *)
theory InitCorrect
  imports InitTool
begin

text \<open>
  What cmd/init guarantees: the deselected features are gone from the tree and nothing else was
  touched, no marker survives, and the tool removes itself only after everything else succeeded.
\<close>

section \<open>Sequences of steps\<close>

lemma then_do_None: "then_do r f = (None, s') \<longleftrightarrow> (\<exists>s. r = (None, s) \<and> f s = (None, s'))"
  by (auto simp: then_do_def split: prod.splits option.splits)

lemma wrapped_None [simp]: "wrapped m r = (None, s') \<longleftrightarrow> r = (None, s')"
  by (cases r) (simp add: wrapped_def)

lemma each_None:
  assumes "each f xs s = (None, s')" and "P s"
    and "\<And>x s s'. x \<in> set xs \<Longrightarrow> f x s = (None, s') \<Longrightarrow> P s \<Longrightarrow> P s'"
  shows "P s'"
  using assms
proof (induction xs arbitrary: s)
  case (Cons x xs)
  then obtain s1 where s1: "f x s = (None, s1)" "each f xs s1 = (None, s')" by (auto simp: then_do_None)
  then have "P s1" using Cons.prems(2,3) by auto
  from Cons.IH [OF s1(2) this] Cons.prems(3) show ?case by auto
qed simp

lemma each_all:
  assumes "each f xs s = (None, s')"
    and "\<And>x s s'. x \<in> set xs \<Longrightarrow> f x s = (None, s') \<Longrightarrow> Q x s'"
    and "\<And>x y s s'. x \<in> set xs \<Longrightarrow> y \<in> set xs \<Longrightarrow> f y s = (None, s') \<Longrightarrow> Q x s \<Longrightarrow> Q x s'"
  shows "\<forall>x \<in> set xs. Q x s'"
  using assms
proof (induction xs arbitrary: s)
  case (Cons x xs)
  then obtain s1 where s1: "f x s = (None, s1)" "each f xs s1 = (None, s')" by (auto simp: then_do_None)
  have "Q x s1" using Cons.prems(2) s1(1) by simp
  have "Q x s'"
  proof (rule each_None [OF s1(2), of "Q x"])
    show "Q x s1" by fact
    fix y a b assume "y \<in> set xs" "f y a = (None, b)" "Q x a"
    then show "Q x b" using Cons.prems(3) [of x y a b] by simp
  qed
  moreover have "\<forall>y \<in> set xs. Q y s'"
  proof (rule Cons.IH [OF s1(2)])
    fix y a b assume "y \<in> set xs" "f y a = (None, b)"
    then show "Q y b" using Cons.prems(2) by simp
  next
    fix y z a b assume "y \<in> set xs" "z \<in> set xs" "f z a = (None, b)" "Q y a"
    then show "Q y b" using Cons.prems(3) [of y z a b] by simp
  qed
  ultimately show ?case by simp
qed simp

text \<open>
  Whether what an event records succeeded; \<open>main\<close> does not look at the error of
  \<open>os.Remove\<close>, so that event has none.
\<close>

fun succeeded :: "init_event \<Rightarrow> bool" where
  "succeeded (RemovedAll p e) = (e = None)"
| "succeeded (RemovedFile f) = True"
| "succeeded (Wrote f e) = (e = None)"
| "succeeded (Ran bin args e) = (e = None)"

text \<open>A step that only adds events of a kind to the log, all of them successes if it succeeds.\<close>

definition logs :: "(init_event \<Rightarrow> bool) \<Rightarrow> init_state \<Rightarrow> go_error option \<times> init_state \<Rightarrow> bool" where
  "logs P s r \<longleftrightarrow> (\<exists>t. is_log (snd r) = is_log s @ t \<and> (\<forall>x \<in> set t. P x) \<and> (fst r = None \<longrightarrow> (\<forall>x \<in> set t. succeeded x)))"

lemma logs_refl [simp, intro]: "logs P s (e, s)"
  by (simp add: logs_def)

lemma logs_trans: "logs P a (None, b) \<Longrightarrow> logs P b r \<Longrightarrow> logs P a r"
  by (auto simp: logs_def)

lemma logs_one:
  "is_log (snd r) = is_log s @ [x] \<Longrightarrow> P x \<Longrightarrow> (fst r = None \<Longrightarrow> succeeded x) \<Longrightarrow> logs P s r"
  by (auto simp: logs_def)

lemma logs_wrapped [simp]: "logs P s (wrapped m r) \<longleftrightarrow> logs P s r"
  by (simp add: logs_def wrapped_def)

lemma snd_wrapped [simp]: "snd (wrapped m r) = snd r"
  by (simp add: wrapped_def)

lemma then_do_logs: "logs P s r \<Longrightarrow> (\<And>s'. logs P s' (f s')) \<Longrightarrow> logs P s (then_do r f)"
  by (cases r) (auto simp: then_do_def intro: logs_trans split: option.splits)

lemma each_logs: "(\<And>x s. x \<in> set xs \<Longrightarrow> logs P s (f x s)) \<Longrightarrow> logs P s (each f xs s)"
proof (induction xs arbitrary: s)
  case (Cons x xs)
  then show ?case by (simp add: then_do_logs)
qed simp

named_theorems step_logs "what each step adds to the log"

lemma os_RemoveAll_logs [step_logs]: "(\<And>e. P (RemovedAll p e)) \<Longrightarrow> logs P s (os_RemoveAll env p s)"
  by (rule logs_one [of _ _ "RemovedAll p (map_option fst (ie_remove_all env s p))"])
    (auto simp: os_RemoveAll_def Let_def split: option.splits)

lemma os_WriteFile_logs [step_logs]: "(\<And>e. P (Wrote f e)) \<Longrightarrow> logs P s (os_WriteFile env f d s)"
  by (rule logs_one [of _ _ "Wrote f (map_option fst (ie_write env s f))"])
    (auto simp: os_WriteFile_def Let_def split: option.splits)

lemma os_Exec_logs: "os_Exec env bin args s = (e, out, s') \<Longrightarrow> is_log s' = is_log s @ [Ran bin args e]"
  by (auto simp: os_Exec_def split: prod.splits)

lemma stripFeature_logs [step_logs]: "(\<And>e. P (Wrote f e)) \<Longrightarrow> logs P s (stripFeatureFromFile env feature f s)"
  by (auto simp: stripFeatureFromFile_def intro: os_WriteFile_logs split: option.splits sum.splits)

lemma rename_visit_logs [step_logs]: "(\<And>e. P (Wrote f e)) \<Longrightarrow> logs P s (rename_visit env m f s)"
  by (auto simp: rename_visit_def intro: os_WriteFile_logs split: option.splits)

lemma deletePaths_logs [step_logs]:
  "(\<And>p e. p \<in> set ps \<Longrightarrow> P (RemovedAll p e)) \<Longrightarrow> logs P s (deletePaths env ps s)"
  unfolding deletePaths_def by (rule each_logs) (simp add: os_RemoveAll_logs)

lemma run_post_action_logs [step_logs]: "(\<And>e. P (Ran (pa_Bin a) (pa_Args a) e)) \<Longrightarrow> logs P s (run_post_action env a s)"
  by (auto simp: run_post_action_def dest!: os_Exec_logs intro!: logs_one split: prod.splits option.splits)

section \<open>Deselected features\<close>

text \<open>The paths of a feature, and of the worker for the cascade; their marker tokens.\<close>

definition cleared :: "string \<Rightarrow> init_state \<Rightarrow> bool" where
  "cleared p s \<longleftrightarrow> (\<forall>f \<in> fst ` set (is_files s). \<not> below p f)"

definition gone :: "string list \<Rightarrow> string \<Rightarrow> init_state \<Rightarrow> bool" where
  "gone paths feature s \<longleftrightarrow>
     (\<forall>p \<in> set paths. cleared p s)
     \<and> (\<forall>f \<in> set allMarkerFiles. \<forall>data. map_of (is_files s) f = Some data \<longrightarrow> \<not> contains data (startToken feature))"

lemma map_of_filter_key: "map_of (filter (\<lambda>(f, _). P f) m) f = (if P f then map_of m f else None)"
  by (induction m) auto

lemma alist_set_keys: "map_of m f = Some d0 \<Longrightarrow> fst ` set (alist_set f d m) = fst ` set m"
proof -
  assume "map_of m f = Some d0"
  then have "f \<in> fst ` set m" by (force dest: map_of_SomeD)
  then show ?thesis using keys_alist_set [of f d m] by (simp add: insert_absorb)
qed

text \<open>A successful deletion or strip: some files go, some lose text, none is added.\<close>

definition shrinks :: "init_state \<Rightarrow> init_state \<Rightarrow> bool" where
  "shrinks s s' \<longleftrightarrow>
     fst ` set (is_files s') \<subseteq> fst ` set (is_files s)
     \<and> (\<forall>f d'. map_of (is_files s') f = Some d' \<longrightarrow>
          (\<exists>d. map_of (is_files s) f = Some d \<and> (\<forall>t. contains d' t \<and> LF \<notin> set t \<and> t \<noteq> [] \<longrightarrow> contains d t)))"

lemma shrinks_refl [simp, intro]: "shrinks s s"
  by (auto simp: shrinks_def)

lemma shrinks_trans: "shrinks a b \<Longrightarrow> shrinks b c \<Longrightarrow> shrinks a c"
  unfolding shrinks_def by (intro conjI) (blast, meson)

lemma cleared_shrinks: "cleared p s \<Longrightarrow> shrinks s s' \<Longrightarrow> cleared p s'"
  unfolding cleared_def shrinks_def by blast

lemma gone_shrinks:
  assumes "gone ps feature s" "shrinks s s'" "LF \<notin> set feature"
  shows "gone ps feature s'"
proof -
  note tok = startToken_no_LF [OF assms(3)]
  have "cleared p s'" if "p \<in> set ps" for p
    using assms(1) cleared_shrinks [OF _ assms(2)] that by (simp add: gone_def)
  moreover have "\<not> contains d' (startToken feature)" if "f \<in> set allMarkerFiles" "map_of (is_files s') f = Some d'" for f d'
    using assms(1,2) that tok unfolding gone_def shrinks_def by blast
  ultimately show ?thesis unfolding gone_def by blast
qed

lemma RemoveAll_shrinks:
  assumes "os_RemoveAll env p s = (None, s')"
  shows "shrinks s s' \<and> cleared p s'
    \<and> (\<forall>f. \<not> below p f \<longrightarrow> map_of (is_files s') f = map_of (is_files s) f)"
proof -
  have "is_files s' = filter (\<lambda>(f, _). \<not> below p f) (is_files s)"
    using assms by (auto simp: os_RemoveAll_def Let_def split: option.splits)
  then show ?thesis by (auto simp: shrinks_def cleared_def map_of_filter_key split: if_splits)
qed

lemma strip_data_no_new:
  assumes "strip_data path feature data = Inr r" "contains r t" "LF \<notin> set t" "t \<noteq> []"
  shows "contains data t"
proof -
  obtain lines ls where sc: "scan_lines data = (lines, None)" and
    ls: "without_blocks (startToken feature) (endToken feature) lines = Some ls" and
    r: "r = collapseBlankRuns (trim_final data (unlines ls))"
    using assms(1) unfolding strip_data_equiv by (auto split: prod.splits option.splits)
  have "contains (unlines ls) t"
    using collapse_contains [of 0 "trim_final data (unlines ls)" t] trim_final_contains assms(2-4) r
    by (auto simp: collapseBlankRuns_def)
  then obtain l where "l \<in> set ls" "contains l t" using contains_unlines assms(3,4) by blast
  moreover obtain k where "k \<in> set (raw_lines data)" "l = drop_cr k"
    using without_blocks_no_start [OF ls] sc \<open>l \<in> set ls\<close> by (auto simp: scan_lines_None)
  ultimately show ?thesis using drop_cr_contains raw_line_contains contains_trans by blast
qed

lemma stripFeature_shrinks:
  assumes "stripFeatureFromFile env feature f s = (None, s')" "LF \<notin> set feature"
  shows "shrinks s s' \<and> (\<forall>d. map_of (is_files s') f = Some d \<longrightarrow> \<not> contains d (startToken feature))
    \<and> (\<forall>g. g \<noteq> f \<longrightarrow> map_of (is_files s') g = map_of (is_files s) g)"
proof (cases "map_of (is_files s) f")
  case None
  then show ?thesis using assms(1) by (auto simp: stripFeatureFromFile_def)
next
  case (Some data)
  then obtain r where r: "strip_data (full_path env f) feature data = Inr r" "os_WriteFile env f r s = (None, s')"
    using assms(1) by (auto simp: stripFeatureFromFile_def split: option.splits sum.splits)
  then have files: "is_files s' = alist_set f r (is_files s)"
    by (auto simp: os_WriteFile_def Let_def split: option.splits)
  have "shrinks s s'"
    unfolding shrinks_def files using alist_set_keys [OF Some] Some strip_data_no_new [OF r(1)] by auto
  then show ?thesis using strip_data_done [OF r(1) assms(2)] by (simp add: files)
qed

lemma deletePaths_gone:
  assumes "deletePaths env ps s = (None, s')"
  shows "shrinks s s' \<and> (\<forall>p \<in> set ps. cleared p s')
    \<and> (\<forall>f. (\<forall>p \<in> set ps. \<not> below p f) \<longrightarrow> map_of (is_files s') f = map_of (is_files s) f)"
proof -
  let ?f = "\<lambda>p s. wrapped (''remove '' @ full_path env p) (os_RemoveAll env p s)"
  have e: "each ?f ps s = (None, s')" using assms by (simp add: deletePaths_def)
  have "shrinks s s'"
    by (rule each_None [OF e, of "shrinks s"]) (auto dest: RemoveAll_shrinks intro: shrinks_trans)
  moreover have "\<forall>p \<in> set ps. cleared p s'"
  proof (rule each_all [OF e])
    fix p s s' assume "?f p s = (None, s')"
    then show "cleared p s'" using RemoveAll_shrinks by simp
  next
    fix x y s s' assume "?f y s = (None, s')" "cleared x s"
    then show "cleared x s'" using RemoveAll_shrinks cleared_shrinks by simp
  qed
  moreover have "map_of (is_files s') f = map_of (is_files s) f" if "\<forall>p \<in> set ps. \<not> below p f" for f
    by (rule each_None [OF e, of "\<lambda>x. map_of (is_files x) f = map_of (is_files s) f"])
      (use that in \<open>auto dest: RemoveAll_shrinks\<close>)
  ultimately show ?thesis by blast
qed

text \<open>Deleting the paths of a feature and stripping its blocks, the body of both loops of \<open>main\<close>.\<close>

lemma delete_and_strip:
  assumes "then_do (wrapped m (deletePaths env ps s))
      (each (\<lambda>f s. wrapped (m' f) (stripFeatureFromFile env feature f s)) allMarkerFiles) = (None, s')"
    and "LF \<notin> set feature"
  shows "shrinks s s' \<and> gone ps feature s'
    \<and> (\<forall>f. f \<notin> set allMarkerFiles \<and> (\<forall>p \<in> set ps. \<not> below p f) \<longrightarrow> map_of (is_files s') f = map_of (is_files s) f)"
proof -
  let ?f = "\<lambda>f s. wrapped (m' f) (stripFeatureFromFile env feature f s)"
  obtain s1 where d: "deletePaths env ps s = (None, s1)" and e: "each ?f allMarkerFiles s1 = (None, s')"
    using assms(1) by (auto simp: then_do_None)
  note d1 = deletePaths_gone [OF d] and one = stripFeature_shrinks [OF _ assms(2)]
  have sh: "shrinks s1 s'"
    by (rule each_None [OF e, of "shrinks s1"]) (auto dest: one intro: shrinks_trans)
  have "\<forall>f \<in> set allMarkerFiles. \<forall>d. map_of (is_files s') f = Some d \<longrightarrow> \<not> contains d (startToken feature)"
  proof (rule each_all [OF e])
    fix f s s' assume "?f f s = (None, s')"
    then show "\<forall>d. map_of (is_files s') f = Some d \<longrightarrow> \<not> contains d (startToken feature)" using one by simp
  next
    fix x y s s' assume "?f y s = (None, s')" and q: "\<forall>d. map_of (is_files s) x = Some d \<longrightarrow> \<not> contains d (startToken feature)"
    then have "shrinks s s'" using one by simp
    with q startToken_no_LF [OF assms(2)] show "\<forall>d. map_of (is_files s') x = Some d \<longrightarrow> \<not> contains d (startToken feature)"
      unfolding shrinks_def by blast
  qed
  moreover have "\<forall>p \<in> set ps. cleared p s'"
    using d1 cleared_shrinks [OF _ sh] by blast
  moreover have "map_of (is_files s') f = map_of (is_files s1) f" if "f \<notin> set allMarkerFiles" for f
  proof (rule each_None [OF e, of "\<lambda>x. map_of (is_files x) f = map_of (is_files s1) f"])
    fix x a b assume "x \<in> set allMarkerFiles" "?f x a = (None, b)" "map_of (is_files a) f = map_of (is_files s1) f"
    moreover from this that have "f \<noteq> x" by blast
    ultimately show "map_of (is_files b) f = map_of (is_files s1) f" using one [of env x a b] by simp
  qed simp
  ultimately show ?thesis
    using d1 shrinks_trans [of s s1 s'] sh unfolding gone_def by simp
qed

lemma findFeature_props:
  assumes "findFeature name = Some feat"
  shows "ft_Name feat = name \<and> ft_MarkerFiles feat = allMarkerFiles \<and> LF \<notin> set name
    \<and> ''cmd/init'' \<notin> set (ft_DeletePaths feat)"
proof -
  have "feat \<in> set Features" "ft_Name feat = name"
    using assms by (auto simp: findFeature_def find_Some_iff)
  then show ?thesis by (auto simp: Features_def)
qed

lemma strip_selected_gone:
  assumes "strip_selected env name s = (None, s')"
  shows "\<exists>feat. findFeature name = Some feat \<and> LF \<notin> set name \<and> shrinks s s' \<and> gone (ft_DeletePaths feat) name s'
    \<and> (\<forall>f. f \<notin> set allMarkerFiles \<and> (\<forall>p \<in> set (ft_DeletePaths feat). \<not> below p f)
          \<longrightarrow> map_of (is_files s') f = map_of (is_files s) f)"
proof -
  obtain feat where feat: "findFeature name = Some feat"
    using assms by (auto simp: strip_selected_def split: option.splits)
  note p = findFeature_props [OF feat]
  have "then_do (wrapped (''delete '' @ name) (deletePaths env (ft_DeletePaths feat) s))
      (each (\<lambda>f s. wrapped (''strip '' @ name @ '' from '' @ f) (stripFeatureFromFile env name f s)) allMarkerFiles) = (None, s')"
    using assms feat p by (simp add: strip_selected_def)
  from delete_and_strip [OF this] feat p show ?thesis by auto
qed

text \<open>The paths that a selection may delete.\<close>

definition selected_paths :: "string list \<Rightarrow> bool \<Rightarrow> string list" where
  "selected_paths names cascade =
     concat (map (\<lambda>n. case findFeature n of None \<Rightarrow> [] | Some feat \<Rightarrow> ft_DeletePaths feat) names)
     @ (if cascade then [''cmd/worker''] else [])"

lemma strip_all_gone:
  assumes "each (strip_selected env) names s = (None, s')"
  shows "\<forall>name \<in> set names. \<exists>feat. findFeature name = Some feat \<and> LF \<notin> set name \<and> gone (ft_DeletePaths feat) name s'"
proof (rule each_all [OF assms])
  fix name s s' assume "strip_selected env name s = (None, s')"
  then show "\<exists>feat. findFeature name = Some feat \<and> LF \<notin> set name \<and> gone (ft_DeletePaths feat) name s'"
    using strip_selected_gone by blast
next
  fix x y s s' assume "strip_selected env y s = (None, s')"
    and "\<exists>feat. findFeature x = Some feat \<and> LF \<notin> set x \<and> gone (ft_DeletePaths feat) x s"
  then show "\<exists>feat. findFeature x = Some feat \<and> LF \<notin> set x \<and> gone (ft_DeletePaths feat) x s'"
    using strip_selected_gone gone_shrinks by blast
qed

lemma strip_all_frame:
  assumes "each (strip_selected env) names s = (None, s')"
    and "f \<notin> set allMarkerFiles" "\<forall>p \<in> set (selected_paths names cascade). \<not> below p f"
  shows "map_of (is_files s') f = map_of (is_files s) f"
proof (rule each_None [OF assms(1), of "\<lambda>x. map_of (is_files x) f = map_of (is_files s) f"])
  fix n a b assume n: "n \<in> set names" "strip_selected env n a = (None, b)" "map_of (is_files a) f = map_of (is_files s) f"
  from strip_selected_gone [OF n(2)] assms(2) obtain feat where feat: "findFeature n = Some feat"
    "(\<forall>p \<in> set (ft_DeletePaths feat). \<not> below p f) \<longrightarrow> map_of (is_files b) f = map_of (is_files a) f"
    by auto
  moreover have "set (ft_DeletePaths feat) \<subseteq> set (selected_paths names cascade)"
    using n(1) feat(1) by (fastforce simp: selected_paths_def)
  ultimately show "map_of (is_files b) f = map_of (is_files s) f" using assms(3) n(3) by auto
qed simp

lemma strip_worker_gone:
  assumes "strip_worker env cascade s = (None, s')"
  shows "shrinks s s' \<and> (cascade \<longrightarrow> gone [''cmd/worker''] ''worker'' s')
    \<and> (\<forall>f. f \<notin> set allMarkerFiles \<and> (\<forall>p \<in> set (selected_paths names cascade). \<not> below p f)
          \<longrightarrow> map_of (is_files s') f = map_of (is_files s) f)"
proof (cases cascade)
  case False
  then show ?thesis using assms by (simp add: strip_worker_def)
next
  case True
  then have "then_do (wrapped ''cascade-delete cmd/worker'' (deletePaths env [''cmd/worker''] s))
      (each (\<lambda>f s. wrapped (''strip worker from '' @ f) (stripFeatureFromFile env ''worker'' f s)) allMarkerFiles) = (None, s')"
    using assms by (simp add: strip_worker_def WorkerMarkerFiles_def)
  from delete_and_strip [OF this] True show ?thesis by (auto simp: selected_paths_def)
qed

text \<open>The strip phase deletes no file but those below the paths it deletes.\<close>

definition keeps :: "(string \<Rightarrow> bool) \<Rightarrow> init_state \<Rightarrow> init_state \<Rightarrow> bool" where
  "keeps P s s' \<longleftrightarrow> (\<forall>f. P f \<longrightarrow> (map_of (is_files s') f = None \<longleftrightarrow> map_of (is_files s) f = None))"

lemma keeps_refl [simp, intro]: "keeps P s s"
  by (simp add: keeps_def)

lemma keeps_trans: "keeps P a b \<Longrightarrow> keeps P b c \<Longrightarrow> keeps P a c"
  by (simp add: keeps_def)

lemma stripFeature_keeps: "stripFeatureFromFile env feature f s = (None, s') \<Longrightarrow> keeps P s s'"
  by (auto simp: stripFeatureFromFile_def keeps_def os_WriteFile_def Let_def split: option.splits sum.splits if_splits)

lemma each_keeps: "each g xs s = (None, s') \<Longrightarrow> (\<And>x a b. x \<in> set xs \<Longrightarrow> g x a = (None, b) \<Longrightarrow> keeps P a b) \<Longrightarrow> keeps P s s'"
  by (rule each_None [of g xs s s' "keeps P s"]) (auto intro: keeps_trans)

lemma delete_strip_keeps:
  assumes "then_do (wrapped m (deletePaths env ps s))
      (each (\<lambda>f s. wrapped (m' f) (stripFeatureFromFile env feature f s)) fs) = (None, s')"
  shows "keeps (\<lambda>f. \<forall>p \<in> set ps. \<not> below p f) s s'"
proof -
  obtain s1 where d: "deletePaths env ps s = (None, s1)"
    and e: "each (\<lambda>f s. wrapped (m' f) (stripFeatureFromFile env feature f s)) fs s1 = (None, s')"
    using assms by (auto simp: then_do_None)
  have "keeps (\<lambda>f. \<forall>p \<in> set ps. \<not> below p f) s s1" using deletePaths_gone [OF d] by (simp add: keeps_def)
  moreover have "keeps (\<lambda>f. \<forall>p \<in> set ps. \<not> below p f) s1 s'"
    by (rule each_keeps [OF e]) (auto dest: stripFeature_keeps)
  ultimately show ?thesis by (rule keeps_trans)
qed

lemma keeps_mono: "keeps P s s' \<Longrightarrow> (\<And>f. Q f \<Longrightarrow> P f) \<Longrightarrow> keeps Q s s'"
  by (simp add: keeps_def)

lemma init_strip_keeps:
  assumes "init_strip env names noKafka noSQS s = (None, s')"
  shows "keeps (\<lambda>f. \<forall>p \<in> set (selected_paths names (noKafka \<and> noSQS)). \<not> below p f) s s'"
proof -
  let ?P = "\<lambda>f. \<forall>p \<in> set (selected_paths names (noKafka \<and> noSQS)). \<not> below p f"
  obtain s1 where e: "each (strip_selected env) names s = (None, s1)"
    and w: "strip_worker env (noKafka \<and> noSQS) s1 = (None, s')"
    using assms by (auto simp: init_strip_def then_do_None)
  have "keeps ?P s s1"
  proof (rule each_keeps [OF e])
    fix n a b assume n: "n \<in> set names" "strip_selected env n a = (None, b)"
    then obtain feat where feat: "findFeature n = Some feat" by (auto simp: strip_selected_def split: option.splits)
    with n(2) have "keeps (\<lambda>f. \<forall>p \<in> set (ft_DeletePaths feat). \<not> below p f) a b"
      by (intro delete_strip_keeps) (simp add: strip_selected_def)
    moreover have sub: "set (ft_DeletePaths feat) \<subseteq> set (selected_paths names (noKafka \<and> noSQS))"
      using n(1) feat by (fastforce simp: selected_paths_def)
    ultimately show "keeps ?P a b" by (elim keeps_mono) (use sub in blast)
  qed
  moreover have "keeps ?P s1 s'"
  proof (cases "noKafka \<and> noSQS")
    case True
    then have "keeps (\<lambda>f. \<forall>p \<in> set [''cmd/worker'']. \<not> below p f) s1 s'"
      using w by (intro delete_strip_keeps) (simp add: strip_worker_def)
    then show ?thesis by (rule keeps_mono) (simp add: selected_paths_def True)
  next
    case False
    then show ?thesis using w by (auto simp: strip_worker_def)
  qed
  ultimately show ?thesis by (rule keeps_trans)
qed

text \<open>
  C17: when the strip phase succeeds, no file of a deselected feature is left and none of the
  files that the tool lists as carrying markers holds a start marker of it; when both brokers are
  deselected, and only then, the worker goes the same way; no file but those below the paths so
  deleted goes, and every other file that is not one of those that carry markers is as it was.
\<close>

theorem init_features_gone:
  assumes "init_strip env names noKafka noSQS s = (None, s')"
  shows "(\<forall>name \<in> set names. \<exists>feat. findFeature name = Some feat \<and> gone (ft_DeletePaths feat) name s')
    \<and> (noKafka \<and> noSQS \<longrightarrow> gone [''cmd/worker''] ''worker'' s')
    \<and> (\<forall>f. (\<forall>p \<in> set (selected_paths names (noKafka \<and> noSQS)). \<not> below p f)
          \<longrightarrow> (map_of (is_files s') f = None \<longleftrightarrow> map_of (is_files s) f = None))
    \<and> (\<forall>f. f \<notin> set allMarkerFiles \<and> (\<forall>p \<in> set (selected_paths names (noKafka \<and> noSQS)). \<not> below p f)
          \<longrightarrow> map_of (is_files s') f = map_of (is_files s) f)"
proof -
  obtain s1 where e: "each (strip_selected env) names s = (None, s1)"
    and w: "strip_worker env (noKafka \<and> noSQS) s1 = (None, s')"
    using assms by (auto simp: init_strip_def then_do_None)
  note worker = strip_worker_gone [OF w, of names]
  have "\<forall>name \<in> set names. \<exists>feat. findFeature name = Some feat \<and> gone (ft_DeletePaths feat) name s'"
    using strip_all_gone [OF e] gone_shrinks worker by blast
  moreover have "map_of (is_files s') f = map_of (is_files s) f"
    if "f \<notin> set allMarkerFiles" "\<forall>p \<in> set (selected_paths names (noKafka \<and> noSQS)). \<not> below p f" for f
    using worker strip_all_frame [OF e that] that by simp
  ultimately show ?thesis using worker init_strip_keeps [OF assms] unfolding keeps_def by blast
qed

section \<open>The tool itself\<close>

definition not_self :: "init_event \<Rightarrow> bool" where
  "not_self x \<longleftrightarrow> (\<forall>e. x \<noteq> RemovedAll ''cmd/init'' e)"

text \<open>The commands that were executed.\<close>

fun command :: "init_event \<Rightarrow> (string \<times> string list) list" where
  "command (Ran bin args e) = [(bin, args)]"
| "command _ = []"

definition commands :: "init_event list \<Rightarrow> (string \<times> string list) list" where
  "commands t = concat (map command t)"

lemma commands_simps [simp]:
  "commands [] = []" "commands (x # t) = command x @ commands t" "commands (t @ u) = commands t @ commands u"
  by (simp_all add: commands_def)

text \<open>An event that neither runs a command nor removes the tool.\<close>

definition quiet :: "init_event \<Rightarrow> bool" where
  "quiet x \<longleftrightarrow> not_self x \<and> command x = []"

lemma not_self_simps [simp]:
  "not_self (Wrote f e)" "not_self (Ran b a e)" "not_self (RemovedFile f)"
  "not_self (RemovedAll p e) \<longleftrightarrow> p \<noteq> ''cmd/init''"
  by (auto simp: not_self_def)

lemma quiet_simps [simp]: "quiet (Wrote f e)" "quiet (RemovedAll p e) \<longleftrightarrow> p \<noteq> ''cmd/init''"
  by (simp_all add: quiet_def)

lemma quiet_commands: "\<forall>x \<in> set t. quiet x \<Longrightarrow> commands t = []"
  by (induction t) (auto simp: quiet_def)

lemma quiet_logs: "logs quiet s r \<Longrightarrow> logs not_self s r"
  by (auto simp: logs_def quiet_def)

lemma strip_selected_logs: "logs quiet s (strip_selected env name s)"
proof (cases "findFeature name")
  case (Some feat)
  have "logs quiet s (deletePaths env (ft_DeletePaths feat) s)"
    using findFeature_props [OF Some] by (intro deletePaths_logs) auto
  then show ?thesis
    by (auto simp: strip_selected_def Some intro!: then_do_logs each_logs stripFeature_logs)
qed (simp add: strip_selected_def)

lemma strip_worker_logs: "logs quiet s (strip_worker env cascade s)"
  by (auto simp: strip_worker_def intro!: then_do_logs each_logs stripFeature_logs deletePaths_logs)

lemma init_strip_logs: "logs quiet s (init_strip env sel nk ns s)"
  unfolding init_strip_def by (intro then_do_logs each_logs strip_selected_logs strip_worker_logs)

text \<open>The rename runs one command, first; then it only writes.\<close>

definition go_mod_edit :: "string \<Rightarrow> string \<times> string list" where
  "go_mod_edit m = (''go'', [''mod'', ''edit'', ''-module='' @ m])"

lemma renameModule_logs:
  "logs not_self s (renameModule env m s)
   \<and> (m \<noteq> [] \<and> m \<noteq> oldModule \<and> fst (renameModule env m s) = None \<longrightarrow>
        (\<exists>t. is_log (snd (renameModule env m s)) = is_log s @ t \<and> commands t = [go_mod_edit m]))"
proof -
  obtain e out s1 where x: "os_Exec env ''go'' [''mod'', ''edit'', ''-module='' @ m] s = (e, out, s1)"
    by (metis prod_cases3)
  note l = os_Exec_logs [OF x]
  have l1: "logs not_self s (e', s1)" if "e' = None \<Longrightarrow> e = None" for e'
    by (rule logs_one [OF _]) (use l that in auto)
  have w: "logs quiet s1 (each (rename_visit env m) (map fst (is_files s1)) s1)"
    by (rule each_logs) (simp add: rename_visit_logs)
  show ?thesis
  proof (cases "m = [] \<or> m = oldModule \<or> validateModulePath m \<noteq> None \<or> e \<noteq> None")
    case True
    then show ?thesis using x l1 by (auto simp: renameModule_def split: option.splits)
  next
    case False
    let ?r = "if last (split_on (CHR ''/'') (ie_root env)) \<in> set rename_skip_dirs then (None, s1)
      else each (rename_visit env m) (map fst (is_files s1)) s1"
    have r: "renameModule env m s = ?r" using False x by (simp add: renameModule_def)
    have q: "logs quiet s1 ?r" using w by simp
    then have "logs not_self s ?r" using l1 [of None] False by (blast intro: logs_trans quiet_logs)
    moreover obtain t where "is_log (snd ?r) = is_log s1 @ t" "\<forall>x \<in> set t. quiet x"
      using q unfolding logs_def by blast
    then have "is_log (snd ?r) = is_log s @ Ran ''go'' [''mod'', ''edit'', ''-module='' @ m] e # t
        \<and> commands (Ran ''go'' [''mod'', ''edit'', ''-module='' @ m] e # t) = [go_mod_edit m]"
      using l quiet_commands by (simp add: go_mod_edit_def)
    then have "\<exists>t. is_log (snd ?r) = is_log s @ t \<and> commands t = [go_mod_edit m]" by blast
    ultimately show ?thesis unfolding r by blast
  qed
qed

lemma init_rename_logs:
  "logs not_self s (init_rename env m s)
   \<and> (fst (init_rename env m s) = None \<longrightarrow>
        (\<exists>t. is_log (snd (init_rename env m s)) = is_log s @ t
           \<and> commands t = (if m \<noteq> [] \<and> m \<noteq> oldModule then [go_mod_edit m] else [])))"
proof (cases "m \<noteq> [] \<and> m \<noteq> oldModule")
  case True
  then have "init_rename env m s = wrapped ''rename module'' (renameModule env m s)" by (simp add: init_rename_def)
  moreover have "fst (wrapped ''rename module'' r) = None \<longleftrightarrow> fst r = None" for r by (simp add: wrapped_def)
  ultimately show ?thesis using renameModule_logs [of s env m] True by simp
qed (auto simp: init_rename_def)

lemma run_post_action_ran:
  assumes "run_post_action env a s = (None, s')"
  shows "is_log s' = is_log s @ (if \<exists>skip. pa_SkipIf a = Some skip \<and> skip env s then [] else [Ran (pa_Bin a) (pa_Args a) None])"
  using assms by (auto simp: run_post_action_def dest!: os_Exec_logs split: prod.splits option.splits if_splits)

lemma os_Remove_log [simp]: "is_log (os_Remove env f s) = is_log s @ [RemovedFile f]"
  by (simp add: os_Remove_def)

text \<open>The commands of the post-actions: the mocks only when something is configured for them.\<close>

definition post_commands :: "bool \<Rightarrow> (string \<times> string list) list" where
  "post_commands mocks =
     [(''gofmt'', [''-w'', ''.'']), (''wire'', [''./...'']), (''go'', [''mod'', ''tidy''])]
     @ (if mocks then [(''mockery'', [])] else [])"

definition go_build :: init_event where
  "go_build = Ran ''go'' [''build'', ''./...''] None"

lemma go_build_simps [simp]:
  "not_self go_build" "succeeded go_build" "command go_build = [(''go'', [''build'', ''./...''])]"
  by (simp_all add: go_build_def)

lemma runPostActions_logs: "logs not_self s (runPostActions env s)"
proof (cases "checkPrereqs env s")
  case None
  let ?s1 = "os_Remove env ''cmd/server/wire_gen.go'' s"
  let ?s = "os_Remove env ''cmd/worker/wire_gen.go'' ?s1"
  have "logs not_self s (None, ?s1)" "logs not_self ?s1 (None, ?s)"
    by (rule logs_one [where x = "RemovedFile ''cmd/server/wire_gen.go''"], simp_all)
      (rule logs_one [where x = "RemovedFile ''cmd/worker/wire_gen.go''"], simp_all)
  moreover have "logs not_self ?s (each (run_post_action env) PostActions ?s)"
    by (rule each_logs) (simp add: run_post_action_logs)
  ultimately show ?thesis using None by (auto simp: runPostActions_def intro: logs_trans)
qed (auto simp: runPostActions_def)

text \<open>The build is the last of the post-actions.\<close>

lemma runPostActions_ran:
  assumes "runPostActions env s = (None, s')"
  shows "\<exists>t mocks. is_log s' = is_log s @ t @ [go_build] \<and> commands t = post_commands mocks"
proof -
  let ?s0 = "os_Remove env ''cmd/worker/wire_gen.go'' (os_Remove env ''cmd/server/wire_gen.go'' s)"
  obtain s1 s2 s3 s4 where
    "run_post_action env (PostActions ! 0) ?s0 = (None, s1)" "run_post_action env (PostActions ! 1) s1 = (None, s2)"
    "run_post_action env (PostActions ! 2) s2 = (None, s3)" "run_post_action env (PostActions ! 3) s3 = (None, s4)"
    "run_post_action env (PostActions ! 4) s4 = (None, s')"
    using assms by (auto simp: runPostActions_def PostActions_def then_do_None split: option.splits)
  note ran = this [THEN run_post_action_ran]
  let ?mocks = "\<not> skipIfNoMockeryConfig env s3"
  let ?t = "[RemovedFile ''cmd/server/wire_gen.go'', RemovedFile ''cmd/worker/wire_gen.go'',
      Ran ''gofmt'' [''-w'', ''.''] None, Ran ''wire'' [''./...''] None, Ran ''go'' [''mod'', ''tidy''] None]
      @ (if ?mocks then [Ran ''mockery'' [] None] else [])"
  have "is_log s' = is_log s @ ?t @ [go_build]" using ran by (simp add: PostActions_def go_build_def)
  moreover have "commands ?t = post_commands ?mocks" by (simp add: post_commands_def)
  ultimately show ?thesis by blast
qed

lemma then_do_assoc: "then_do (then_do r f) g = then_do r (\<lambda>s. then_do (f s) g)"
  by (cases r) (auto simp: then_do_def split: option.splits)

lemma then_do_fst: "fst r = None \<Longrightarrow> then_do r f = f (snd r)" "fst r \<noteq> None \<Longrightarrow> then_do r f = r"
  by (cases r; auto simp: then_do_def)+

text \<open>The tool's own directory is the first thing the self-destruction removes.\<close>

lemma selfDestruct_log:
  "\<exists>rm t. is_log (snd (selfDestruct env s)) = is_log s @ RemovedAll ''cmd/init'' rm # t"
proof -
  let ?a = "wrapped ''remove cmd/init'' (os_RemoveAll env ''cmd/init'' s)"
  have run: "logs (\<lambda>x. True) s' (runOne env bin args s')" for bin args s'
    by (auto simp: runOne_def dest!: os_Exec_logs intro!: logs_one split: option.splits prod.splits)
  have visit: "logs (\<lambda>x. True) s' (residual_visit env f s')" for f s'
    by (auto simp: residual_visit_def intro: os_WriteFile_logs split: option.splits)
  let ?rest = "\<lambda>s. then_do (then_do (wrapped ''strip residual markers'' (stripAllResidualMarkers env s))
       (\<lambda>s. wrapped ''final gofmt'' (runOne env ''gofmt'' [''-w'', ''.''] s)))
       (\<lambda>s. wrapped ''final go mod tidy'' (runOne env ''go'' [''mod'', ''tidy''] s))"
  have l: "logs (\<lambda>x. True) s' (?rest s')" for s'
    by (intro then_do_logs) (auto simp: stripAllResidualMarkers_def intro!: each_logs run visit)
  have r: "selfDestruct env s = then_do ?a ?rest"
    unfolding selfDestruct_def by (simp only: then_do_assoc)
  have "\<exists>t. is_log (snd (then_do ?a ?rest)) = is_log (snd ?a) @ t"
  proof (cases "fst ?a")
    case None
    from then_do_fst(1) [OF this] have "then_do ?a ?rest = ?rest (snd ?a)" .
    then show ?thesis using l [of "snd ?a"] by (auto simp: logs_def)
  next
    case (Some e)
    then have "fst ?a \<noteq> None" by simp
    from then_do_fst(2) [OF this] have "then_do ?a ?rest = ?a" .
    then show ?thesis by simp
  qed
  moreover have "is_log (snd ?a) = is_log s @ [RemovedAll ''cmd/init'' (map_option fst (ie_remove_all env s ''cmd/init''))]"
    by (auto simp: os_RemoveAll_def Let_def split: option.splits)
  ultimately show ?thesis unfolding r by auto
qed

text \<open>
  What the user chose, by the flags or in the form: the module path and the features to
  keep; and the steps that must all succeed before the tool removes itself.
\<close>

definition init_choice :: "init_env \<Rightarrow> init_flags \<Rightarrow> init_state \<Rightarrow> (string \<times> (string \<Rightarrow> bool)) option" where
  "init_choice env fl s =
     (if fl_nonInteractive fl
      then Some (fl_module fl, \<lambda>f. f = ''kafka'' \<and> \<not> fl_noKafka fl \<or> f = ''sqs'' \<and> \<not> fl_noSQS fl
        \<or> f = ''observability'' \<and> \<not> fl_noObs fl \<or> f = ''samples'' \<and> \<not> fl_noSamples fl)
      else case ie_form env (default_module env (fl_module fl) s) of
             Inl e \<Rightarrow> None
           | Inr (m, keys) \<Rightarrow> Some (m, \<lambda>f. f \<in> set keys))"

definition deselected :: "(string \<Rightarrow> bool) \<Rightarrow> string list" where
  "deselected keep = filter (\<lambda>f. \<not> keep f) [''kafka'', ''sqs'', ''observability'', ''samples'']"

definition init_steps :: "init_env \<Rightarrow> string \<Rightarrow> (string \<Rightarrow> bool) \<Rightarrow> init_step" where
  "init_steps env m keep s =
     then_do (then_do (init_rename env m s)
       (init_strip env (deselected keep) (\<not> keep ''kafka'') (\<not> keep ''sqs'')))
       (runPostActions env)"

text \<open>The end of the tool: its status, the summary and what the self-destruction makes of the tree.\<close>

definition bootstrapped :: "init_env \<Rightarrow> string \<Rightarrow> string list \<times> string list \<Rightarrow> init_state \<Rightarrow> init_exit \<times> init_state" where
  "bootstrapped env m kr s =
     (Bootstrapped (fst (selfDestruct env s)) (fst kr) (snd kr) (printSummary m (fst kr) (snd kr)), snd (selfDestruct env s))"

lemma init_apply_result:
  assumes "nk \<longleftrightarrow> \<not> keep ''kafka''" "ns \<longleftrightarrow> \<not> keep ''sqs''"
  shows "\<exists>msg. init_apply env (deselected keep) m nk ns no nsa s =
    (if deselected keep = [] \<and> m \<in> {[], oldModule} then (NothingSelected, s)
     else case init_steps env m keep s of
            (Some e, s') \<Rightarrow> (FatalExit msg, s')
          | (None, s') \<Rightarrow> bootstrapped env m (keptAndRemoved nk ns no nsa) s')"
proof -
  obtain e1 s1 where r: "init_rename env m s = (e1, s1)" by fastforce
  obtain e2 s2 where p: "init_strip env (deselected keep) nk ns s1 = (e2, s2)" by fastforce
  obtain e3 s3 where q: "runPostActions env s2 = (e3, s3)" by fastforce
  obtain err s4 where d: "selfDestruct env s3 = (err, s4)" by fastforce
  have kept: "deselected keep = [] \<Longrightarrow> \<not> nk \<and> \<not> ns"
    using assms by (auto simp: deselected_def split: if_splits)
  have idle: "e1 = None \<and> e2 = None \<and> s1 = s \<and> s2 = s" if "deselected keep = []" "m \<in> {[], oldModule}"
  proof -
    have "e1 = None \<and> s1 = s" using r that(2) by (auto simp: init_rename_def)
    moreover have "e2 = None \<and> s2 = s1"
      using p that(1) kept by (simp add: init_strip_def strip_worker_def then_do_def)
    ultimately show ?thesis by simp
  qed
  note p' = p [unfolded assms]
  have steps: "init_steps env m keep s = (case e1 of Some e \<Rightarrow> (e1, s1) | None \<Rightarrow> case e2 of Some e \<Rightarrow> (e2, s2) | None \<Rightarrow> (e3, s3))"
    using p' by (auto simp: init_steps_def r then_do_def q split: option.splits)
  show ?thesis
  proof (cases "deselected keep = [] \<and> m \<in> {[], oldModule}")
    case True
    then show ?thesis using r p idle kept by (auto simp: init_apply_def Let_def)
  next
    case False
    then have go: "\<not> (deselected keep = [] \<and> (\<not> nk \<or> \<not> ns) \<and> \<not> (m \<noteq> [] \<and> m \<noteq> oldModule))" using kept by auto
    then show ?thesis
      unfolding init_apply_def Let_def steps bootstrapped_def
      using False p by (cases e1; cases e2; cases e3) (auto simp: r q d wrapped_def split_beta)
  qed
qed

lemma stripList_deselected: "stripListFromSelection sel = deselected (sel_Keep sel)"
  by (simp add: stripListFromSelection_def computeStripList_def deselected_def)

lemma stripList_flags:
  "computeStripList a b c d
   = deselected (\<lambda>f. f = ''kafka'' \<and> \<not> a \<or> f = ''sqs'' \<and> \<not> b \<or> f = ''observability'' \<and> \<not> c \<or> f = ''samples'' \<and> \<not> d)"
  by (simp add: computeStripList_def deselected_def)

text \<open>Past the checks, \<open>main\<close> applies the choice.\<close>

lemma init_main_choice:
  assumes "\<not> fl_showVersion fl" "fl_force fl \<or> isCleanGitTree env s" "init_choice env fl s = Some (m, keep)"
  shows "init_main env fl s
    = init_apply env (deselected keep) m (\<not> keep ''kafka'') (\<not> keep ''sqs'') (fl_noObs fl) (fl_noSamples fl) s"
  using assms
  by (auto simp: init_main_def init_choice_def runPrompt_def stripList_deselected stripList_flags Let_def
      split: sum.splits if_splits)

lemma init_steps_log:
  assumes "init_steps env m keep s = (e, s')"
  shows "logs not_self s (e, s')"
    and "e = None \<Longrightarrow> \<exists>t mocks. is_log s' = is_log s @ t @ [go_build]
      \<and> commands t = (if m \<in> {[], oldModule} then [] else [go_mod_edit m]) @ post_commands mocks"
proof -
  have "logs not_self s (init_steps env m keep s)"
    unfolding init_steps_def
    using init_rename_logs quiet_logs [OF init_strip_logs] runPostActions_logs by (intro then_do_logs) blast+
  then show "logs not_self s (e, s')" using assms by simp
  assume "e = None"
  then obtain s1 s2 where r: "init_rename env m s = (None, s1)"
    and p: "init_strip env (deselected keep) (\<not> keep ''kafka'') (\<not> keep ''sqs'') s1 = (None, s2)"
    and q: "runPostActions env s2 = (None, s')"
    using assms by (auto simp: init_steps_def then_do_None)
  from init_rename_logs [of s env m] r obtain a where a: "is_log s1 = is_log s @ a"
    "commands a = (if m \<in> {[], oldModule} then [] else [go_mod_edit m])" by (auto split: if_splits)
  from init_strip_logs [of s1 env "deselected keep" "\<not> keep ''kafka''" "\<not> keep ''sqs''"] p
  obtain b where "is_log s2 = is_log s1 @ b" "\<forall>x \<in> set b. quiet x" by (auto simp: logs_def)
  then have b: "is_log s2 = is_log s1 @ b" "commands b = []" using quiet_commands by simp_all
  from runPostActions_ran [OF q] obtain c mocks where c: "is_log s' = is_log s2 @ c @ [go_build]" "commands c = post_commands mocks"
    by blast
  have "is_log s' = is_log s @ (a @ b @ c) @ [go_build]
      \<and> commands (a @ b @ c) = (if m \<in> {[], oldModule} then [] else [go_mod_edit m]) @ post_commands mocks"
    using a b c by simp
  then show "\<exists>t mocks. is_log s' = is_log s @ t @ [go_build]
      \<and> commands t = (if m \<in> {[], oldModule} then [] else [go_mod_edit m]) @ post_commands mocks" by blast
qed

lemma bootstrapped_log:
  assumes "init_steps env m keep s = (None, s1)" "bootstrapped env m kr s1 = (x, s')"
  shows "(\<exists>err kept removed lines. x = Bootstrapped err kept removed lines)
    \<and> (\<exists>t1 mocks rm t2. is_log s' = is_log s @ t1 @ [go_build] @ RemovedAll ''cmd/init'' rm # t2
         \<and> list_all succeeded t1 \<and> list_all not_self t1
         \<and> commands t1 = (if m \<in> {[], oldModule} then [] else [go_mod_edit m]) @ post_commands mocks)"
proof -
  note log = init_steps_log [OF assms(1)]
  obtain t mocks where t: "is_log s1 = is_log s @ t @ [go_build]"
    "commands t = (if m \<in> {[], oldModule} then [] else [go_mod_edit m]) @ post_commands mocks" using log(2) by blast
  then have "list_all succeeded t" "list_all not_self t" using log(1) by (auto simp: logs_def list_all_iff)
  moreover obtain rm u where "is_log s' = is_log s1 @ RemovedAll ''cmd/init'' rm # u"
    using selfDestruct_log [of env s1] assms(2) by (auto simp: bootstrapped_def)
  moreover have "\<exists>err kept removed lines. x = Bootstrapped err kept removed lines"
    using assms(2) by (auto simp: bootstrapped_def)
  ultimately show ?thesis using t by (metis append.assoc)
qed

text \<open>
  C18: the tool, on every choice of flags or of the form. Asked for its version, or in a dirty
  tree without \<open>--force\<close>, or when the form fails, or when every feature is kept and the module
  is not renamed, it ends at once with nothing touched or executed. Otherwise, if one of its steps
  (rename, strip, post-actions) fails it exits with an error and has not removed itself. If all
  succeed, every removal, write and command up to then succeeded, the commands being
  \<open>go mod edit\<close> for a new module, gofmt, wire, \<open>go mod tidy\<close>, mockery where configured and
  finally the build of the project, and right after the build it removes \<open>cmd/init\<close>.
\<close>

theorem init_self_destruct_last:
  assumes "init_main env fl s = (x, s')"
  shows "if fl_showVersion fl then x = VersionShown \<and> s' = s
    else if \<not> fl_force fl \<and> \<not> isCleanGitTree env s then (\<exists>msg. x = FatalExit msg) \<and> s' = s
    else case init_choice env fl s of
        None \<Rightarrow> (\<exists>msg. x = FatalExit msg) \<and> s' = s
      | Some (m, keep) \<Rightarrow>
         if deselected keep = [] \<and> m \<in> {[], oldModule} then x = NothingSelected \<and> s' = s
         else if fst (init_steps env m keep s) \<noteq> None
         then (\<exists>msg. x = FatalExit msg) \<and> (\<exists>t. is_log s' = is_log s @ t \<and> list_all not_self t)
         else (\<exists>err kept removed lines. x = Bootstrapped err kept removed lines)
           \<and> (\<exists>t1 mocks rm t2. is_log s' = is_log s @ t1 @ [go_build] @ RemovedAll ''cmd/init'' rm # t2
                \<and> list_all succeeded t1 \<and> list_all not_self t1
                \<and> commands t1 = (if m \<in> {[], oldModule} then [] else [go_mod_edit m]) @ post_commands mocks)"
proof (cases "\<not> fl_showVersion fl \<and> (fl_force fl \<or> isCleanGitTree env s)")
  case False
  then show ?thesis using assms by (auto simp: init_main_def)
next
  case True
  note ok = this
  have pass: "fl_showVersion fl = False" "(\<not> fl_force fl \<and> \<not> isCleanGitTree env s) = False" using ok by auto
  show ?thesis
  proof (cases "init_choice env fl s")
    case None
    then show ?thesis using ok assms
      by (auto simp: init_main_def init_choice_def runPrompt_def Let_def split: sum.splits if_splits)
  next
    case (Some mk)
    obtain m keep where mk: "init_choice env fl s = Some (m, keep)" using Some by (cases mk) simp
    obtain e s1 where steps: "init_steps env m keep s = (e, s1)" by fastforce
    note log = init_steps_log [OF steps]
    obtain msg where main: "init_main env fl s =
       (if deselected keep = [] \<and> m \<in> {[], oldModule} then (NothingSelected, s)
        else case init_steps env m keep s of
               (Some e, s') \<Rightarrow> (FatalExit msg, s')
             | (None, s') \<Rightarrow> bootstrapped env m (keptAndRemoved (\<not> keep ''kafka'') (\<not> keep ''sqs'') (fl_noObs fl) (fl_noSamples fl)) s')"
      using init_apply_result [OF refl refl, of env keep m "fl_noObs fl" "fl_noSamples fl" s]
        init_main_choice [OF _ _ mk] ok by auto
    show ?thesis
    proof (cases "deselected keep = [] \<and> m \<in> {[], oldModule}")
      case True
      then show ?thesis using ok mk main assms by auto
    next
      case False
      note some = this
      show ?thesis
      proof (cases e)
        case None
        then have "bootstrapped env m (keptAndRemoved (\<not> keep ''kafka'') (\<not> keep ''sqs'') (fl_noObs fl) (fl_noSamples fl)) s1 = (x, s')"
          using main assms some steps by (simp only: if_False prod.case option.case)
        note bootstrapped_log [OF steps [unfolded None] this]
        moreover have "(fst (init_steps env m keep s) \<noteq> None) = False" using steps None by simp
        moreover have "(deselected keep = [] \<and> m \<in> {[], oldModule}) = False" using some by blast
        ultimately show ?thesis by (simp only: pass mk if_False option.case prod.case)
      next
        case (Some e')
        then have "s' = s1" "x = FatalExit msg" using main assms some steps by auto
        then show ?thesis using ok mk some steps Some log(1) by (auto simp: logs_def list_all_iff)
      qed
    qed
  qed
qed

lemma init_apply_bootstrapped:
  assumes "init_apply env sel m nk ns no nsa s = (Bootstrapped err kept removed lines, s')"
  shows "kept = fst (keptAndRemoved nk ns no nsa) \<and> removed = snd (keptAndRemoved nk ns no nsa)"
  using assms by (auto simp: init_apply_def Let_def split: prod.splits option.splits if_splits)

text \<open>
  The summary after the interactive form. Kafka and SQS are named kept or removed as chosen
  there, but observability and the samples are named as the flags say: by default as kept,
  whatever was deselected, removed and stripped.
\<close>

theorem init_summary_interactive:
  assumes "init_main env fl s = (Bootstrapped err kept removed lines, s')" "\<not> fl_nonInteractive fl"
    and "ie_form env (default_module env (fl_module fl) s) = Inr (m, keys)"
  shows "(''kafka'' \<in> set kept \<longleftrightarrow> ''kafka'' \<in> set keys) \<and> (''sqs'' \<in> set kept \<longleftrightarrow> ''sqs'' \<in> set keys)
    \<and> (''observability'' \<in> set kept \<longleftrightarrow> \<not> fl_noObs fl) \<and> (''samples'' \<in> set kept \<longleftrightarrow> \<not> fl_noSamples fl)
    \<and> set kept \<inter> set removed = {}"
proof -
  let ?sel = "\<lparr>sel_Module = m, sel_Keep = \<lambda>k. k \<in> set keys\<rparr>"
  let ?kr = "keptAndRemoved (''kafka'' \<notin> set keys) (''sqs'' \<notin> set keys) (fl_noObs fl) (fl_noSamples fl)"
  have "init_apply env (stripListFromSelection ?sel) m (''kafka'' \<notin> set keys) (''sqs'' \<notin> set keys) (fl_noObs fl) (fl_noSamples fl) s
      = (Bootstrapped err kept removed lines, s')"
    using assms by (auto simp: init_main_def runPrompt_def Let_def split: if_splits)
  from init_apply_bootstrapped [OF this] have "kept = fst ?kr" "removed = snd ?kr" by auto
  then show ?thesis by (auto simp: keptAndRemoved_def Let_def)
qed

section \<open>Residual markers\<close>

lemma WriteFile_None: "os_WriteFile env f d s = (None, s') \<Longrightarrow> is_files s' = alist_set f d (is_files s)"
  by (auto simp: os_WriteFile_def Let_def split: option.splits)

lemma residual_visit_other:
  "residual_visit env g s = (None, s') \<Longrightarrow> f \<noteq> g \<Longrightarrow> map_of (is_files s') f = map_of (is_files s) f"
  by (auto simp: residual_visit_def dest!: WriteFile_None split: if_splits option.splits)

lemma residual_visit_self:
  assumes "residual_visit env f s = (None, s')" "\<not> list_ex (\<lambda>d. d \<in> set residual_skip_dirs) (dirs_of f)"
    and "ie_read env s f = None" "ie_stat env s f = None" "map_of (is_files s) f = Some d"
  shows "map_of (is_files s') f = Some (case residual_data d of None \<Rightarrow> d | Some r \<Rightarrow> r)"
  using assms by (auto simp: residual_visit_def dest!: WriteFile_None split: if_splits option.splits)

lemma residual_other:
  "each (residual_visit env) fs s = (None, s') \<Longrightarrow> f \<notin> set fs \<Longrightarrow> map_of (is_files s') f = map_of (is_files s) f"
proof (induction fs arbitrary: s)
  case (Cons g fs)
  then obtain s1 where "residual_visit env g s = (None, s1)" "each (residual_visit env) fs s1 = (None, s')"
    by (auto simp: then_do_None)
  then show ?case using Cons residual_visit_other [of env g s s1 f] by simp
qed simp

lemma residual_self:
  assumes "each (residual_visit env) fs s = (None, s')" "distinct fs" "f \<in> set fs"
    and "\<not> list_ex (\<lambda>d. d \<in> set residual_skip_dirs) (dirs_of f)" "\<And>s. ie_read env s f = None" "\<And>s. ie_stat env s f = None"
    and "map_of (is_files s) f = Some d"
  shows "map_of (is_files s') f = Some (case residual_data d of None \<Rightarrow> d | Some r \<Rightarrow> r)"
  using assms
proof (induction fs arbitrary: s)
  case (Cons g fs)
  then obtain s1 where s1: "residual_visit env g s = (None, s1)" "each (residual_visit env) fs s1 = (None, s')"
    by (auto simp: then_do_None)
  show ?case
  proof (cases "g = f")
    case True
    then have "f \<notin> set fs" using Cons.prems(2) by simp
    with residual_other [OF s1(2)] residual_visit_self [of env f s s1 d] s1(1) Cons.prems True show ?thesis by simp
  next
    case False
    then have "map_of (is_files s1) f = Some d" using residual_visit_other [OF s1(1)] Cons.prems(7) by simp
    with Cons.IH [OF s1(2)] Cons.prems False show ?thesis by simp
  qed
qed simp

text \<open>
  After the final sweep no visited file that can be read and whose lines fit the scanner's
  buffer holds a marker of any feature; files without a marker, and those in the directories the
  sweep leaves out, are as they were.
\<close>

theorem init_residual_clean:
  assumes "stripAllResidualMarkers env s = (None, s')" "distinct (map fst (is_files s))"
    and "(f, d) \<in> set (is_files s)" "\<And>s. ie_read env s f = None" "\<And>s. ie_stat env s f = None"
  shows "if list_ex (\<lambda>d. d \<in> set residual_skip_dirs) (dirs_of f) \<or> \<not> residualMarker d
    then map_of (is_files s') f = Some d
    else \<exists>d'. map_of (is_files s') f = Some d' \<and> (list_all token_ok (raw_lines d) \<longrightarrow> \<not> residualMarker d')"
proof -
  have m: "map_of (is_files s) f = Some d" using assms(2,3) by simp
  have e: "each (residual_visit env) (map fst (is_files s)) s = (None, s')"
    using assms(1) by (simp add: stripAllResidualMarkers_def)
  have fin: "f \<in> set (map fst (is_files s))" using assms(3) by force
  show ?thesis
  proof (cases "list_ex (\<lambda>d. d \<in> set residual_skip_dirs) (dirs_of f)")
    case True
    have "map_of (is_files s') f = Some d"
    proof (rule each_None [OF e, of "\<lambda>x. map_of (is_files x) f = Some d"])
      fix g a b assume "residual_visit env g a = (None, b)" "map_of (is_files a) f = Some d"
      then show "map_of (is_files b) f = Some d"
        using True residual_visit_other [of env g a b f] by (cases "f = g") (auto simp: residual_visit_def)
    qed (rule m)
    with True show ?thesis by simp
  next
    case False
    from residual_self [OF e assms(2) fin False assms(4,5) m]
    have r: "map_of (is_files s') f = Some (case residual_data d of None \<Rightarrow> d | Some r \<Rightarrow> r)" .
    show ?thesis
    proof (cases "residual_data d")
      case None
      with r False residual_data_None [of d] show ?thesis by (auto simp: list_all_iff)
    next
      case (Some x)
      then have "residualMarker d" by (simp add: residual_data_def split: if_splits)
      with r False Some residual_data_clean [OF Some] show ?thesis by simp
    qed
  qed
qed

section \<open>A small tree\<close>

definition sample_init_env :: init_env where
  "sample_init_env =
     \<lparr>ie_root = ''/p'', ie_visit = \<lambda>s f. None, ie_read = \<lambda>s f. None, ie_stat = \<lambda>s f. None, ie_write = \<lambda>s f. None,
      ie_remove_all = \<lambda>s p. None, ie_remove = \<lambda>s f. True, ie_exec = \<lambda>s bin args. (None, [], is_files s),
      ie_look_path = \<lambda>s bin. None, ie_git_status = \<lambda>s. Inr [], ie_form = \<lambda>d. Inr (''a/b'', [''kafka''])\<rparr>"

definition sample_tree :: init_state where
  "sample_tree =
     \<lparr>is_files =
        [(''Makefile'', ''feature:sqs:start'' @ [LF] @ ''q:'' @ [LF] @ ''feature:sqs:end'' @ [LF] @ ''all:'' @ [LF]),
         (''cmd/init/main.go'', ''package main''),
         (''internal/platform/sqs/client.go'', ''package sqs'')],
      is_log = []\<rparr>"

definition sample_flags :: init_flags where
  "sample_flags =
     \<lparr>fl_showVersion = False, fl_nonInteractive = False, fl_force = False, fl_noKafka = False, fl_noSQS = False,
      fl_noObs = False, fl_noSamples = False, fl_module = []\<rparr>"

theorem init_features_gone_witness:
  "let s' = snd (init_strip sample_init_env [''kafka'', ''sqs''] True True sample_tree)
   in gone [''internal/platform/sqs''] ''sqs'' s' \<and> gone [''cmd/worker''] ''worker'' s'
      \<and> map_of (is_files s') ''cmd/init/main.go'' = Some ''package main''"
proof -
  let ?r = "init_strip sample_init_env [''kafka'', ''sqs''] True True sample_tree"
  have "fst ?r = None" by code_simp
  then have r: "?r = (None, snd ?r)" by (metis prod.collapse)
  have feat: "findFeature ''sqs'' = Some (Features ! 1)" by (simp add: findFeature_def Features_def)
  note t = init_features_gone [OF r]
  have "gone (ft_DeletePaths (Features ! 1)) ''sqs'' (snd ?r)" using t feat by simp
  moreover have "''internal/platform/sqs'' \<in> set (ft_DeletePaths (Features ! 1))" by (simp add: Features_def)
  ultimately have g: "gone [''internal/platform/sqs''] ''sqs'' (snd ?r)" by (auto simp: gone_def)
  have "''cmd/init/main.go'' \<notin> set allMarkerFiles
      \<and> (\<forall>p \<in> set (selected_paths [''kafka'', ''sqs''] (True \<and> True)). \<not> below p ''cmd/init/main.go'')" by code_simp
  with t have "map_of (is_files (snd ?r)) ''cmd/init/main.go'' = map_of (is_files sample_tree) ''cmd/init/main.go''" by blast
  also have "\<dots> = Some ''package main''" by (simp add: sample_tree_def)
  finally show ?thesis using g t by (simp add: Let_def)
qed

lemma sample_exit:
  "\<exists>s'. init_main sample_init_env sample_flags sample_tree
     = (Bootstrapped None [''kafka'', ''observability'', ''samples''] [''sqs'']
         (printSummary ''a/b'' [''kafka'', ''observability'', ''samples''] [''sqs'']), s')"
proof -
  have "fst (init_main sample_init_env sample_flags sample_tree)
     = Bootstrapped None [''kafka'', ''observability'', ''samples''] [''sqs'']
         (printSummary ''a/b'' [''kafka'', ''observability'', ''samples''] [''sqs''])" by code_simp
  then show ?thesis by (metis prod.collapse)
qed

theorem init_self_destruct_last_witness:
  "\<exists>t1 mocks rm t2. is_log (snd (init_main sample_init_env sample_flags sample_tree))
     = is_log sample_tree @ t1 @ [go_build] @ RemovedAll ''cmd/init'' rm # t2
     \<and> list_all succeeded t1 \<and> list_all not_self t1 \<and> commands t1 = [go_mod_edit ''a/b''] @ post_commands mocks"
proof -
  let ?c = "init_choice sample_init_env sample_flags sample_tree"
  obtain x s' where x: "init_main sample_init_env sample_flags sample_tree = (x, s')" by fastforce
  have pass: "fl_showVersion sample_flags = False"
    "(\<not> fl_force sample_flags \<and> \<not> isCleanGitTree sample_init_env sample_tree) = False" by code_simp+
  have c: "?c = Some (''a/b'', \<lambda>f. f \<in> set [''kafka''])"
    by (simp add: init_choice_def sample_flags_def sample_init_env_def)
  have d: "(deselected (\<lambda>f. f \<in> set [''kafka'']) = [] \<and> ''a/b'' \<in> {[], oldModule}) = False" by (simp add: deselected_def)
  have steps: "(fst (init_steps sample_init_env ''a/b'' (\<lambda>f. f \<in> set [''kafka'']) sample_tree) \<noteq> None) = False" by code_simp
  have m: "''a/b'' \<notin> {[], oldModule}" by (simp add: oldModule_def)
  note init_self_destruct_last [OF x, unfolded pass if_False c option.case prod.case d steps if_not_P [OF m]]
  then show ?thesis unfolding x snd_conv by blast
qed

theorem init_summary_interactive_witness:
  "\<exists>e k r t s'. init_main sample_init_env sample_flags sample_tree = (Bootstrapped e k r t, s')
     \<and> ie_form sample_init_env ''github.com/yourorg/your-service'' = Inr (''a/b'', [''kafka''])
     \<and> ''observability'' \<in> set k"
proof -
  from sample_exit obtain e k r t s' where x: "init_main sample_init_env sample_flags sample_tree = (Bootstrapped e k r t, s')"
    by blast
  have i: "\<not> fl_nonInteractive sample_flags" by (simp add: sample_flags_def)
  have f: "ie_form sample_init_env d = Inr (''a/b'', [''kafka''])" for d by (simp add: sample_init_env_def)
  from init_summary_interactive [OF x i f] have "''observability'' \<in> set k" by (simp add: sample_flags_def)
  with x f show ?thesis by blast
qed

theorem init_residual_clean_witness:
  "\<exists>d'. map_of (is_files (snd (stripAllResidualMarkers sample_init_env sample_tree))) ''Makefile'' = Some d' \<and> \<not> residualMarker d'"
proof -
  let ?d = "''feature:sqs:start'' @ [LF] @ ''q:'' @ [LF] @ ''feature:sqs:end'' @ [LF] @ ''all:'' @ [LF]"
  have "fst (stripAllResidualMarkers sample_init_env sample_tree) = None" by code_simp
  then have r: "stripAllResidualMarkers sample_init_env sample_tree
      = (None, snd (stripAllResidualMarkers sample_init_env sample_tree))" by (metis prod.collapse)
  have dist: "distinct (map fst (is_files sample_tree))" by (simp add: sample_tree_def)
  have mem: "(''Makefile'', ?d) \<in> set (is_files sample_tree)" by (simp add: sample_tree_def)
  have io: "ie_read sample_init_env s ''Makefile'' = None" "ie_stat sample_init_env s ''Makefile'' = None" for s
    by (simp_all add: sample_init_env_def)
  have no: "\<not> (list_ex (\<lambda>d. d \<in> set residual_skip_dirs) (dirs_of ''Makefile'') \<or> \<not> residualMarker ?d)" by code_simp
  have "list_all token_ok (raw_lines ?d)" by code_simp
  then show ?thesis using init_residual_clean [OF r dist mem io, unfolded if_not_P [OF no]] by blast
qed

end
