(* ===== verification/Tracing.thy ===== *)
theory Tracing
  imports KafkaCorrect SqsCorrect
begin

text \<open>
  Trace propagation through the brokers: the two functions \<open>ExtractTraceContext\<close> (kafka/headers.go,
  sqs/headers.go), and the round trip from the header writes of \<open>Publish\<close> to what the consumer's
  handler context is extracted from. The propagator of OpenTelemetry is a parameter: \<open>extractor\<close> gets
  the carrier's reader and the context.
\<close>

type_synonym 'ctx extractor = "(string \<Rightarrow> string) \<Rightarrow> 'ctx \<Rightarrow> 'ctx"

definition kafka_ExtractTraceContext :: "'ctx extractor \<Rightarrow> 'ctx \<Rightarrow> kgo_record \<Rightarrow> 'ctx" where
  "kafka_ExtractTraceContext extractor ctx r = extractor (recordCarrier_Get (Headers r)) ctx"

text \<open>The SDK leaves the attribute map nil when a message has none.\<close>

definition sqs_ExtractTraceContext :: "'ctx extractor \<Rightarrow> 'ctx \<Rightarrow> sqs_Message option \<Rightarrow> 'ctx" where
  "sqs_ExtractTraceContext extractor ctx msg =
     (case msg of
        None \<Rightarrow> ctx
      | Some m \<Rightarrow> if msg_Attributes m = [] then ctx else extractor (attrCarrier_Get (msg_Attributes m)) ctx)"

section \<open>The propagator\<close>

text \<open>The headers of the W3C trace context and baggage propagators.\<close>

definition w3c_names :: "string list" where
  "w3c_names = [HeaderTraceParent, HeaderTraceState, ''baggage'']"

text \<open>
  Documented behaviour of the propagator: it reads nothing but those headers, and writes each of them at
  most once, in its canonical spelling.
\<close>

definition reads_w3c :: "'ctx extractor \<Rightarrow> bool" where
  "reads_w3c extractor \<longleftrightarrow> (\<forall>g g' c. (\<forall>n \<in> set w3c_names. g n = g' n) \<longrightarrow> extractor g c = extractor g' c)"

definition writes_w3c :: "(string \<times> string) list \<Rightarrow> bool" where
  "writes_w3c kvs \<longleftrightarrow>
     distinct (map fst kvs) \<and> (\<forall>n \<in> set w3c_names. \<forall>k \<in> fst ` set kvs. equal_fold k n \<longrightarrow> k = n)"

text \<open>No spelling of those headers among the keys of a message.\<close>

definition no_w3c :: "string list \<Rightarrow> bool" where
  "no_w3c ks \<longleftrightarrow> (\<forall>n \<in> set w3c_names. \<forall>k \<in> set ks. \<not> equal_fold k n)"

text \<open>What a reader finds that knows the writes alone.\<close>

definition read_writes :: "(string \<times> string) list \<Rightarrow> string \<Rightarrow> string" where
  "read_writes kvs n = (case map_of kvs n of None \<Rightarrow> [] | Some v \<Rightarrow> v)"

lemma key_not_w3c: "n \<in> set w3c_names \<Longrightarrow> \<not> equal_fold HeaderIdempotencyKey n"
  by (auto simp: w3c_names_def equal_fold_def header_names ascii_lower_def)

section \<open>Round trips\<close>

lemma kafka_published_reads:
  assumes "writes_w3c (inject env h (kp_forceSample cfg))" "no_w3c (map fst (kp_extraHeaders cfg))" "n \<in> set w3c_names"
    and "cfg = fold kafka_apply_opt opts \<lparr>kp_idempotencyKey = [], kp_extraHeaders = [], kp_forceSample = False\<rparr>"
  shows "recordCarrier_Get (Headers (kafka_publish_record env h topic key value opts)) n
    = read_writes (inject env h (kp_forceSample cfg)) n"
proof -
  let ?hs = "fst (kafka_SetIdempotencyKey (new_uuid env h) (kp_extraHeaders cfg) (kp_idempotencyKey cfg))"
  have "recordCarrier_Get (kp_extraHeaders cfg) n = []"
    by (rule recordCarrier_Get_absent) (use assms(2,3) in \<open>force simp: no_w3c_def\<close>)
  then have "recordCarrier_Get ?hs n = []"
    using key_not_w3c [OF assms(3)] by (simp add: kafka_SetIdempotencyKey_def Let_def recordCarrier_get_set_other)
  then show ?thesis
    using kafka_carrier.get_fold_map_of [of "inject env h (kp_forceSample cfg)" ?hs n] assms
    by (force simp: kafka_publish_record_def kafka_InjectTraceHeaders_def read_writes_def writes_w3c_def Let_def)
qed

lemma sqs_published_reads:
  assumes "writes_w3c (sqs_inject env h (sp_forceSample cfg))" "no_w3c (map fst (sp_extraAttrs cfg))" "n \<in> set w3c_names"
  shows "attrCarrier_Get (in_MessageAttributes (sqs_publish_input env h queueURL body cfg)) n
    = read_writes (sqs_inject env h (sp_forceSample cfg)) n"
proof -
  let ?extra = "fold (\<lambda>(k, v) m. attrCarrier_Set m k v) (sp_extraAttrs cfg) []"
  let ?m = "attrCarrier_Set ?extra HeaderIdempotencyKey (if sp_idempotencyKey cfg = [] then sqs_uuid env h else sp_idempotencyKey cfg)"
  have other: "\<not> equal_fold k n" if "(k, v) \<in> set (sp_extraAttrs cfg)" for k v
    using assms(2,3) that by (force simp: no_w3c_def)
  have "attrCarrier_Get ?extra n = attrCarrier_Get [] n" by (rule sqs_carrier.get_fold_other) (rule other)
  then have "attrCarrier_Get ?m n = []" using key_not_w3c [OF assms(3)] by (simp add: attrCarrier_get_set_other)
  moreover have "one_spelling ?extra n" by (rule sqs_carrier.ok_fold) (use other in auto)
  then have "one_spelling ?m n" using key_not_w3c [OF assms(3)] by (auto intro: one_spelling_set)
  ultimately show ?thesis
    using sqs_carrier.get_fold_map_of [of "sqs_inject env h (sp_forceSample cfg)" ?m n] assms(1,3)
    by (force simp: sqs_publish_input_def sqs_InjectTraceHeaders_def sqs_SetIdempotencyKey_def SetStringAttribute_carrier
        read_writes_def writes_w3c_def Let_def)
qed

lemma sqs_published_attrs: "in_MessageAttributes (sqs_publish_input env h queueURL body cfg) \<noteq> []"
proof -
  have f: "m \<noteq> [] \<Longrightarrow> fold (\<lambda>(k, v) m. attrCarrier_Set m k v) kvs m \<noteq> []" for kvs m
  proof (induction kvs arbitrary: m)
    case (Cons a kvs)
    obtain k v where a: "a = (k, v)" by (cases a)
    have "attrCarrier_Set m k v \<noteq> []" using fst_attrCarrier_Set [of m k v] by auto
    with Cons.IH a show ?case by simp
  qed simp
  have "attrCarrier_Set m k v \<noteq> []" for m k v using fst_attrCarrier_Set [of m k v] by auto
  then show ?thesis
    by (simp add: sqs_publish_input_def sqs_InjectTraceHeaders_def sqs_SetIdempotencyKey_def SetStringAttribute_carrier Let_def f)
qed

text \<open>
  C15: traces survive both brokers. If the publish options carry no trace header of their own, the context
  the consumer's handler runs under is what the propagator makes of exactly the headers it wrote when the
  message was published: nothing of them is lost, rewritten or shadowed by the idempotency key or the
  other headers, for a Kafka record and for an SQS message alike.
\<close>
theorem trace_round_trip:
  assumes "reads_w3c extractor"
    and "kcfg = fold kafka_apply_opt kopts \<lparr>kp_idempotencyKey = [], kp_extraHeaders = [], kp_forceSample = False\<rparr>"
    and "writes_w3c (inject env h (kp_forceSample kcfg))" "no_w3c (map fst (kp_extraHeaders kcfg))"
    and "scfg = sqs_publish_config sopts"
    and "writes_w3c (sqs_inject senv sh (sp_forceSample scfg))" "no_w3c (map fst (sp_extraAttrs scfg))"
    and "msg_Attributes msg = in_MessageAttributes (sqs_publish_input senv sh queueURL body scfg)"
  shows "kafka_ExtractTraceContext extractor ctx (kafka_publish_record env h topic key value kopts)
      = extractor (read_writes (inject env h (kp_forceSample kcfg))) ctx
    \<and> sqs_ExtractTraceContext extractor ctx (Some msg)
      = extractor (read_writes (sqs_inject senv sh (sp_forceSample scfg))) ctx"
proof
  show "kafka_ExtractTraceContext extractor ctx (kafka_publish_record env h topic key value kopts)
      = extractor (read_writes (inject env h (kp_forceSample kcfg))) ctx"
    using assms(1) kafka_published_reads [OF assms(3,4) _ assms(2)]
    unfolding kafka_ExtractTraceContext_def reads_w3c_def by blast
  show "sqs_ExtractTraceContext extractor ctx (Some msg)
      = extractor (read_writes (sqs_inject senv sh (sp_forceSample scfg))) ctx"
    using assms(1,8) sqs_published_reads [OF assms(6,7)] sqs_published_attrs
    unfolding sqs_ExtractTraceContext_def reads_w3c_def by (auto split: option.splits)
qed

section \<open>Another spelling\<close>

text \<open>
  The condition on the options matters for SQS alone. Republishing leaves out the attributes spelt
  exactly like the trace headers, sanitising keeps a well-formed \<open>Traceparent\<close> under its own
  spelling, and reading ignores case: the old trace can shadow the one just written. A Kafka record has
  the header's value replaced, whatever its spelling.
\<close>

definition old_trace :: string where "old_trace = ''00-0af7651916cd43dd8448eb211c80319c-b7ad6b7169203331-01''"
definition new_trace :: string where "new_trace = ''00-11111111111111111111111111111111-2222222222222222-01''"

definition capital_message :: sqs_Message where
  "capital_message =
     \<lparr>msg_MessageId = None, msg_ReceiptHandle = Some ''rh'', msg_Body = Some ''b'',
      msg_Attributes = [(''Traceparent'', \<lparr>av_DataType = dataTypeString, av_StringValue = Some old_trace, av_BinaryValue = None\<rparr>)]\<rparr>"

definition traced_sqs_env :: sqs_env where
  "traced_sqs_env = two_message_env\<lparr>sqs_inject := \<lambda>h b. [(HeaderTraceParent, new_trace)]\<rparr>"

definition traced_env :: kafka_env where
  "traced_env = sample_env\<lparr>inject := \<lambda>h b. [(HeaderTraceParent, new_trace)]\<rparr>"

lemma sqs_other_spelling_shadows:
  "attrCarrier_Get (in_MessageAttributes (sqs_publish_input traced_sqs_env [] ''q''  ''b''
     (sqs_publish_config (sqs_forward_opts (sqs_republish_attrs capital_message (Some (NewError ''boom'')) False)))))
     HeaderTraceParent = old_trace"
  by code_simp

lemma kafka_other_spelling_replaced:
  "recordCarrier_Get (Headers (kafka_publish_record traced_env [] ''t'' [] ''b'' [KafkaWithHeader ''Traceparent'' old_trace]))
     HeaderTraceParent = new_trace"
  by code_simp

section \<open>A concrete trip\<close>

definition sample_extractor :: "(string \<times> string) extractor" where
  "sample_extractor g c = (g HeaderTraceParent, g HeaderTraceState)"

lemma sample_extractor_reads: "reads_w3c sample_extractor"
  by (simp add: reads_w3c_def sample_extractor_def w3c_names_def)

lemma new_trace_writes: "writes_w3c [(HeaderTraceParent, new_trace)]"
  by (simp add: writes_w3c_def w3c_names_def equal_fold_def header_names ascii_lower_def)

lemma user_id_no_w3c: "no_w3c [''user-id'']"
  by (simp add: no_w3c_def w3c_names_def equal_fold_def header_names ascii_lower_def)

theorem trace_round_trip_witness:
  "kafka_ExtractTraceContext sample_extractor ([], [])
     (kafka_publish_record traced_env [] ''t'' [] ''b'' [KafkaWithHeader ''user-id'' ''7'', KafkaForceSample])
   = (new_trace, [])"
proof -
  have k: "map fst (kp_extraHeaders (fold kafka_apply_opt [KafkaWithHeader ''user-id'' ''7'', KafkaForceSample]
      \<lparr>kp_idempotencyKey = [], kp_extraHeaders = [], kp_forceSample = False\<rparr>)) = [''user-id'']" by simp
  have s: "map fst (sp_extraAttrs (sqs_publish_config [SqsWithAttribute ''user-id'' ''7''])) = [''user-id'']"
    by (simp add: sqs_publish_config_def)
  define msg where "msg = \<lparr>msg_MessageId = None, msg_ReceiptHandle = None, msg_Body = None,
    msg_Attributes = in_MessageAttributes (sqs_publish_input traced_sqs_env [] ''q'' ''b''
      (sqs_publish_config [SqsWithAttribute ''user-id'' ''7'']))\<rparr>"
  have i: "inject traced_env [] b = [(HeaderTraceParent, new_trace)]" "sqs_inject traced_sqs_env [] b = [(HeaderTraceParent, new_trace)]" for b
    by (simp_all add: traced_env_def traced_sqs_env_def)
  note t = trace_round_trip [OF sample_extractor_reads refl _ _ refl, where env = traced_env and h = "[]"
      and kopts = "[KafkaWithHeader ''user-id'' ''7'', KafkaForceSample]" and senv = traced_sqs_env and sh = "[]"
      and sopts = "[SqsWithAttribute ''user-id'' ''7'']" and msg = msg and queueURL = "''q''" and body = "''b''",
      unfolded i k s, OF new_trace_writes user_id_no_w3c new_trace_writes user_id_no_w3c]
  have "msg_Attributes msg = in_MessageAttributes (sqs_publish_input traced_sqs_env [] ''q'' ''b''
      (sqs_publish_config [SqsWithAttribute ''user-id'' ''7'']))" by (simp add: msg_def)
  from t [OF this, THEN conjunct1] show ?thesis by (simp add: sample_extractor_def read_writes_def header_names)
qed

end
