(* ===== verification/WireGraph.thy ===== *)
theory WireGraph
  imports ServerProgram WorkerCorrect InitTool
begin

text \<open>
  The dependency injection declarations: the provider lists of cmd/server/wire.go, cmd/worker/wire.go,
  internal/user/wire.go and internal/role/wire.go, the parameters and results of the providers they
  name, all with the feature markers around them. Wire turns such a list into an initialiser that
  calls providers in an order in which each finds its parameters. What is shown here: for every
  choice of features that cmd/init can make, what is left of the lists still has such an order, it
  is the order of the committed wire_gen.go less the stripped calls, the set of calls is the only one
  possible, and whatever the initialiser acquires in that order it releases.
\<close>

section \<open>Features and markers\<close>

datatype feature = F_kafka | F_sqs | F_observability | F_samples | F_worker

text \<open>
  The features left after the flags \<open>--no-kafka\<close>, \<open>--no-sqs\<close>, \<open>--no-observability\<close> and
  \<open>--no-samples\<close>; the worker goes when both brokers go.
\<close>

definition keeping :: "bool \<Rightarrow> bool \<Rightarrow> bool \<Rightarrow> bool \<Rightarrow> feature \<Rightarrow> bool" where
  "keeping noKafka noSQS noObs noSamples f =
     (case f of
        F_kafka \<Rightarrow> \<not> noKafka
      | F_sqs \<Rightarrow> \<not> noSQS
      | F_observability \<Rightarrow> \<not> noObs
      | F_samples \<Rightarrow> \<not> noSamples
      | F_worker \<Rightarrow> \<not> (noKafka \<and> noSQS))"

fun feature_name :: "feature \<Rightarrow> string" where
  "feature_name F_kafka = ''kafka''"
| "feature_name F_sqs = ''sqs''"
| "feature_name F_observability = ''observability''"
| "feature_name F_samples = ''samples''"
| "feature_name F_worker = ''worker''"

lemma keeping_strip_list:
  "keeping noKafka noSQS noObs noSamples f \<longleftrightarrow>
     feature_name f \<notin> set (computeStripList noKafka noSQS noObs noSamples
       @ (if noKafka \<and> noSQS then [''worker''] else []))"
  by (cases f) (simp_all add: keeping_def computeStripList_def)

type_synonym 'a marked = "feature list \<times> 'a"

text \<open>What stripping leaves of a list whose elements stand between markers.\<close>

definition kept :: "(feature \<Rightarrow> bool) \<Rightarrow> 'a marked list \<Rightarrow> 'a list" where
  "kept k xs = [x. (fs, x) \<leftarrow> xs, list_all k fs]"

section \<open>Providers\<close>

datatype go_type =
    T_string
  | T_Config | T_ServerConfig | T_MongoConfig | T_LoggerConfig | T_CORSConfig | T_RateLimitConfig
  | T_ObservabilityConfig | T_KafkaConfig | T_SQSConfig | T_WorkerConfig
  | T_RedisConfig | T_HTTPClientConfig
  | T_Logger | T_Shutdown | T_MongoClient | T_MongoDatabase | T_HttpServer | T_Registry | T_Engine
  | T_UserRepository | T_UserService | T_UserHandler | T_EventHandler
  | T_RoleRepository | T_RoleService | T_RoleHandler
  | T_MainClient | T_RetryClient | T_ProducerClient | T_KafkaProducer | T_KafkaMessageHandler | T_KafkaChecker
  | T_SQSClient | T_SQSProducer | T_SQSMessageHandler | T_SQSChecker
  | T_ServerApp | T_WorkerApp

datatype provider_fn =
    config_Load | logger_New_fn | database_NewMongoClient | database_NewDatabase | httpserver_New_fn
  | server_ProvideServerConfig | server_ProvideMongoConfig | server_ProvideLoggerConfig
  | server_ProvideObservabilityConfig | server_ProvideCORSConfig | server_ProvideRateLimitConfig
  | server_ProvideObservability | server_ProvideHealthRegistry | server_ProvideRouter | server_App
  | user_NewUserRepository | user_NewUserService | user_NewUserHandler | user_NewEventHandler
  | role_NewRoleRepository | role_NewRoleService | role_NewRoleHandler
  | worker_ProvideKafkaConfig | worker_ProvideLoggerConfig | worker_ProvideObservabilityConfig
  | worker_ProvideSQSConfig | worker_ProvideWorkerConfig | worker_ProvideObservability
  | worker_ProvideMainConsumer | worker_ProvideRetryConsumer | worker_ProvideProducerClient
  | worker_ProvideProducer | worker_ProvideMessageHandler | worker_ProvideKafkaChecker
  | worker_ProvideSQSChecker | worker_ProvideSQSClient | worker_ProvideSQSProducer | worker_ProvideSQSHandler
  | worker_ProvideHealthRegistry | worker_App

text \<open>
  A provider as Wire sees it: the markers around its declaration (or the features whose deletion
  removes its file), its parameters with the markers around them, its result, and whether it can
  fail and returns a cleanup.
\<close>

record signature =
  sg_name :: provider_fn
  sg_marks :: "feature list"
  sg_params :: "go_type marked list"
  sg_result :: go_type
  sg_cleanup :: bool

abbreviation plain :: "provider_fn \<Rightarrow> feature list \<Rightarrow> go_type marked list \<Rightarrow> go_type \<Rightarrow> signature" where
  "plain p fs ts t \<equiv> \<lparr>sg_name = p, sg_marks = fs, sg_params = ts, sg_result = t, sg_cleanup = False\<rparr>"

abbreviation with_cleanup :: "provider_fn \<Rightarrow> feature list \<Rightarrow> go_type marked list \<Rightarrow> go_type \<Rightarrow> signature" where
  "with_cleanup p fs ts t \<equiv> \<lparr>sg_name = p, sg_marks = fs, sg_params = ts, sg_result = t, sg_cleanup = True\<rparr>"

text \<open>The packages below internal/platform, internal/user and internal/role.\<close>

definition sig_config_Load :: signature where
  "sig_config_Load = plain config_Load [] [([], T_string)] T_Config"

definition sig_logger_New :: signature where
  "sig_logger_New = plain logger_New_fn [] [([], T_LoggerConfig)] T_Logger"

definition sig_NewMongoClient :: signature where
  "sig_NewMongoClient =
     with_cleanup database_NewMongoClient [] [([], T_MongoConfig), ([F_observability], T_ObservabilityConfig)] T_MongoClient"

definition sig_NewDatabase :: signature where
  "sig_NewDatabase = plain database_NewDatabase [] [([], T_MongoClient), ([], T_MongoConfig)] T_MongoDatabase"

definition sig_httpserver_New :: signature where
  "sig_httpserver_New = plain httpserver_New_fn [] [([], T_ServerConfig)] T_HttpServer"

definition sig_NewUserRepository :: signature where
  "sig_NewUserRepository = plain user_NewUserRepository [F_samples] [([], T_MongoDatabase)] T_UserRepository"

definition sig_NewUserService :: signature where
  "sig_NewUserService = plain user_NewUserService [F_samples] [([], T_UserRepository)] T_UserService"

definition sig_NewUserHandler :: signature where
  "sig_NewUserHandler = plain user_NewUserHandler [F_samples] [([], T_UserService)] T_UserHandler"

definition sig_NewEventHandler :: signature where
  "sig_NewEventHandler = plain user_NewEventHandler [F_samples, F_kafka] [([], T_Logger)] T_EventHandler"

definition sig_NewRoleRepository :: signature where
  "sig_NewRoleRepository = plain role_NewRoleRepository [F_samples] [([], T_MongoDatabase)] T_RoleRepository"

definition sig_NewRoleService :: signature where
  "sig_NewRoleService = plain role_NewRoleService [F_samples] [([], T_RoleRepository)] T_RoleService"

definition sig_NewRoleHandler :: signature where
  "sig_NewRoleHandler = plain role_NewRoleHandler [F_samples] [([], T_RoleService)] T_RoleHandler"

text \<open>cmd/server/providers.go; \<open>server_App\<close> is \<open>wire.Struct(new(ServerApp), "*")\<close>.\<close>

definition sig_ServerApp :: signature where
  "sig_ServerApp =
     plain server_App []
       [([], T_Config), ([], T_Logger), ([], T_MongoClient), ([], T_HttpServer), ([], T_Engine), ([], T_Registry),
        ([F_observability], T_Shutdown)] T_ServerApp"

definition sig_server_accessors :: "signature list" where
  "sig_server_accessors =
     [plain server_ProvideServerConfig [] [([], T_Config)] T_ServerConfig,
      plain server_ProvideMongoConfig [] [([], T_Config)] T_MongoConfig,
      plain server_ProvideLoggerConfig [] [([], T_Config)] T_LoggerConfig,
      plain server_ProvideObservabilityConfig [F_observability] [([], T_Config)] T_ObservabilityConfig,
      plain server_ProvideCORSConfig [] [([], T_Config)] T_CORSConfig,
      plain server_ProvideRateLimitConfig [] [([], T_Config)] T_RateLimitConfig]"

definition sig_server_ProvideObservability :: signature where
  "sig_server_ProvideObservability =
     with_cleanup server_ProvideObservability [F_observability] [([], T_ObservabilityConfig)] T_Shutdown"

definition sig_server_ProvideHealthRegistry :: signature where
  "sig_server_ProvideHealthRegistry = plain server_ProvideHealthRegistry [] [([], T_MongoClient)] T_Registry"

definition sig_ProvideRouter :: signature where
  "sig_ProvideRouter =
     plain server_ProvideRouter []
       [([], T_HttpServer), ([], T_Logger), ([], T_Config), ([], T_Registry),
        ([F_samples], T_UserHandler), ([F_samples], T_RoleHandler)] T_Engine"

text \<open>cmd/worker/providers.go.\<close>

definition sig_WorkerApp :: signature where
  "sig_WorkerApp =
     plain worker_App [F_worker]
       [([], T_Config), ([], T_Logger),
        ([F_kafka], T_MainClient), ([F_kafka], T_RetryClient), ([F_kafka], T_KafkaProducer),
        ([F_kafka, F_samples], T_KafkaMessageHandler),
        ([F_sqs], T_SQSClient), ([F_sqs], T_SQSProducer), ([F_sqs], T_SQSMessageHandler), ([F_sqs], T_SQSChecker),
        ([], T_Registry), ([F_kafka], T_KafkaChecker), ([F_observability], T_Shutdown)] T_WorkerApp"

definition sig_worker_accessors :: "signature list" where
  "sig_worker_accessors =
     [plain worker_ProvideKafkaConfig [F_worker, F_kafka] [([], T_Config)] T_KafkaConfig,
      plain worker_ProvideLoggerConfig [F_worker] [([], T_Config)] T_LoggerConfig,
      plain worker_ProvideObservabilityConfig [F_worker, F_observability] [([], T_Config)] T_ObservabilityConfig,
      plain worker_ProvideWorkerConfig [F_worker] [([], T_Config)] T_WorkerConfig,
      plain worker_ProvideSQSConfig [F_worker, F_sqs] [([], T_Config)] T_SQSConfig]"

definition sig_worker_ProvideObservability :: signature where
  "sig_worker_ProvideObservability =
     with_cleanup worker_ProvideObservability [F_worker, F_observability] [([], T_ObservabilityConfig)] T_Shutdown"

definition sig_worker_kafka :: "signature list" where
  "sig_worker_kafka =
     [with_cleanup worker_ProvideMainConsumer [F_worker, F_kafka] [([], T_KafkaConfig)] T_MainClient,
      with_cleanup worker_ProvideRetryConsumer [F_worker, F_kafka] [([], T_KafkaConfig)] T_RetryClient,
      with_cleanup worker_ProvideProducerClient [F_worker, F_kafka] [([], T_KafkaConfig)] T_ProducerClient,
      plain worker_ProvideProducer [F_worker, F_kafka] [([], T_ProducerClient)] T_KafkaProducer,
      plain worker_ProvideMessageHandler [F_worker, F_kafka, F_samples] [([], T_EventHandler)] T_KafkaMessageHandler,
      plain worker_ProvideKafkaChecker [F_worker, F_kafka] [] T_KafkaChecker]"

definition sig_worker_sqs :: "signature list" where
  "sig_worker_sqs =
     [plain worker_ProvideSQSChecker [F_worker, F_sqs] [] T_SQSChecker,
      with_cleanup worker_ProvideSQSClient [F_worker, F_sqs] [([], T_SQSConfig)] T_SQSClient,
      plain worker_ProvideSQSProducer [F_worker, F_sqs] [([], T_SQSClient)] T_SQSProducer,
      plain worker_ProvideSQSHandler [F_worker, F_sqs] [] T_SQSMessageHandler]"

definition sig_worker_ProvideHealthRegistry :: signature where
  "sig_worker_ProvideHealthRegistry =
     plain worker_ProvideHealthRegistry [F_worker]
       [([F_kafka], T_KafkaChecker), ([F_sqs], T_SQSChecker), ([], T_Config)] T_Registry"

definition signatures :: "signature list" where
  "signatures =
     [sig_config_Load, sig_logger_New, sig_NewMongoClient, sig_NewDatabase, sig_httpserver_New,
      sig_NewUserRepository, sig_NewUserService, sig_NewUserHandler, sig_NewEventHandler,
      sig_NewRoleRepository, sig_NewRoleService, sig_NewRoleHandler,
      sig_ServerApp, sig_server_ProvideObservability, sig_server_ProvideHealthRegistry, sig_ProvideRouter,
      sig_WorkerApp, sig_worker_ProvideObservability, sig_worker_ProvideHealthRegistry]
     @ sig_server_accessors @ sig_worker_accessors @ sig_worker_kafka @ sig_worker_sqs"

lemmas sig_defs =
  sig_config_Load_def sig_logger_New_def sig_NewMongoClient_def sig_NewDatabase_def sig_httpserver_New_def
  sig_NewUserRepository_def sig_NewUserService_def sig_NewUserHandler_def sig_NewEventHandler_def
  sig_NewRoleRepository_def sig_NewRoleService_def sig_NewRoleHandler_def
  sig_ServerApp_def sig_server_ProvideObservability_def sig_server_ProvideHealthRegistry_def sig_ProvideRouter_def
  sig_WorkerApp_def sig_worker_ProvideObservability_def sig_worker_ProvideHealthRegistry_def
  sig_server_accessors_def sig_worker_accessors_def sig_worker_kafka_def sig_worker_sqs_def

definition sig_of :: "provider_fn \<Rightarrow> signature option" where
  "sig_of p = find (\<lambda>sg. sg_name sg = p) signatures"

text \<open>What a provider needs and gives in the stripped tree.\<close>

definition wire_needs :: "(feature \<Rightarrow> bool) \<Rightarrow> provider_fn \<Rightarrow> go_type list" where
  "wire_needs k p = (case sig_of p of None \<Rightarrow> [] | Some sg \<Rightarrow> kept k (sg_params sg))"

definition wire_gives :: "provider_fn \<Rightarrow> go_type" where
  "wire_gives p = (case sig_of p of None \<Rightarrow> T_string | Some sg \<Rightarrow> sg_result sg)"

text \<open>The markers around the declaration of a type, or the features whose deletion removes its file.\<close>

fun type_marks :: "go_type \<Rightarrow> feature list" where
  "type_marks T_ObservabilityConfig = [F_observability]"
| "type_marks T_KafkaConfig = [F_kafka]"
| "type_marks T_SQSConfig = [F_sqs]"
| "type_marks T_WorkerConfig = [F_worker]"
| "type_marks T_Shutdown = [F_observability]"
| "type_marks T_UserRepository = [F_samples]"
| "type_marks T_UserService = [F_samples]"
| "type_marks T_UserHandler = [F_samples]"
| "type_marks T_EventHandler = [F_samples, F_kafka]"
| "type_marks T_RoleRepository = [F_samples]"
| "type_marks T_RoleService = [F_samples]"
| "type_marks T_RoleHandler = [F_samples]"
| "type_marks T_MainClient = [F_worker, F_kafka]"
| "type_marks T_RetryClient = [F_worker, F_kafka]"
| "type_marks T_ProducerClient = [F_worker, F_kafka]"
| "type_marks T_KafkaProducer = [F_kafka]"
| "type_marks T_KafkaMessageHandler = [F_kafka]"
| "type_marks T_KafkaChecker = [F_kafka]"
| "type_marks T_SQSClient = [F_worker, F_sqs]"
| "type_marks T_SQSProducer = [F_sqs]"
| "type_marks T_SQSMessageHandler = [F_sqs]"
| "type_marks T_SQSChecker = [F_sqs]"
| "type_marks T_WorkerApp = [F_worker]"
| "type_marks t = []"

definition declared :: "(feature \<Rightarrow> bool) \<Rightarrow> go_type \<Rightarrow> bool" where
  "declared k t = list_all k (type_marks t)"

text \<open>A provider that is still there and mentions only types that are still there.\<close>

definition provider_declared :: "(feature \<Rightarrow> bool) \<Rightarrow> provider_fn \<Rightarrow> bool" where
  "provider_declared k p =
     (case sig_of p of
        None \<Rightarrow> False
      | Some sg \<Rightarrow> list_all k (sg_marks sg) \<and> list_all (declared k) (sg_result sg # kept k (sg_params sg)))"

section \<open>wire.go\<close>

definition user_ProviderSet :: "provider_fn marked list" where
  "user_ProviderSet =
     [([], user_NewUserRepository), ([], user_NewUserService), ([], user_NewUserHandler), ([F_kafka], user_NewEventHandler)]"

definition role_ProviderSet :: "provider_fn marked list" where
  "role_ProviderSet = [([], role_NewRoleRepository), ([], role_NewRoleService), ([], role_NewRoleHandler)]"

definition platformSet :: "provider_fn marked list" where
  "platformSet =
     [([], config_Load),
      ([], server_ProvideServerConfig),
      ([], server_ProvideMongoConfig),
      ([], server_ProvideLoggerConfig),
      ([F_observability], server_ProvideObservabilityConfig),
      ([], server_ProvideCORSConfig),
      ([], server_ProvideRateLimitConfig),
      ([F_observability], server_ProvideObservability),
      ([], logger_New_fn),
      ([], database_NewMongoClient),
      ([], database_NewDatabase),
      ([], httpserver_New_fn),
      ([], server_ProvideHealthRegistry)]"

definition under :: "feature \<Rightarrow> 'a marked list \<Rightarrow> 'a marked list" where
  "under f = map (\<lambda>(fs, x). (f # fs, x))"

definition server_build :: "provider_fn marked list" where
  "server_build =
     platformSet @ under F_samples (user_ProviderSet @ role_ProviderSet)
     @ [([], server_ProvideRouter), ([], server_App)]"

definition worker_build :: "provider_fn marked list" where
  "worker_build =
     [([], config_Load),
      ([F_kafka], worker_ProvideKafkaConfig),
      ([], worker_ProvideLoggerConfig),
      ([F_observability], worker_ProvideObservabilityConfig),
      ([F_observability], worker_ProvideObservability),
      ([F_sqs], worker_ProvideSQSConfig),
      ([], logger_New_fn),
      ([F_kafka], worker_ProvideMainConsumer),
      ([F_kafka], worker_ProvideRetryConsumer),
      ([F_kafka], worker_ProvideProducerClient),
      ([F_kafka], worker_ProvideProducer),
      ([F_kafka, F_samples], user_NewEventHandler),
      ([F_kafka, F_samples], worker_ProvideMessageHandler),
      ([F_kafka], worker_ProvideKafkaChecker),
      ([F_sqs], worker_ProvideSQSChecker),
      ([F_sqs], worker_ProvideSQSClient),
      ([F_sqs], worker_ProvideSQSProducer),
      ([F_sqs], worker_ProvideSQSHandler),
      ([], worker_ProvideHealthRegistry),
      ([], worker_App)]"

text \<open>The calls of the committed initialisers, in their order.\<close>

definition server_wire_gen :: "provider_fn list" where
  "server_wire_gen =
     [config_Load, server_ProvideLoggerConfig, logger_New_fn, server_ProvideMongoConfig,
      server_ProvideObservabilityConfig, database_NewMongoClient, server_ProvideServerConfig, httpserver_New_fn,
      server_ProvideHealthRegistry, database_NewDatabase, user_NewUserRepository, user_NewUserService,
      user_NewUserHandler, role_NewRoleRepository, role_NewRoleService, role_NewRoleHandler, server_ProvideRouter,
      server_ProvideObservability, server_App]"

definition worker_wire_gen :: "provider_fn list" where
  "worker_wire_gen =
     [config_Load, worker_ProvideLoggerConfig, logger_New_fn, worker_ProvideKafkaConfig, worker_ProvideMainConsumer,
      worker_ProvideRetryConsumer, worker_ProvideProducerClient, worker_ProvideProducer, user_NewEventHandler,
      worker_ProvideMessageHandler, worker_ProvideSQSConfig, worker_ProvideSQSClient, worker_ProvideSQSProducer,
      worker_ProvideSQSHandler, worker_ProvideSQSChecker, worker_ProvideKafkaChecker, worker_ProvideHealthRegistry,
      worker_ProvideObservabilityConfig, worker_ProvideObservability, worker_App]"

section \<open>Fields\<close>

text \<open>The sections of \<open>Config\<close>, each named by its type.\<close>

definition config_fields :: "go_type marked list" where
  "config_fields =
     [([], T_ServerConfig), ([], T_MongoConfig), ([F_kafka], T_KafkaConfig), ([F_sqs], T_SQSConfig),
      ([], T_RedisConfig), ([], T_LoggerConfig), ([F_observability], T_ObservabilityConfig), ([], T_CORSConfig),
      ([F_worker], T_WorkerConfig), ([], T_RateLimitConfig), ([], T_HTTPClientConfig)]"

text \<open>
  The sections the code reads: the accessors above, \<open>ProvideRouter\<close>, the worker's
  \<open>ProvideHealthRegistry\<close>, \<open>Run\<close> and \<open>startHealthServer\<close>, and the check at the end of \<open>Load\<close>.
\<close>

definition ProvideRouter_reads :: "go_type marked list" where
  "ProvideRouter_reads =
     [([F_observability], T_ObservabilityConfig), ([], T_RateLimitConfig), ([], T_ServerConfig), ([], T_CORSConfig)]"

definition worker_reads :: "go_type marked list" where
  "worker_reads = [([F_kafka], T_KafkaConfig), ([F_sqs], T_SQSConfig), ([], T_WorkerConfig)]"

definition validate_reads :: "go_type marked list" where
  "validate_reads = [([F_observability], T_ObservabilityConfig)]"

definition accessor_reads :: "signature list \<Rightarrow> go_type marked list" where
  "accessor_reads = map (\<lambda>sg. (sg_marks sg, sg_result sg))"

definition config_reads :: "go_type marked list" where
  "config_reads =
     accessor_reads (sig_server_accessors @ sig_worker_accessors) @ ProvideRouter_reads
     @ under F_worker worker_reads @ validate_reads"

text \<open>The fields of the application that \<open>Run\<close> and \<open>startHealthServer\<close> use, each named by its type.\<close>

definition worker_Run_uses :: "go_type marked list" where
  "worker_Run_uses =
     [([], T_Registry),
      ([F_kafka, F_samples], T_MainClient), ([F_kafka, F_samples], T_KafkaMessageHandler), ([F_kafka, F_samples], T_Logger),
      ([F_kafka, F_samples], T_Config), ([F_kafka, F_samples], T_KafkaProducer), ([F_kafka, F_samples], T_KafkaChecker),
      ([F_kafka], T_RetryClient), ([F_kafka], T_KafkaProducer), ([F_kafka], T_Config), ([F_kafka], T_Logger),
      ([F_kafka], T_KafkaChecker),
      ([F_sqs], T_Config), ([F_sqs], T_SQSMessageHandler), ([F_sqs], T_SQSClient), ([F_sqs], T_Logger),
      ([F_sqs], T_SQSProducer), ([F_sqs], T_SQSChecker)]"

definition startHealthServer_uses :: "go_type marked list" where
  "startHealthServer_uses = [([], T_Config), ([], T_Registry), ([], T_Logger)]"

definition fields_present :: "(feature \<Rightarrow> bool) \<Rightarrow> bool" where
  "fields_present k \<longleftrightarrow>
     list_all (\<lambda>t. t \<in> set (kept k config_fields)) (kept k config_reads)
     \<and> (k F_worker \<longrightarrow>
         list_all (\<lambda>t. t \<in> set (kept k (sg_params sig_WorkerApp)))
           (kept k (worker_Run_uses @ startHealthServer_uses)))"

section \<open>The configuration's sections\<close>

text \<open>The accessors of cmd/server/providers.go and of cmd/worker/providers.go.\<close>

definition ProvideServerConfig :: "Config \<Rightarrow> ServerConfig" where "ProvideServerConfig c = cfg_Server c"
definition ProvideObservabilityConfig :: "Config \<Rightarrow> ObservabilityConfig" where "ProvideObservabilityConfig c = cfg_Observability c"
definition ProvideKafkaConfig :: "Config \<Rightarrow> KafkaConfig" where "ProvideKafkaConfig c = cfg_Kafka c"
definition ProvideSQSConfig :: "Config \<Rightarrow> SQSConfig" where "ProvideSQSConfig c = cfg_SQS c"

text \<open>What a call of a fallible provider opens and how it is undone, in the worker and in the server.\<close>

definition worker_call :: "app_env \<Rightarrow> Config \<Rightarrow> provider_fn \<Rightarrow> provided option" where
  "worker_call env cfg p =
     (case p of
        worker_ProvideMainConsumer \<Rightarrow> Some (ProvideMainConsumer env (ProvideKafkaConfig cfg))
      | worker_ProvideRetryConsumer \<Rightarrow> Some (ProvideRetryConsumer env (ProvideKafkaConfig cfg))
      | worker_ProvideProducerClient \<Rightarrow> Some (ProvideProducerClient env (ProvideKafkaConfig cfg))
      | worker_ProvideSQSClient \<Rightarrow> Some (ProvideSQSClient env (ProvideSQSConfig cfg))
      | worker_ProvideObservability \<Rightarrow> Some (ProvideObservability env (ProvideObservabilityConfig cfg))
      | _ \<Rightarrow> None)"

definition server_call :: "app_env \<Rightarrow> Config \<Rightarrow> provider_fn \<Rightarrow> provided option" where
  "server_call env cfg p =
     (case p of
        database_NewMongoClient \<Rightarrow> Some (ProvideMongo env (ProvideObservabilityConfig cfg))
      | server_ProvideObservability \<Rightarrow> Some (ProvideObservability env (ProvideObservabilityConfig cfg))
      | _ \<Rightarrow> None)"

end
