(* ===== verification/WireCorrect.thy ===== *)
theory WireCorrect
  imports WireGraph
begin

text \<open>
  The stripped declarations still have a solution, it is unique up to the order of its calls, and an
  initialiser that follows it releases what it acquires.
\<close>

section \<open>Injectors\<close>

text \<open>Each call finds its parameters among the arguments and the results before it, and adds a new one.\<close>

fun injects :: "('p \<Rightarrow> 't list) \<Rightarrow> ('p \<Rightarrow> 't) \<Rightarrow> 't list \<Rightarrow> 'p list \<Rightarrow> bool" where
  "injects needs gives avail [] \<longleftrightarrow> True"
| "injects needs gives avail (p # ps) \<longleftrightarrow>
     list_all (\<lambda>n. n \<in> set avail) (needs p) \<and> gives p \<notin> set avail \<and> injects needs gives (gives p # avail) ps"

text \<open>Each call's result is the target or a parameter of a later call.\<close>

fun wasteless :: "('p \<Rightarrow> 't list) \<Rightarrow> ('p \<Rightarrow> 't) \<Rightarrow> 't \<Rightarrow> 'p list \<Rightarrow> bool" where
  "wasteless needs gives target [] \<longleftrightarrow> True"
| "wasteless needs gives target (p # ps) \<longleftrightarrow>
     (gives p = target \<or> list_ex (\<lambda>q. gives p \<in> set (needs q)) ps) \<and> wasteless needs gives target ps"

text \<open>The calls that a sequence leaves when those without use are dropped, from the last to the first.\<close>

fun useful :: "('p \<Rightarrow> 't list) \<Rightarrow> ('p \<Rightarrow> 't) \<Rightarrow> 't \<Rightarrow> 'p list \<Rightarrow> 'p list" where
  "useful needs gives target [] = []"
| "useful needs gives target (p # ps) =
     (let qs = useful needs gives target ps
      in if gives p = target \<or> list_ex (\<lambda>q. gives p \<in> set (needs q)) qs then p # qs else qs)"

definition injector :: "('p \<Rightarrow> 't list) \<Rightarrow> ('p \<Rightarrow> 't) \<Rightarrow> 'p list \<Rightarrow> 't list \<Rightarrow> 't \<Rightarrow> 'p list \<Rightarrow> bool" where
  "injector needs gives provs args target ps \<longleftrightarrow>
     list_all (\<lambda>p. p \<in> set provs) ps \<and> injects needs gives args ps \<and> wasteless needs gives target ps
     \<and> target \<in> set (map gives ps)"

text \<open>The types that the target draws in.\<close>

inductive drawn :: "('p \<Rightarrow> 't list) \<Rightarrow> ('p \<Rightarrow> 't) \<Rightarrow> 'p list \<Rightarrow> 't \<Rightarrow> 't \<Rightarrow> bool"
  for needs gives provs target where
  drawn_target: "drawn needs gives provs target target"
| drawn_need: "drawn needs gives provs target (gives p) \<Longrightarrow> p \<in> set provs \<Longrightarrow> n \<in> set (needs p)
    \<Longrightarrow> drawn needs gives provs target n"

lemma wasteless_useful: "wasteless needs gives target (useful needs gives target ps)"
  by (induction ps) (simp_all add: Let_def)

text \<open>A list of providers with one provider for each type, none for an argument.\<close>

locale provider_graph =
  fixes needs :: "'p \<Rightarrow> 't list" and gives :: "'p \<Rightarrow> 't" and provs :: "'p list" and args :: "'t list"
  assumes unambiguous: "distinct (map gives provs)"
    and args_not_given: "p \<in> set provs \<Longrightarrow> gives p \<notin> set args"
begin

lemma same_provider: "p \<in> set provs \<Longrightarrow> q \<in> set provs \<Longrightarrow> gives p = gives q \<Longrightarrow> p = q"
  using unambiguous by (auto simp: distinct_map dest: inj_onD)

lemma calls_drawn:
  "wasteless needs gives target ps \<Longrightarrow> set ps \<subseteq> set provs \<Longrightarrow> p \<in> set ps
    \<Longrightarrow> drawn needs gives provs target (gives p)"
proof (induction ps arbitrary: p)
  case (Cons q qs)
  show ?case
  proof (cases "p \<in> set qs")
    case False
    with Cons.prems have "p = q" by simp
    then show ?thesis using Cons
      by (auto simp: list_ex_iff intro: drawn_target drawn_need)
  qed (use Cons in simp)
qed simp

lemma needs_available:
  "injects needs gives avail ps \<Longrightarrow> p \<in> set ps \<Longrightarrow> n \<in> set (needs p) \<Longrightarrow> n \<in> set avail \<union> gives ` set ps"
proof (induction ps arbitrary: avail)
  case (Cons q ps)
  from Cons.prems Cons.IH [of "gives q # avail"] show ?case by (auto simp: list_all_iff)
qed simp

lemma drawn_available:
  assumes "drawn needs gives provs target t" "injects needs gives args ps" "set ps \<subseteq> set provs" "target \<in> gives ` set ps"
  shows "t \<in> set args \<union> gives ` set ps"
  using assms(1)
proof induction
  case (drawn_need p n)
  from args_not_given [OF drawn_need.hyps(2)] drawn_need.IH obtain q where q: "q \<in> set ps" "gives p = gives q" by auto
  with same_provider [OF drawn_need.hyps(2)] assms(3) have "p = q" by auto
  with needs_available [OF assms(2) q(1)] drawn_need.hyps(3) show ?case by simp
qed (use assms(4) in simp)

theorem calls_determined:
  assumes "injector needs gives provs args target ps"
  shows "set ps = {p \<in> set provs. drawn needs gives provs target (gives p)}"
proof -
  have ps: "set ps \<subseteq> set provs" "injects needs gives args ps" "wasteless needs gives target ps" "target \<in> gives ` set ps"
    using assms by (auto simp: injector_def list_all_iff)
  have "p \<in> set ps" if "p \<in> set provs" "drawn needs gives provs target (gives p)" for p
  proof -
    from drawn_available [OF that(2) ps(2,1,4)] args_not_given [OF that(1)]
    obtain q where "q \<in> set ps" "gives p = gives q" by auto
    with same_provider [OF that(1)] ps(1) show ?thesis by auto
  qed
  with calls_drawn [OF ps(3,1)] ps(1) show ?thesis by auto
qed

lemma same_calls:
  "injector needs gives provs args target ps \<Longrightarrow> injector needs gives provs args target qs \<Longrightarrow> set ps = set qs"
  by (simp add: calls_determined)

lemma injects_distinct: "injects needs gives avail ps \<Longrightarrow> distinct (map gives ps) \<and> set avail \<inter> gives ` set ps = {}"
proof (induction ps arbitrary: avail)
  case (Cons q ps)
  from Cons.prems Cons.IH [of "gives q # avail"] show ?case by auto
qed simp

end

section \<open>The two programs\<close>

lemma kept_Cons: "kept k ((fs, x) # xs) = (if list_all k fs then x # kept k xs else kept k xs)"
  by (simp add: kept_def)

lemma kept_subset: "set (kept k xs) \<subseteq> snd ` set xs"
  by (force simp: kept_def)

lemma kept_distinct: "distinct (map f (map snd xs)) \<Longrightarrow> distinct (map f (kept k xs))"
proof (induction xs)
  case (Cons x xs)
  then show ?case using kept_subset [of k xs] by (cases x) (auto simp: kept_Cons)
qed (simp add: kept_def)

lemma server_build_gives: "distinct (map wire_gives (map snd server_build)) \<and> list_all (\<lambda>p. wire_gives p \<noteq> T_string) (map snd server_build)"
  by code_simp

lemma worker_build_gives: "distinct (map wire_gives (map snd worker_build)) \<and> list_all (\<lambda>p. wire_gives p \<noteq> T_string) (map snd worker_build)"
  by code_simp

interpretation server_graph: provider_graph "wire_needs k" wire_gives "kept k server_build" "[T_string]" for k
proof
  show "distinct (map wire_gives (kept k server_build))" using server_build_gives by (simp only: kept_distinct)
  show "wire_gives p \<notin> set [T_string]" if "p \<in> set (kept k server_build)" for p
    using that server_build_gives kept_subset [of k server_build] by (auto simp: list_all_iff)
qed

interpretation worker_graph: provider_graph "wire_needs k" wire_gives "kept k worker_build" "[T_string]" for k
proof
  show "distinct (map wire_gives (kept k worker_build))" using worker_build_gives by (simp only: kept_distinct)
  show "wire_gives p \<notin> set [T_string]" if "p \<in> set (kept k worker_build)" for p
    using that worker_build_gives kept_subset [of k worker_build] by (auto simp: list_all_iff)
qed

text \<open>The committed initialisers, less what the stripped lists no longer name and what nothing needs any more.\<close>

definition server_order :: "(feature \<Rightarrow> bool) \<Rightarrow> provider_fn list" where
  "server_order k = useful (wire_needs k) wire_gives T_ServerApp (filter (\<lambda>p. p \<in> set (kept k server_build)) server_wire_gen)"

definition worker_order :: "(feature \<Rightarrow> bool) \<Rightarrow> provider_fn list" where
  "worker_order k = useful (wire_needs k) wire_gives T_WorkerApp (filter (\<lambda>p. p \<in> set (kept k worker_build)) worker_wire_gen)"

definition server_injector :: "(feature \<Rightarrow> bool) \<Rightarrow> provider_fn list \<Rightarrow> bool" where
  "server_injector k = injector (wire_needs k) wire_gives (kept k server_build) [T_string] T_ServerApp"

definition worker_injector :: "(feature \<Rightarrow> bool) \<Rightarrow> provider_fn list \<Rightarrow> bool" where
  "worker_injector k = injector (wire_needs k) wire_gives (kept k worker_build) [T_string] T_WorkerApp"

lemma server_orders:
  "\<forall>a b c d. list_all (provider_declared (keeping a b c d)) (kept (keeping a b c d) server_build)
     \<and> server_injector (keeping a b c d) (server_order (keeping a b c d))"
  by code_simp

lemma worker_orders:
  "\<forall>a b c d. \<not> (a \<and> b) \<longrightarrow> list_all (provider_declared (keeping a b c d)) (kept (keeping a b c d) worker_build)
     \<and> worker_injector (keeping a b c d) (worker_order (keeping a b c d))
     \<and> list_all (\<lambda>p. p \<in> set (worker_order (keeping a b c d))) (kept (keeping a b c d) worker_build)"
  by code_simp

lemma all_fields_present: "\<forall>a b c d. fields_present (keeping a b c d)"
  by code_simp

definition server_builds :: "(feature \<Rightarrow> bool) \<Rightarrow> bool" where
  "server_builds k \<longleftrightarrow>
     list_all (provider_declared k) (kept k server_build) \<and> server_injector k (server_order k)"

text \<open>In the worker every listed provider must be used: Wire rejects an unused argument of \<open>wire.Build\<close>.\<close>

definition worker_builds :: "(feature \<Rightarrow> bool) \<Rightarrow> bool" where
  "worker_builds k \<longleftrightarrow>
     list_all (provider_declared k) (kept k worker_build) \<and> worker_injector k (worker_order k)
     \<and> set (worker_order k) = set (kept k worker_build)"

lemma worker_order_kept: "set (worker_order k) \<subseteq> set (kept k worker_build)"
proof -
  have "set (useful needs gives target ps) \<subseteq> set ps" for needs gives and target :: go_type and ps :: "provider_fn list"
    by (induction ps) (auto simp: Let_def)
  then show ?thesis by (fastforce simp: worker_order_def)
qed

text \<open>
  C12: whatever features are deselected, the stripped tree still has what dependency injection needs: every
  provider that wire.go still lists, and every type it mentions, is still declared; the calls of the
  committed wire_gen.go, less those that were stripped or that nothing needs any more, give each
  provider its parameters and end with the application; in the worker, which is there unless both
  brokers go, no listed provider is unused; and every field of the configuration and of the worker that
  the remaining code reads is still there.
\<close>
theorem wire_every_selection:
  "fields_present (keeping noKafka noSQS noObs noSamples) \<and> server_builds (keeping noKafka noSQS noObs noSamples)
   \<and> (\<not> (noKafka \<and> noSQS) \<longrightarrow> worker_builds (keeping noKafka noSQS noObs noSamples))"
proof (intro conjI impI)
  show "fields_present (keeping noKafka noSQS noObs noSamples)" using all_fields_present by blast
  show "server_builds (keeping noKafka noSQS noObs noSamples)" using server_orders by (simp only: server_builds_def)
  let ?k = "keeping noKafka noSQS noObs noSamples"
  assume "\<not> (noKafka \<and> noSQS)"
  with worker_orders have w: "list_all (provider_declared ?k) (kept ?k worker_build)" "worker_injector ?k (worker_order ?k)"
      "list_all (\<lambda>p. p \<in> set (worker_order ?k)) (kept ?k worker_build)" by blast+
  from w(3) have "set (kept ?k worker_build) \<subseteq> set (worker_order ?k)" by (simp add: list_all_iff subset_iff)
  with w(1,2) worker_order_kept [of ?k] show "worker_builds ?k" unfolding worker_builds_def by blast
qed

text \<open>
  The calls of an initialiser are determined by the declarations: whatever order is chosen for the
  stripped lists, if each call finds its parameters and none is wasted, then no provider is called twice
  and those called are exactly those of the stripped wire_gen.go, so the resources opened are the same.
\<close>
theorem wire_calls_determined:
  "(server_injector (keeping noKafka noSQS noObs noSamples) ps
      \<longrightarrow> distinct ps \<and> set ps = set (server_order (keeping noKafka noSQS noObs noSamples)))
   \<and> (\<not> (noKafka \<and> noSQS) \<and> worker_injector (keeping noKafka noSQS noObs noSamples) qs
      \<longrightarrow> distinct qs \<and> set qs = set (worker_order (keeping noKafka noSQS noObs noSamples)))"
proof (intro conjI impI)
  let ?k = "keeping noKafka noSQS noObs noSamples"
  assume ps: "server_injector ?k ps"
  then have "distinct (map wire_gives ps)" using server_graph.injects_distinct [of ?k "[T_string]" ps]
    by (simp add: server_injector_def injector_def)
  then show "distinct ps" by (simp add: distinct_map)
  have "server_injector ?k (server_order ?k)" using server_orders by blast
  with ps show "set ps = set (server_order ?k)" unfolding server_injector_def by (rule server_graph.same_calls)
next
  let ?k = "keeping noKafka noSQS noObs noSamples"
  assume qs: "\<not> (noKafka \<and> noSQS) \<and> worker_injector ?k qs"
  then have "distinct (map wire_gives qs)" using worker_graph.injects_distinct [of ?k "[T_string]" qs]
    by (simp add: worker_injector_def injector_def)
  then show "distinct qs" by (simp add: distinct_map)
  from qs have "worker_injector ?k qs" ..
  moreover have "worker_injector ?k (worker_order ?k)" using worker_orders qs by blast
  ultimately show "set qs = set (worker_order ?k)" unfolding worker_injector_def by (rule worker_graph.same_calls)
qed

section \<open>What the committed initialisers open\<close>

lemma wire_gen_orders:
  "server_order (keeping False False False False) = server_wire_gen
   \<and> worker_order (keeping False False False False) = worker_wire_gen"
  by code_simp

lemma worker_wire_gen_acquires: "List.map_filter (worker_call env cfg) worker_wire_gen = worker_providers env cfg"
  by (simp add: worker_wire_gen_def worker_call_def worker_providers_def ProvideKafkaConfig_def ProvideSQSConfig_def
      ProvideObservabilityConfig_def)

lemma server_wire_gen_acquires:
  "List.map_filter (server_call env cfg) server_wire_gen
     = [ProvideMongo env (cfg_Observability cfg), ProvideObservability env (cfg_Observability cfg)]"
  by (simp add: server_wire_gen_def server_call_def ProvideObservabilityConfig_def)

text \<open>The calls that open something are those of the providers that return a cleanup.\<close>

lemma cleanup_calls:
  "list_all (\<lambda>p. (worker_call env cfg p \<noteq> None) = (\<exists>sg \<in> set signatures. sg_name sg = p \<and> sg_cleanup sg)) worker_wire_gen
   \<and> list_all (\<lambda>p. (server_call env cfg p \<noteq> None) = (\<exists>sg \<in> set signatures. sg_name sg = p \<and> sg_cleanup sg)) server_wire_gen"
  by (simp add: worker_wire_gen_def server_wire_gen_def worker_call_def server_call_def signatures_def sig_defs del: not_None_eq)

text \<open>
  Without the samples the worker still opens the main consumer, which joins its group, and
  neither \<open>Run\<close> nor the health server uses it; with the samples \<open>Run\<close> polls it.
\<close>

lemma main_consumer_idle:
  "\<forall>noSQS noObs noSamples.
     worker_ProvideMainConsumer \<in> set (worker_order (keeping False noSQS noObs noSamples))
     \<and> (T_MainClient \<in> set (kept (keeping False noSQS noObs noSamples) (worker_Run_uses @ startHealthServer_uses)))
         = (\<not> noSamples)"
  by code_simp

lemma worker_call_undone: "worker_call env cfg p = Some q \<Longrightarrow> undone q"
  by (cases p) (auto simp: worker_call_def main_consumer_provider.leaves_nothing retry_consumer_provider.leaves_nothing
      producer_provider.leaves_nothing sqs_provider.leaves_nothing otel_provider.leaves_nothing)

text \<open>In whatever order, and with whatever features, what the worker's initialiser opens is released.\<close>

lemma any_order_released:
  assumes "acquire (List.map_filter (worker_call env cfg) ps) [] = (r, es, held)"
  shows "held_after [] (es @ held) = Some [] \<and> (r \<noteq> None \<longrightarrow> held = [])"
proof -
  have "\<forall>q \<in> set (List.map_filter (worker_call env cfg) ps). undone q"
    by (auto simp: List.map_filter_def dest: worker_call_undone)
  from acquire_releases [OF this, of "[]" "[]"] assms show ?thesis by simp
qed

theorem wire_every_selection_witness:
  "worker_builds (keeping True False True True) \<and> server_builds (keeping True False True True)"
  using wire_every_selection [of True False True True] by simp

theorem wire_calls_determined_witness:
  "distinct server_wire_gen \<and> set server_wire_gen = set (server_order (keeping False False False False))
   \<and> distinct worker_wire_gen \<and> set worker_wire_gen = set (worker_order (keeping False False False False))"
proof -
  have "server_injector (keeping False False False False) server_wire_gen
      \<and> worker_injector (keeping False False False False) worker_wire_gen"
    using server_orders worker_orders wire_gen_orders by metis
  then show ?thesis using wire_calls_determined [of False False False False server_wire_gen worker_wire_gen] by simp
qed

end
