(* ===== verification/ImportGraph.thy ===== *)
theory ImportGraph
  imports WireGraph InitCorrect
begin

text \<open>
  The imports between the packages of the repository, file by file, with the feature markers around
  them: after the init tool has deleted the packages of the deselected features and stripped their
  markers, no file that is left imports a deleted package. The generated wire_gen.go files carry no
  markers and would; the tool removes them and has them generated again. Packages of other modules are
  left out, so are tests and mocks, which belong to the package they are generated for.
\<close>

section \<open>Imports\<close>

definition imports_server_main :: "string marked list" where
  "imports_server_main = [([F_observability], ''internal/platform/observability'')]"

definition imports_server_providers :: "string marked list" where
  "imports_server_providers =
     [([], ''internal/middleware''), ([], ''internal/platform/config''), ([], ''internal/platform/health''),
      ([], ''internal/platform/httpserver''), ([F_observability], ''internal/platform/observability''),
      ([F_samples], ''internal/role''), ([F_samples], ''internal/user'')]"

definition imports_server_wire :: "string marked list" where
  "imports_server_wire =
     [([], ''internal/platform/config''), ([], ''internal/platform/database''),
      ([], ''internal/platform/httpserver''), ([], ''internal/platform/logger''),
      ([F_samples], ''internal/role''), ([F_samples], ''internal/user'')]"

definition imports_server_wire_gen :: "string marked list" where
  "imports_server_wire_gen =
     [([], ''internal/platform/config''), ([], ''internal/platform/database''),
      ([], ''internal/platform/httpserver''), ([], ''internal/platform/logger''), ([], ''internal/role''),
      ([], ''internal/user'')]"

definition imports_worker_main :: "string marked list" where
  "imports_worker_main = [([F_observability], ''internal/platform/observability'')]"

definition imports_worker_providers :: "string marked list" where
  "imports_worker_providers =
     [([], ''internal/platform/config''), ([], ''internal/platform/health''),
      ([F_kafka], ''internal/platform/kafka''), ([F_observability], ''internal/platform/observability''),
      ([F_sqs], ''internal/platform/sqs''), ([F_kafka, F_samples], ''internal/user'')]"

definition imports_worker_wire :: "string marked list" where
  "imports_worker_wire =
     [([], ''internal/platform/config''), ([], ''internal/platform/logger''),
      ([F_kafka, F_samples], ''internal/user'')]"

definition imports_worker_wire_gen :: "string marked list" where
  "imports_worker_wire_gen =
     [([], ''internal/platform/config''), ([], ''internal/platform/logger''), ([], ''internal/user'')]"

definition imports_middleware_cors :: "string marked list" where
  "imports_middleware_cors = [([], ''internal/platform/config'')]"

definition imports_middleware_rate_limit :: "string marked list" where
  "imports_middleware_rate_limit = [([], ''internal/platform/config'')]"

definition imports_database_mongo :: "string marked list" where
  "imports_database_mongo = [([], ''internal/platform/config'')]"

definition imports_httpclient_client :: "string marked list" where
  "imports_httpclient_client = [([], ''internal/platform/config'')]"

definition imports_httpserver_server :: "string marked list" where
  "imports_httpserver_server = [([], ''internal/platform/config'')]"

definition imports_kafka_client :: "string marked list" where
  "imports_kafka_client = [([], ''internal/platform/config'')]"

definition imports_kafka_consumer :: "string marked list" where
  "imports_kafka_consumer = [([], ''internal/platform/config'')]"

definition imports_logger_logger :: "string marked list" where
  "imports_logger_logger = [([], ''internal/platform/config'')]"

definition imports_observability_otel :: "string marked list" where
  "imports_observability_otel = [([], ''internal/platform/config'')]"

definition imports_sqs_client :: "string marked list" where
  "imports_sqs_client = [([], ''internal/platform/config'')]"

definition imports_sqs_consumer :: "string marked list" where
  "imports_sqs_consumer = [([], ''internal/platform/config'')]"

definition imports_sqs_consumer_retry :: "string marked list" where
  "imports_sqs_consumer_retry = [([], ''internal/platform/config'')]"

definition imports_role_handler :: "string marked list" where
  "imports_role_handler = [([], ''internal/platform/httperror'')]"

definition imports_user_handler :: "string marked list" where
  "imports_user_handler = [([], ''internal/platform/httperror'')]"

definition imports_user_repository :: "string marked list" where
  "imports_user_repository = [([], ''internal/platform/pagination'')]"

definition imports_user_service :: "string marked list" where
  "imports_user_service = [([], ''internal/platform/pagination'')]"

definition source_imports :: "(string \<times> string marked list) list" where
  "source_imports =
     [(''cmd/server/main.go'', imports_server_main),
      (''cmd/server/providers.go'', imports_server_providers),
      (''cmd/server/wire.go'', imports_server_wire),
      (''cmd/worker/main.go'', imports_worker_main),
      (''cmd/worker/providers.go'', imports_worker_providers),
      (''cmd/worker/wire.go'', imports_worker_wire),
      (''internal/middleware/cors.go'', imports_middleware_cors),
      (''internal/middleware/rate_limit.go'', imports_middleware_rate_limit),
      (''internal/platform/database/mongo.go'', imports_database_mongo),
      (''internal/platform/httpclient/client.go'', imports_httpclient_client),
      (''internal/platform/httpserver/server.go'', imports_httpserver_server),
      (''internal/platform/kafka/client.go'', imports_kafka_client),
      (''internal/platform/kafka/consumer.go'', imports_kafka_consumer),
      (''internal/platform/logger/logger.go'', imports_logger_logger),
      (''internal/platform/observability/otel.go'', imports_observability_otel),
      (''internal/platform/sqs/client.go'', imports_sqs_client),
      (''internal/platform/sqs/consumer.go'', imports_sqs_consumer),
      (''internal/platform/sqs/consumer_retry.go'', imports_sqs_consumer_retry),
      (''internal/role/handler.go'', imports_role_handler),
      (''internal/user/handler.go'', imports_user_handler),
      (''internal/user/repository.go'', imports_user_repository),
      (''internal/user/service.go'', imports_user_service)]"

definition generated_imports :: "(string \<times> string marked list) list" where
  "generated_imports =
     [(''cmd/server/wire_gen.go'', imports_server_wire_gen),
      (''cmd/worker/wire_gen.go'', imports_worker_wire_gen)]"

section \<open>What a selection deletes\<close>

definition init_deletes :: "bool \<Rightarrow> bool \<Rightarrow> bool \<Rightarrow> bool \<Rightarrow> string \<Rightarrow> bool" where
  "init_deletes noKafka noSQS noObs noSamples f \<longleftrightarrow>
     list_ex (\<lambda>p. below p f)
       (selected_paths (computeStripList noKafka noSQS noObs noSamples) (noKafka \<and> noSQS))"

text \<open>The features whose removal deletes a path.\<close>

definition feature_deletes :: "feature \<Rightarrow> string list" where
  "feature_deletes f =
     (if f = F_worker then [''cmd/worker'']
      else case findFeature (feature_name f) of None \<Rightarrow> [] | Some feat \<Rightarrow> ft_DeletePaths feat)"

definition removers :: "string \<Rightarrow> feature list" where
  "removers f =
     filter (\<lambda>x. list_ex (\<lambda>p. below p f) (feature_deletes x)) [F_kafka, F_sqs, F_observability, F_samples, F_worker]"

lemma set_all_features: "x \<in> set [F_kafka, F_sqs, F_observability, F_samples, F_worker]"
  by (cases x) simp_all

lemma removers_iff: "x \<in> set (removers f) \<longleftrightarrow> list_ex (\<lambda>p. below p f) (feature_deletes x)"
  unfolding removers_def set_filter mem_Collect_eq using set_all_features [of x] by simp

lemma init_deletes_iff:
  "init_deletes noKafka noSQS noObs noSamples f \<longleftrightarrow> list_ex (\<lambda>x. \<not> keeping noKafka noSQS noObs noSamples x) (removers f)"
proof -
  have a: "list_ex (\<lambda>x. \<not> keeping noKafka noSQS noObs noSamples x) (removers f) \<longleftrightarrow>
      (\<exists>x. \<not> keeping noKafka noSQS noObs noSamples x \<and> list_ex (\<lambda>p. below p f) (feature_deletes x))"
    unfolding list_ex_iff [of _ "removers f"] by (metis removers_iff)
  have ex: "(\<exists>x. P x) \<longleftrightarrow> P F_kafka \<or> P F_sqs \<or> P F_observability \<or> P F_samples \<or> P F_worker" for P :: "feature \<Rightarrow> bool"
    by (metis feature.exhaust)
  show ?thesis unfolding a ex
    by (simp add: init_deletes_def selected_paths_def computeStripList_def keeping_def feature_deletes_def)
qed

lemma guarded_imports:
  "list_all (\<lambda>(f, imps). list_all (\<lambda>(fs, pkg). list_all (\<lambda>x. x \<in> set fs \<or> x \<in> set (removers f)) (removers pkg)) imps)
     source_imports"
  by code_simp

text \<open>
  C19: whatever features are deselected, a file the tool leaves imports no package that it deletes: an
  import of a package that goes with a feature stands between that feature's markers, or in a file
  that goes with it too.
\<close>
theorem init_no_dangling_imports:
  assumes "(f, imps) \<in> set source_imports" "\<not> init_deletes noKafka noSQS noObs noSamples f"
    and "pkg \<in> set (kept (keeping noKafka noSQS noObs noSamples) imps)"
  shows "\<not> init_deletes noKafka noSQS noObs noSamples pkg"
proof
  assume "init_deletes noKafka noSQS noObs noSamples pkg"
  then obtain x where x: "x \<in> set (removers pkg)" "\<not> keeping noKafka noSQS noObs noSamples x"
    by (auto simp: init_deletes_iff list_ex_iff)
  from assms(3) obtain fs where fs: "(fs, pkg) \<in> set imps" "list_all (keeping noKafka noSQS noObs noSamples) fs"
    by (auto simp: kept_def)
  from guarded_imports assms(1) fs(1) x(1) have "x \<in> set fs \<or> x \<in> set (removers f)"
    by (fastforce simp: list_all_iff)
  with fs(2) x(2) assms(2) show False by (auto simp: init_deletes_iff list_all_iff list_ex_iff)
qed

theorem init_no_dangling_imports_witness:
  "\<not> init_deletes True False True False ''internal/platform/sqs''"
proof -
  have "(''cmd/worker/providers.go'', imports_worker_providers) \<in> set source_imports
      \<and> \<not> init_deletes True False True False ''cmd/worker/providers.go''
      \<and> ''internal/platform/sqs'' \<in> set (kept (keeping True False True False) imports_worker_providers)" by code_simp
  then show ?thesis using init_no_dangling_imports by blast
qed

text \<open>The generated files would not survive: without the samples both import packages that are gone.\<close>

lemma generated_imports_dangle:
  "list_all (\<lambda>(f, imps). \<not> init_deletes False False False True f
      \<and> list_ex (init_deletes False False False True) (kept (keeping False False False True) imps)) generated_imports"
  by code_simp

end
