(* ===== verification/WorkerHealth.thy ===== *)
theory WorkerHealth
  imports WorkerProgram
begin

text \<open>
  The goroutines that \<open>startHealthServer\<close> leaves behind, beside \<open>Run\<close>: one serves until the
  listener ends, one waits for the context and shuts the server down, and \<open>Run\<close> shuts it down
  itself once the consumers have returned. Steps of the three interleave; every event is kept with
  the goroutine it came from.
\<close>

section \<open>Definitions\<close>

datatype run_process = InRun | InServe | InWatch

text \<open>What the serving goroutine logs when \<open>ListenAndServe\<close> returns.\<close>

definition health_serve :: "listen_result \<Rightarrow> app_event list" where
  "health_serve r =
     (case r of ListenFailed e \<Rightarrow> [LoggedError ''worker health server failed'' (error_text e)] | _ \<Rightarrow> [])"

text \<open>\<open>hrun_left\<close>: what \<open>Run\<close> has still to do.\<close>

record health_run =
  hrun_done :: bool
  hrun_left :: "app_event list"
  hrun_serving :: bool
  hrun_watching :: bool
  hrun_trace :: "(run_process \<times> app_event) list"

fun starts_listening :: "app_event \<Rightarrow> bool" where
  "starts_listening (Listening a) = True"
| "starts_listening _ = False"

definition health_run_start :: "app_event list \<Rightarrow> health_run" where
  "health_run_start es = \<lparr>hrun_done = False, hrun_left = es, hrun_serving = False, hrun_watching = False, hrun_trace = []\<rparr>"

inductive health_run_step :: "health_run \<Rightarrow> health_run \<Rightarrow> bool" where
  cancel: "health_run_step s (s\<lparr>hrun_done := True\<rparr>)"
| run: "hrun_left s = e # es \<Longrightarrow>
     health_run_step s (s\<lparr>hrun_left := es, hrun_serving := hrun_serving s \<or> starts_listening e,
       hrun_watching := hrun_watching s \<or> starts_listening e, hrun_trace := hrun_trace s @ [(InRun, e)]\<rparr>)"
| serve: "hrun_serving s \<Longrightarrow>
     health_run_step s (s\<lparr>hrun_serving := False, hrun_trace := hrun_trace s @ map (Pair InServe) (health_serve r)\<rparr>)"
| watch: "hrun_watching s \<Longrightarrow> hrun_done s \<Longrightarrow>
     health_run_step s (s\<lparr>hrun_watching := False, hrun_trace := hrun_trace s @ [(InWatch, ShutdownServer (5 * second))]\<rparr>)"

inductive health_run_reach :: "app_event list \<Rightarrow> health_run \<Rightarrow> bool" for es :: "app_event list" where
  start: "health_run_reach es (health_run_start es)"
| step: "health_run_reach es s \<Longrightarrow> health_run_step s s' \<Longrightarrow> health_run_reach es s'"

section \<open>The invariant\<close>

text \<open>The events of one goroutine.\<close>

definition events_in :: "run_process \<Rightarrow> (run_process \<times> app_event) list \<Rightarrow> app_event list" where
  "events_in p t = [e. (q, e) \<leftarrow> t, q = p]"

lemma events_in_simps [simp]:
  "events_in p [] = []"
  "events_in p (t @ t') = events_in p t @ events_in p t'"
  "events_in p [(q, e)] = (if q = p then [e] else [])"
  "events_in p (map (Pair q) es) = (if q = p then es else [])"
  by (simp_all add: events_in_def) (induction es; simp)+

text \<open>How often \<open>Run\<close> has started the server.\<close>

abbreviation started :: "health_run \<Rightarrow> nat" where
  "started s \<equiv> length (filter starts_listening (events_in InRun (hrun_trace s)))"

definition health_run_inv :: "app_event list \<Rightarrow> health_run \<Rightarrow> bool" where
  "health_run_inv es s \<longleftrightarrow>
     events_in InRun (hrun_trace s) @ hrun_left s = es
     \<and> length (events_in InServe (hrun_trace s)) + (if hrun_serving s then 1 else 0) \<le> started s
     \<and> length (events_in InWatch (hrun_trace s)) + (if hrun_watching s then 1 else 0) \<le> started s
     \<and> list_all (\<lambda>e. \<exists>x. e = LoggedError ''worker health server failed'' x) (events_in InServe (hrun_trace s))
     \<and> list_all (\<lambda>e. e = ShutdownServer (5 * second)) (events_in InWatch (hrun_trace s))
     \<and> (events_in InWatch (hrun_trace s) \<noteq> [] \<longrightarrow> hrun_done s)"

lemma health_run_inv_step: "health_run_step s s' \<Longrightarrow> health_run_inv es s \<Longrightarrow> health_run_inv es s'"
  by (induction rule: health_run_step.induct)
    (auto simp: health_run_inv_def health_serve_def split: listen_result.splits if_splits)

lemma health_run_reach_inv: "health_run_reach es s \<Longrightarrow> health_run_inv es s"
proof (induction rule: health_run_reach.induct)
  case start
  show ?case by (simp add: health_run_inv_def health_run_start_def)
qed (rule health_run_inv_step)

section \<open>The life of the server\<close>

lemma starts_in_Run:
  "length (filter starts_listening (snd (worker_Run w waited))) = (if wrk_HealthPort (cfg_Worker (wa_Config w)) = 0 then 0 else 1)"
  by (simp add: worker_Run_def startHealthServer_def Let_def)

text \<open>
  Once \<open>Run\<close> has returned, its own events are those of the sequential model, whatever the other
  goroutines did in between. Without a port they did nothing. With one, the server was shut down
  by \<open>Run\<close> last and at most once before, by the other goroutine and only when the context was
  done; a listener that failed was logged once, and is the only thing they log.
\<close>

theorem worker_health_lifecycle:
  assumes "health_run_reach (snd (worker_Run w waited)) s" "hrun_left s = []"
  shows "events_in InRun (hrun_trace s) = snd (worker_Run w waited)
    \<and> (wrk_HealthPort (cfg_Worker (wa_Config w)) = 0 \<longrightarrow>
         events_in InServe (hrun_trace s) = [] \<and> events_in InWatch (hrun_trace s) = [])
    \<and> (wrk_HealthPort (cfg_Worker (wa_Config w)) \<noteq> 0 \<longrightarrow>
         last (events_in InRun (hrun_trace s)) = ShutdownServer (5 * second))
    \<and> (events_in InWatch (hrun_trace s) = []
       \<or> events_in InWatch (hrun_trace s) = [ShutdownServer (5 * second)] \<and> hrun_done s)
    \<and> (events_in InServe (hrun_trace s) = []
       \<or> (\<exists>x. events_in InServe (hrun_trace s) = [LoggedError ''worker health server failed'' x]))"
proof -
  note inv = health_run_reach_inv [OF assms(1), unfolded health_run_inv_def]
  then have own: "events_in InRun (hrun_trace s) = snd (worker_Run w waited)" using assms(2) by simp
  have one: "es = [] \<or> (\<exists>e. es = [e] \<and> P e)" if "length es \<le> 1" "list_all P es" for es :: "app_event list" and P
    using that by (cases es) auto
  have serve: "length (events_in InServe (hrun_trace s)) \<le> (if wrk_HealthPort (cfg_Worker (wa_Config w)) = 0 then 0 else 1)"
    and watch: "length (events_in InWatch (hrun_trace s)) \<le> (if wrk_HealthPort (cfg_Worker (wa_Config w)) = 0 then 0 else 1)"
    using inv unfolding own starts_in_Run by (auto split: if_splits)
  have "last (snd (worker_Run w waited)) = ShutdownServer (5 * second)" if "wrk_HealthPort (cfg_Worker (wa_Config w)) \<noteq> 0"
    using that by (simp add: worker_Run_def startHealthServer_def Let_def)
  then show ?thesis
    using own serve watch inv one [of "events_in InServe (hrun_trace s)"] one [of "events_in InWatch (hrun_trace s)"]
    by (auto split: if_splits)
qed

end
