(* ===== verification/WorkerHeartbeat.thy ===== *)
theory WorkerHeartbeat
  imports WorkerCorrect
begin

text \<open>
  The Kafka consumers of the worker and the checker they share. Both loops beat the checker that
  \<open>Run\<close> hands them, once after every poll that returned; the health registry asks it. Here the
  histories of the two loops interleave, each event with the instant it happened, and the checker
  is what the heartbeats have left.
\<close>

section \<open>Polls and heartbeats of a loop\<close>

definition polls_of :: "kafka_history \<Rightarrow> kafka_history" where
  "polls_of h = [e \<leftarrow> h. e = Polled \<or> e = Heartbeat]"

lemma polls_of_simps [simp]:
  "polls_of [] = []"
  "polls_of (h @ h') = polls_of h @ polls_of h'"
  "polls_of [Produced q x] = []" "polls_of [Slept d] = []" "polls_of [Waited d x] = []"
  "polls_of [Handled r x] = []" "polls_of [Committed rs x] = []"
  "polls_of [Polled] = [Polled]" "polls_of [Heartbeat] = [Heartbeat]" "polls_of [Polled, Heartbeat] = [Polled, Heartbeat]"
  by (simp_all add: polls_of_def)

text \<open>A handler neither polls nor beats.\<close>

definition quiet :: "kafka_handler \<Rightarrow> bool" where
  "quiet handle \<longleftrightarrow> (\<forall>h r. polls_of (snd (handle h r)) = polls_of h)"

lemma snd_Publish_polls [simp]: "polls_of (snd (kafka_Publish env h topic k v opts)) = polls_of h"
  by (simp add: kafka_Publish_def Let_def)

lemma Publish_polls: "kafka_Publish env h topic k v opts = (e, h') \<Longrightarrow> polls_of h' = polls_of h"
  using snd_Publish_polls [of env h topic k v opts] by simp

lemma attempts_polls:
  "kafka_publish_attempts env dest key value opts ds le h = (e, h') \<Longrightarrow> polls_of h' = polls_of h"
  by (induction ds arbitrary: le h)
    (auto split: prod.splits option.splits if_splits dest: Publish_polls)

lemma republish_polls: "kafka_republish env hp src dest he cfg toDLQ h = (e, h') \<Longrightarrow> polls_of h' = polls_of h"
  by (auto simp: kafka_republish_def Let_def dest: attempts_polls split: if_splits)

lemma process_record_polls:
  assumes "quiet handle" "kafka_process_record env handle hp cfg r h = (ok, h')"
  shows "polls_of h' = polls_of h"
proof -
  obtain err h1 where handle: "handle h r = (err, h1)" by fastforce
  then have "polls_of h1 = polls_of h" using assms(1) unfolding quiet_def by (metis snd_conv)
  then show ?thesis
    using assms(2) handle
    by (auto simp: kafka_process_record_def Let_def dest!: republish_polls split: kafka_Route.splits prod.splits)
qed

lemma process_batch_polls:
  "quiet handle \<Longrightarrow> kafka_process_batch env handle hp cfg cs rs h = (cs', h') \<Longrightarrow> polls_of h' = polls_of h"
  by (induction rs arbitrary: cs h) (auto split: prod.splits bool.splits dest: process_record_polls)

lemma consume_turn_polls:
  assumes "quiet handle" "kafka_consume_turn env handle hp True cfg h = Inr h'"
  shows "polls_of h' = polls_of h @ [Polled, Heartbeat]"
  using assms(2)
  by (auto simp: kafka_consume_turn_def Let_def dest!: process_batch_polls [OF assms(1)]
      split: option.splits prod.splits if_splits)

text \<open>A heartbeat follows every poll at once, unless the poll is the last event, and nothing else.\<close>

fun paced :: "kafka_history \<Rightarrow> bool" where
  "paced [] = True"
| "paced [Polled] = True"
| "paced (Polled # e # h) = (e = Heartbeat \<and> paced h)"
| "paced (e # h) = (e \<noteq> Heartbeat \<and> paced h)"

lemma polls_of_Cons [simp]: "polls_of (e # h) = (if e = Polled \<or> e = Heartbeat then e # polls_of h else polls_of h)"
  by (simp add: polls_of_def)

lemma paced_other: "e \<noteq> Polled \<Longrightarrow> paced (e # h) = (e \<noteq> Heartbeat \<and> paced h)"
  by (cases e) simp_all

lemma paced_quiet: "polls_of t = [] \<Longrightarrow> paced t \<and> Polled \<notin> set t"
  by (induction t) (auto simp: paced_other split: if_splits)

lemma paced_append: "paced h \<Longrightarrow> h \<noteq> [] \<longrightarrow> last h \<noteq> Polled \<Longrightarrow> paced t \<Longrightarrow> paced (h @ t)"
  by (induction h rule: paced.induct) (auto split: if_splits)

lemma paced_prefix: "paced (h @ t) \<Longrightarrow> paced h"
  by (induction h rule: paced.induct) auto

lemma consume_turn_beats:
  assumes "quiet handle" "handler_ok handle" "kafka_consume_turn env handle hp True cfg h = Inr h'"
  shows "\<exists>t. h' = h @ Polled # Heartbeat # t \<and> polls_of t = []"
proof -
  from consume_turn_batch [OF assms(3,2)] obtain t where t: "h' = h @ Polled # Heartbeat # t" by (auto simp: beats_def)
  with consume_turn_polls [OF assms(1,3)] show ?thesis by auto
qed

lemma runs_paced:
  "kafka_runs env handle hp True cfg [] h \<Longrightarrow> quiet handle \<Longrightarrow> handler_ok handle \<Longrightarrow> paced h \<and> (h \<noteq> [] \<longrightarrow> last h \<noteq> Polled)"
proof (induction rule: kafka_runs.induct)
  case (turn h h')
  from consume_turn_beats [OF turn.prems turn.hyps(2)] obtain t where
    t: "h' = h @ Polled # Heartbeat # t" "polls_of t = []" by blast
  note q = paced_quiet [OF t(2)]
  have "paced (Polled # Heartbeat # t)" using q by simp
  with turn have "paced h'" unfolding t(1) by (intro paced_append) auto
  moreover have "last h' \<noteq> Polled" using q unfolding t(1) by (cases t rule: rev_cases) auto
  ultimately show ?case by blast
qed simp

text \<open>
  The history of a loop at some moment: in the middle of a turn that will go round again, or as
  it was when the loop returned.
\<close>

definition under_way :: "kafka_env \<Rightarrow> kafka_handler \<Rightarrow> KafkaConsumerConfig \<Rightarrow> kafka_history \<Rightarrow> bool" where
  "under_way env handle cfg h \<longleftrightarrow>
     (\<exists>t. kafka_runs env handle True True cfg [] (h @ t))
     \<or> (\<exists>h0 e. kafka_runs env handle True True cfg [] h0 \<and> kafka_consume_turn env handle True True cfg h0 = Inl (e, h))"

lemma consume_turn_ends: "kafka_consume_turn env handle hp hb cfg h = Inl (e, h') \<Longrightarrow> h' = h \<or> h' = h @ [Polled]"
  by (auto simp: kafka_consume_turn_def Let_def split: option.splits prod.splits)

lemma under_way_paced:
  assumes "under_way env handle cfg h" "quiet handle" "handler_ok handle"
  shows "paced h"
  using assms(1) unfolding under_way_def
proof (elim disjE exE conjE)
  fix t assume "kafka_runs env handle True True cfg [] (h @ t)"
  from runs_paced [OF this assms(2,3)] show ?thesis using paced_prefix by blast
next
  fix h0 e
  assume "kafka_runs env handle True True cfg [] h0" and turn: "kafka_consume_turn env handle True True cfg h0 = Inl (e, h)"
  from runs_paced [OF this(1) assms(2,3)] consume_turn_ends [OF turn] show ?thesis by (auto intro: paced_append)
qed

lemma message_handler_quiet: "quiet ProvideMessageHandler"
  by (simp add: quiet_def ProvideMessageHandler_def)

lemma retry_handler_quiet: "quiet (kafka_retry_handler env cfg)"
  unfolding quiet_def
  by (auto simp: kafka_retry_handler_def Let_def split: option.splits prod.splits)

section \<open>The shared checker\<close>

type_synonym timed_trace = "(worker_task \<times> int \<times> kafka_event) list"

definition events_of :: "worker_task \<Rightarrow> timed_trace \<Rightarrow> kafka_history" where
  "events_of p tr = [e. (q, t, e) \<leftarrow> tr, q = p]"

fun beat_times :: "timed_trace \<Rightarrow> int list" where
  "beat_times [] = []"
| "beat_times ((p, t, e) # tr) = (if e = Heartbeat then t # beat_times tr else beat_times tr)"

text \<open>Both loops were given the same method of the same checker.\<close>

definition worker_kafka_checker :: "timed_trace \<Rightarrow> KafkaChecker" where
  "worker_kafka_checker tr = fold KafkaChecker_Heartbeat (beat_times tr) ProvideKafkaChecker"

lemma events_of_simps [simp]:
  "events_of p [] = []"
  "events_of p ((q, t, e) # tr) = (if q = p then e # events_of p tr else events_of p tr)"
  by (simp_all add: events_of_def)

lemma beat_times_mem: "t \<in> set (beat_times tr) \<longleftrightarrow> (\<exists>p. (p, t, Heartbeat) \<in> set tr)"
  by (induction tr rule: beat_times.induct) auto

lemma beat_times_sorted: "sorted (map (fst \<circ> snd) tr) \<Longrightarrow> sorted (beat_times tr)"
proof (induction tr rule: beat_times.induct)
  case (2 p t e tr)
  have "t \<le> u" if "u \<in> set (beat_times tr)" for u using that "2.prems" by (force simp: beat_times_mem)
  with 2 show ?case by simp
qed simp

text \<open>
  C9: the Kafka checker of the worker is healthy exactly if one of its two consumers has beaten it
  within the last 30 seconds; and each consumer beats at once after every poll that returned, before
  a record of it goes to the handler, and at no other time. So the checker cannot tell the loops
  apart: while one of them goes on polling, another that is stuck in its handler is not noticed; and
  a poll that waits for records longer than that, as on an idle topic, is reported as a failure.
\<close>

theorem worker_kafka_health:
  assumes "sorted (map (fst \<circ> snd) tr)" "\<forall>(p, t, e) \<in> set tr. 0 < t \<and> t \<le> now" "now < 2 ^ 63"
    and "under_way env_main ProvideMessageHandler (kafka_consumer_defaults cfg) (events_of KafkaMain tr)"
    and "under_way env_retry (kafka_retry_handler env_retry (kafka_retry_defaults cfg))
      (kafka_consumer_defaults (kafka_retry_inner_cfg (kafka_retry_defaults cfg))) (events_of KafkaRetryTask tr)"
  shows "(KafkaChecker_Check now (worker_kafka_checker tr) = None
      \<longleftrightarrow> (\<exists>p t. (p, t, Heartbeat) \<in> set tr \<and> now - t \<le> 30 * second))
    \<and> paced (events_of KafkaMain tr) \<and> paced (events_of KafkaRetryTask tr)"
proof -
  have "\<forall>t \<in> set (beat_times tr). 0 < t \<and> t \<le> now" using assms(2) by (auto simp: beat_times_mem)
  from kafka_heartbeat.recent_iff [OF beat_times_sorted [OF assms(1)] this assms(3), of "30 * second"]
  have "KafkaChecker_Check now (worker_kafka_checker tr) = None \<longleftrightarrow> (\<exists>t \<in> set (beat_times tr). now - t \<le> 30 * second)"
    by (simp add: worker_kafka_checker_def ProvideKafkaChecker_def second_def)
  also have "\<dots> \<longleftrightarrow> (\<exists>p t. (p, t, Heartbeat) \<in> set tr \<and> now - t \<le> 30 * second)"
    unfolding Bex_def beat_times_mem by blast
  finally show ?thesis
    using under_way_paced [OF assms(4) message_handler_quiet message_handler_ok]
      under_way_paced [OF assms(5) retry_handler_quiet retry_handler_ok] by simp
qed

text \<open>The main consumer polled once and then its handler did not return for an hour.\<close>

definition stuck_trace :: timed_trace where
  "stuck_trace =
     [(KafkaMain, second, Polled), (KafkaMain, second, Heartbeat),
      (KafkaRetryTask, 60 * minute, Polled), (KafkaRetryTask, 60 * minute, Heartbeat)]"

lemma under_way_first:
  assumes "\<not> isl (kafka_consume_turn env handle True True cfg [])" "handler_ok handle"
  shows "under_way env handle cfg [Polled, Heartbeat]"
proof -
  from assms(1) obtain h' where turn: "kafka_consume_turn env handle True True cfg [] = Inr h'"
    by (cases "kafka_consume_turn env handle True True cfg []") simp_all
  from consume_turn_batch [OF turn assms(2)] obtain t where "h' = [Polled, Heartbeat] @ t" by (auto simp: beats_def)
  with kafka_runs.turn [OF kafka_runs.start turn] show ?thesis unfolding under_way_def by auto
qed

theorem worker_kafka_health_witness:
  "KafkaChecker_Check (60 * minute + second) (worker_kafka_checker stuck_trace) = None
   \<and> KafkaChecker_Check (60 * minute + second) (worker_kafka_checker (take 2 stuck_trace)) \<noteq> None"
proof -
  let ?cfg = "kafka_consumer_defaults sample_cfg" and ?rc = "kafka_retry_defaults sample_cfg"
  have turns: "\<not> isl (kafka_consume_turn sample_env ProvideMessageHandler True True ?cfg [])"
    "\<not> isl (kafka_consume_turn sample_env (kafka_retry_handler sample_env ?rc) True True
       (kafka_consumer_defaults (kafka_retry_inner_cfg ?rc)) [])"
    by code_simp+
  note m = under_way_first [OF turns(1) message_handler_ok] and r = under_way_first [OF turns(2) retry_handler_ok]
  have none: "under_way sample_env (kafka_retry_handler sample_env ?rc) (kafka_consumer_defaults (kafka_retry_inner_cfg ?rc)) []"
    unfolding under_way_def using kafka_runs.start by (metis append_Nil)
  have e: "events_of KafkaMain stuck_trace = [Polled, Heartbeat]" "events_of KafkaRetryTask stuck_trace = [Polled, Heartbeat]"
    "events_of KafkaMain (take 2 stuck_trace) = [Polled, Heartbeat]" "events_of KafkaRetryTask (take 2 stuck_trace) = []"
    by (simp_all add: stuck_trace_def)
  have t: "sorted (map (fst \<circ> snd) stuck_trace)" "sorted (map (fst \<circ> snd) (take 2 stuck_trace))"
    "\<forall>(p, t, e) \<in> set stuck_trace. 0 < t \<and> t \<le> 60 * minute + second"
    "\<forall>(p, t, e) \<in> set (take 2 stuck_trace). 0 < t \<and> t \<le> 60 * minute + second" "60 * minute + second < 2 ^ 63"
    by (simp_all add: stuck_trace_def time_units)
  have "(KafkaRetryTask, 60 * minute, Heartbeat) \<in> set stuck_trace \<and> (60 * minute + second) - 60 * minute \<le> 30 * second"
    by (simp add: stuck_trace_def time_units)
  then have "KafkaChecker_Check (60 * minute + second) (worker_kafka_checker stuck_trace) = None"
    using worker_kafka_health [OF t(1,3,5), of sample_env sample_cfg sample_env] m r e by (simp only:) blast
  moreover have "KafkaChecker_Check (60 * minute + second) (worker_kafka_checker (take 2 stuck_trace)) \<noteq> None"
    using worker_kafka_health [OF t(2,4,5), of sample_env sample_cfg sample_env] m none e
    by (auto simp: stuck_trace_def time_units)
  ultimately show ?thesis ..
qed

end
