(* ===== verification/TestUtil.thy ===== *)
theory TestUtil
  imports Prelude
begin

text \<open>
  internal/testutil/http.go: the request a handler test starts from and the reading of its answer.
  \<open>json.Marshal\<close>, \<open>json.Unmarshal\<close> on the test's own types and the checks of \<open>http.NewRequest\<close> are
  parameters; a test that ends with \<open>Fatalf\<close> is an error value.
\<close>

section \<open>Definitions\<close>

datatype 'v test_body = BodyNil | BodyString string | BodyBytes string | BodyValue 'v

datatype test_fatal = MarshalBody go_error | NewRequestFailed go_error | DecodeFailed string go_error

record test_request =
  tq_Method :: string
  tq_URL :: string
  tq_Body :: "string option"
  tq_Header :: "(string \<times> string) list"

definition test_reader :: "('v \<Rightarrow> go_error + string) \<Rightarrow> 'v test_body \<Rightarrow> test_fatal + string option" where
  "test_reader marshal body =
     (case body of
        BodyNil \<Rightarrow> Inr None
      | BodyString b \<Rightarrow> Inr (Some b)
      | BodyBytes b \<Rightarrow> Inr (Some b)
      | BodyValue v \<Rightarrow> (case marshal v of Inl err \<Rightarrow> Inl (MarshalBody err) | Inr buf \<Rightarrow> Inr (Some buf)))"

definition NewTestContext ::
  "('v \<Rightarrow> go_error + string) \<Rightarrow> (string \<Rightarrow> string \<Rightarrow> go_error option) \<Rightarrow> string \<Rightarrow> string \<Rightarrow> 'v test_body
     \<Rightarrow> test_fatal + test_request" where
  "NewTestContext marshal new_request verb path body =
     (case test_reader marshal body of
        Inl err \<Rightarrow> Inl err
      | Inr reader \<Rightarrow>
         (case new_request verb path of
            Some err \<Rightarrow> Inl (NewRequestFailed err)
          | None \<Rightarrow>
              Inr \<lparr>tq_Method = verb, tq_URL = path, tq_Body = reader,
                   tq_Header = (if reader \<noteq> None then [(''Content-Type'', ''application/json'')] else [])\<rparr>))"

definition DecodeJSON :: "(string \<Rightarrow> go_error + 'v) \<Rightarrow> string \<Rightarrow> test_fatal + 'v" where
  "DecodeJSON unmarshal w = (case unmarshal w of Inl err \<Rightarrow> Inl (DecodeFailed w err) | Inr v \<Rightarrow> Inr v)"

section \<open>What a test gets\<close>

lemma NewTestContext_body:
  assumes "NewTestContext marshal new_request verb path body = Inr rq"
  shows "tq_Method rq = verb" "tq_URL rq = path" "new_request verb path = None"
    and "tq_Body rq = None \<longleftrightarrow> body = BodyNil"
    and "map_of (tq_Header rq) ''Content-Type'' = (if body = BodyNil then None else Some ''application/json'')"
  using assms by (auto simp: NewTestContext_def test_reader_def split: test_body.splits sum.splits option.splits)

text \<open>A value sent as the body is the value read back, where the two JSON functions agree.\<close>

lemma test_round_trip:
  assumes "\<And>v b. marshal v = Inr b \<Longrightarrow> unmarshal b = Inr v"
    and "NewTestContext marshal new_request verb path (BodyValue v) = Inr rq"
  shows "\<exists>b. tq_Body rq = Some b \<and> DecodeJSON unmarshal b = Inr v"
proof -
  obtain b where b: "marshal v = Inr b" "tq_Body rq = Some b"
    using assms(2) by (auto simp: NewTestContext_def test_reader_def split: sum.splits option.splits)
  with assms(1) show ?thesis by (simp add: DecodeJSON_def)
qed

end
