(* ===== verification/Spec2Isabelle.thy ===== *)
theory Spec2Isabelle
  imports KafkaRetryFlow SqsRetryFlow Resilience HttpClient RateLimitRefine Api WorkerCorrect InitCorrect
    KafkaDelivery Tracing WireCorrect ImportGraph WorkerHealth WorkerHeartbeat TestUtil
begin

text \<open>
  A verification development for a Go service: an HTTP server, a Kafka and SQS worker, a migration
  command, and the tool that turns the template into a project.

  The program. cmd/server builds an HTTP server from the packages under internal/platform
  (configuration, logger, MongoDB client, telemetry, health registry), a chain of middlewares
  (internal/middleware) and the features internal/user and internal/role, each a repository, a
  service and handlers. cmd/worker runs up to four consumer loops in a group: the Kafka consumer
  and its retry consumer (internal/platform/kafka), the SQS consumer and its retry consumer
  (internal/platform/sqs). A handler that fails has its record republished to a retry topic or
  queue, from which the retry consumer brings it back, or to a dead-letter one. cmd/init strips
  the features a project does not want from the sources, renames the module, runs the build tools
  and removes itself.

  How the code is modelled. A Go struct is a record, an enumeration or interface with known
  implementations a datatype, a map a partial function or an association list, a string a list
  of bytes, \<open>int\<close> and \<open>time.Duration\<close> integers with \<open>wrap64\<close> where they can overflow, and an
  error a value of \<open>go_error\<close> with \<open>errors.Is\<close> as \<open>errors_is\<close>. A nil slice of bytes and an empty one are
  the same list. What a component does to the
  outside (a broker, a database, a file, a response) is an event appended to its history, and what
  the outside answers is a function of the history, a field of an environment record: theorems
  hold for every environment, and what a theorem needs of it is a named hypothesis. A loop that may
  run for ever takes fuel, one unit a turn; None says it is still running. Concurrency (the health
  refresher, the callers of the breaker registry, the driver's callbacks, the order in which
  consumers return) is an inductive relation over interleaved steps.

  The theories, and what they model:
    Prelude: errors, 64-bit integers, association lists, histories.
    GoStd: what is used of strings, strconv, unicode/utf8 and regexp.
    Config: internal/platform/config. Validation and the translation of environment names.
    RetryPolicy: kafka/route.go, sqs/routing.go and both \<open>backoffDelay\<close> functions, as
      interpretations of one contract (\<open>retry_router\<close>).
    MessageHeaders, KafkaHeaders, SqsHeaders: headers.go of both brokers; the carriers interpret
      the contract \<open>header_carrier\<close>, sanitisation is specified header by header.
    KafkaProducer, KafkaConsumer: producer.go and consumer.go. KafkaCorrect: commits only settled
      records; the loop returns. KafkaRetryFlow: a record's way to the retry topic and back.
    KafkaDelivery: what the commits mean to the broker, and which records are lost.
    Tracing: \<open>ExtractTraceContext\<close> of both brokers, and the way of a trace from a publisher to a handler.
    SqsProducer, SqsConsumer, SqsCorrect, SqsRetryFlow: the same for client.go, producer.go,
      consumer.go and consumer_retry.go.
    Health: internal/platform/health. Readiness against the history of checks.
    RateLimitStore, RateLimitRefine: the store of middleware/rate_limit.go, its invariant, its
      refinement of a plain least-recently-used list, and the whole limiter over sequences of requests.
    Middleware: the middlewares, internal/platform/httperror, the router's chain.
    Pagination, Repository, User, UserCorrect, Role: cursors, and the two features; both
      repositories interpret the contract \<open>keyed_store\<close>.
    HttpClient, Resilience, Database, Observability: the packages of the same names.
    Platform: logger, httpserver, kafka/client.go, cmd/migrate.
    Wiring: what starting and stopping is: providers, the reference initialiser \<open>acquire\<close>, and the
      account of what is held (\<open>held_after\<close>). ServerProgram and WorkerProgram: providers.go,
      wire_gen.go and main.go of the two programs. WorkerCorrect: the group of consumers. WorkerHealth: the goroutines of the worker's health
      server beside \<open>Run\<close>. WorkerHeartbeat: the consumer loops and the health checker they share.
    WireGraph, WireCorrect: the wire.go files, the signatures of the providers and the markers around
      them; for every choice of features the stripped declarations have an initialiser, and only one.
    Api: the handlers of all routes inside the chain, and the types of what they answer.
    TestUtil: internal/testutil.
    Stripper, InitTool, InitCorrect: cmd/init. ImportGraph: the imports between the packages, against
      what the tool deletes.

  The locales are the contracts inside the program: \<open>retry_router\<close>, \<open>header_carrier\<close>,
  \<open>keyed_store\<close> (repository and service), \<open>heartbeat_checker\<close> (worker and health registry),
  \<open>provider\<close> (initialiser and cleanup), \<open>group_consumer\<close> (consumer loop and group),
  \<open>provider_graph\<close> (provider list and initialiser) and \<open>middleware\<close> (around a handler that answers
  once). Each is interpreted on the definitions that model the code.

  What the groups of properties show:
    Delivery: what is committed or deleted was handled or accepted elsewhere, with its payload, which
      only a dead-letter topic or queue may get cut; a record survives the trip over the retry topic, and its trace the trip over a broker; which records
      a commit passes over; where the retry budget and the attribute budget do not work as described.
    The interface: every request gets exactly one response, of a schema listed for its route; the
      request id, the CORS policy, the rate limiter; registrations and roles are unique; pages
      meet every user once.
    Operation: readiness is what the checks say; the worker's Kafka checker is healthy exactly while one
      of the loops beat it lately, which each does after every poll; everything opened is closed once; the group of
      consumers stops when its context is done, and never because of a broker; no request of the
      external client reaches a blocked address; the ingestion key is not sent in clear.
    The init tool: stripping equals a reference on blocks of lines; the deselected features are
      gone and nothing else is touched; what is left imports nothing that is gone and can still be
      wired; the tool does nothing without a choice, and removes itself last and only after success.

  Fuel. Every turn of a consumer loop extends the history, so a context that is done from \<open>N\<close>
  events on stops the loop within \<open>N + 1\<close> turns, which the termination properties state.

  Assumptions. Handlers do not change the message they are given and only append to the history.
  Reads of a Go map are in the order of its association list. The trace propagator writes only
  its own headers (\<open>trace_writes\<close>) and the counts a database returns are right (\<open>sound\<close>), where
  a theorem says so. The errgroup does what its documentation says (\<open>group_reach\<close>). A walk of the
  project tree visits files in the order of the list. In the sequence models the clock is a
  function of the history; the limiter's and the heartbeats' instants do not run backwards.

  Not modelled: spans and log lines, except where they are what a function is for; the regular
  expression engine, YAML, JSON decoding with validation tags, gin's routing and the broker,
  database and telemetry libraries, which are parameters; the Wire generator, of which only the
  committed output and the conditions on any other are stated; the generated mocks,
  scripts and deployment files. The context handed to handlers is modelled by the values the
  program puts into it. Nothing else of the implementation is left: what the map does not cover
  is comments, package and import clauses, interfaces and the constants inlined in definitions.
\<close>

end
